(* ===== verification/Prelude.thy ===== *)
theory Prelude
  imports Main "HOL-Library.Word"
begin

text \<open>
  What every component of the model shares.

  \<^item> Machine integers: \<open>u8\<close>, \<open>u32\<close>, \<open>u64\<close> and \<open>usize\<close> are words. The supported
    targets (\<open>aarch64\<close> in production, \<open>x86_64\<close> in CI) have 64-bit pointers, so \<open>usize\<close> is
    the type of \<open>u64\<close> and a conversion between the two never fails.
  \<^item> Results: Rust's \<open>Result<T, E>\<close> is the sum \<open>'e + 'a\<close> (\<open>Inl\<close> the error), \<open>?\<close> and
    \<open>and_then\<close> are \<open>bindE\<close>, \<open>ok_or\<close> turns an option into a result. An operation that could
    also panic has errors of type \<open>'e fault\<close>, where \<open>Panic\<close> is a branch of its own.
  \<^item> The checked, saturating and narrowing operations of the Rust standard library on words.
  \<^item> Byte buffers are lists of \<open>u8\<close>: little-endian encodings, sub-slices, writes into a buffer.

  The collection \<open>result_simps\<close> takes results apart; \<open>no_panic_intros\<close> shows, along the
  structure of a definition, that it cannot panic.
\<close>

named_theorems result_simps \<open>inversion of results: which branch gave this value\<close>
named_theorems no_panic_intros \<open>compositional rules for the absence of panics\<close>

section \<open>Machine integers\<close>

type_synonym u8 = "8 word"
type_synonym u32 = "32 word"
type_synonym u64 = "64 word"
type_synonym usize = "64 word"
type_synonym bytes = "u8 list"

text \<open>The largest value of an unsigned type, \<open>T::MAX\<close>.\<close>

abbreviation word_max :: "'a::len word" where
  "word_max \<equiv> - 1"

section \<open>Results, early returns and panics\<close>

datatype 'e fault = Err 'e | Panic

definition bindE :: "'e + 'a \<Rightarrow> ('a \<Rightarrow> 'e + 'b) \<Rightarrow> 'e + 'b" where
  "bindE r f = (case r of Inl e \<Rightarrow> Inl e | Inr x \<Rightarrow> f x)"

definition ok_or :: "'a option \<Rightarrow> 'e \<Rightarrow> 'e + 'a" where
  "ok_or v e = (case v of None \<Rightarrow> Inl e | Some x \<Rightarrow> Inr x)"

definition map_err :: "('e \<Rightarrow> 'f) \<Rightarrow> 'e + 'a \<Rightarrow> 'f + 'a" where
  "map_err g r = (case r of Inl e \<Rightarrow> Inl (g e) | Inr x \<Rightarrow> Inr x)"

definition is_ok :: "'e + 'a \<Rightarrow> bool" where
  "is_ok r \<longleftrightarrow> (case r of Inl _ \<Rightarrow> False | Inr _ \<Rightarrow> True)"

lemma bindE_simps [simp]:
  "bindE (Inl e) f = Inl e"
  "bindE (Inr x) f = f x"
  by (simp_all add: bindE_def)

lemma bindE_assoc: "bindE (bindE r f) g = bindE r (\<lambda>x. bindE (f x) g)"
  by (cases r) simp_all

lemma bindE_Inr_iff [result_simps]: "bindE r f = Inr y \<longleftrightarrow> (\<exists>x. r = Inr x \<and> f x = Inr y)"
  by (cases r) simp_all

lemma bindE_Inl_iff [result_simps]:
  "bindE r f = Inl e \<longleftrightarrow> r = Inl e \<or> (\<exists>x. r = Inr x \<and> f x = Inl e)"
  by (cases r) simp_all

lemma bindE_cong [fundef_cong]:
  "r = s \<Longrightarrow> (\<And>x. s = Inr x \<Longrightarrow> f x = g x) \<Longrightarrow> bindE r f = bindE s g"
  by (cases s) simp_all

lemma ok_or_simps [simp]:
  "ok_or None e = Inl e"
  "ok_or (Some x) e = Inr x"
  by (simp_all add: ok_or_def)

lemma ok_or_Inr_iff [result_simps]: "ok_or v e = Inr x \<longleftrightarrow> v = Some x"
  by (cases v) simp_all

lemma ok_or_Inl_iff [result_simps]: "ok_or v e = Inl d \<longleftrightarrow> v = None \<and> d = e"
  by (cases v) auto

lemma map_err_simps [simp]:
  "map_err g (Inl e) = Inl (g e)"
  "map_err g (Inr x) = Inr x"
  by (simp_all add: map_err_def)

lemma map_err_Inr_iff [result_simps]: "map_err g r = Inr x \<longleftrightarrow> r = Inr x"
  by (cases r) simp_all

lemma map_err_Inl_iff [result_simps]: "map_err g r = Inl d \<longleftrightarrow> (\<exists>e. r = Inl e \<and> d = g e)"
  by (cases r) auto

lemma is_ok_simps [simp]: "\<not> is_ok (Inl e)" "is_ok (Inr x)"
  by (simp_all add: is_ok_def)

lemma is_ok_iff: "is_ok r \<longleftrightarrow> (\<exists>x. r = Inr x)"
  by (cases r) simp_all

text \<open>A computation that does not panic.\<close>

definition no_panic :: "'e fault + 'a \<Rightarrow> bool" where
  "no_panic r \<longleftrightarrow> r \<noteq> Inl Panic"

lemma no_panic_Inr [no_panic_intros]: "no_panic (Inr x)"
  by (simp add: no_panic_def)

lemma no_panic_Err [no_panic_intros]: "no_panic (Inl (Err e))"
  by (simp add: no_panic_def)

lemma no_panic_bindE [no_panic_intros]:
  "no_panic r \<Longrightarrow> (\<And>x. r = Inr x \<Longrightarrow> no_panic (f x)) \<Longrightarrow> no_panic (bindE r f)"
  by (cases r) (simp_all add: no_panic_def)

lemma no_panic_if [no_panic_intros]:
  "(b \<Longrightarrow> no_panic r) \<Longrightarrow> (\<not> b \<Longrightarrow> no_panic s) \<Longrightarrow> no_panic (if b then r else s)"
  by simp

lemma no_panic_map_err [no_panic_intros]: "no_panic (map_err Err r)"
  by (cases r) (simp_all add: no_panic_def)

lemma no_panic_map_err_comp [no_panic_intros]: "no_panic (map_err (Err \<circ> g) r)"
  by (cases r) (simp_all add: no_panic_def)

lemma no_panic_ok_or [no_panic_intros]: "no_panic (ok_or v (Err e))"
  by (cases v) (simp_all add: no_panic_def)

lemma if_Inl_eq_Inr_iff [result_simps]:
  "(if b then Inl e else r) = Inr x \<longleftrightarrow> \<not> b \<and> r = Inr x"
  by simp

lemma if_Inl_eq_Inl_iff [result_simps]:
  "(if b then Inl e else r) = Inl d \<longleftrightarrow> b \<and> d = e \<or> \<not> b \<and> r = Inl d"
  by auto

text \<open>\<open>vec.try_into()\<close> into an array of \<open>n\<close> elements, or of a slice.\<close>

definition try_into_array :: "nat \<Rightarrow> 'a list \<Rightarrow> 'e \<Rightarrow> 'e + 'a list" where
  "try_into_array n xs e = (if length xs = n then Inr xs else Inl e)"

lemma try_into_array_Inr_iff [result_simps]:
  "try_into_array n xs e = Inr ys \<longleftrightarrow> length xs = n \<and> ys = xs"
  by (auto simp: try_into_array_def)

section \<open>Checked, saturating and narrowing arithmetic\<close>

definition checked_add :: "'a::len word \<Rightarrow> 'a word \<Rightarrow> 'a word option" where
  "checked_add x y = (if unat x + unat y < 2 ^ LENGTH('a) then Some (x + y) else None)"

definition checked_sub :: "'a::len word \<Rightarrow> 'a word \<Rightarrow> 'a word option" where
  "checked_sub x y = (if unat y \<le> unat x then Some (x - y) else None)"

definition checked_mul :: "'a::len word \<Rightarrow> 'a word \<Rightarrow> 'a word option" where
  "checked_mul x y = (if unat x * unat y < 2 ^ LENGTH('a) then Some (x * y) else None)"

definition saturating_add :: "'a::len word \<Rightarrow> 'a word \<Rightarrow> 'a word" where
  "saturating_add x y = (if unat x + unat y < 2 ^ LENGTH('a) then x + y else word_max)"

definition saturating_sub :: "'a::len word \<Rightarrow> 'a word \<Rightarrow> 'a word" where
  "saturating_sub x y = (if unat y \<le> unat x then x - y else 0)"

definition saturating_mul :: "'a::len word \<Rightarrow> 'a word \<Rightarrow> 'a word" where
  "saturating_mul x y = (if unat x * unat y < 2 ^ LENGTH('a) then x * y else word_max)"

text \<open>\<open>T::try_from\<close> between unsigned types: \<open>None\<close> when the value does not fit.\<close>

definition try_narrow :: "'a::len word \<Rightarrow> 'b::len word option" where
  "try_narrow x = (if unat x < 2 ^ LENGTH('b) then Some (ucast x) else None)"

text \<open>
  \<open>is_multiple_of\<close> of Rust's unsigned integers, and the remainder operator, which panics on a
  zero divisor. \<open>add_checked_build\<close> is \<open>+\<close> as a build with overflow checks runs it.
\<close>

definition is_multiple_of :: "'a::len word \<Rightarrow> 'a word \<Rightarrow> bool" where
  "is_multiple_of x y \<longleftrightarrow> (if y = 0 then x = 0 else x mod y = 0)"

definition rem_or_panic :: "'a::len word \<Rightarrow> 'a word \<Rightarrow> 'e fault + 'a word" where
  "rem_or_panic x y = (if y = 0 then Inl Panic else Inr (x mod y))"

definition add_checked_build :: "'a::len word \<Rightarrow> 'a word \<Rightarrow> 'e fault + 'a word" where
  "add_checked_build x y = ok_or (checked_add x y) Panic"

lemma checked_add_Some_iff [result_simps]:
  "checked_add x y = Some (z :: 'a::len word) \<longleftrightarrow> z = x + y \<and> unat x + unat y < 2 ^ LENGTH('a)"
  by (auto simp: checked_add_def)

lemma checked_add_None_iff [result_simps]:
  "checked_add x (y :: 'a::len word) = None \<longleftrightarrow> 2 ^ LENGTH('a) \<le> unat x + unat y"
  by (auto simp: checked_add_def)

lemma checked_mul_Some_iff [result_simps]:
  "checked_mul x y = Some (z :: 'a::len word) \<longleftrightarrow> z = x * y \<and> unat x * unat y < 2 ^ LENGTH('a)"
  by (auto simp: checked_mul_def)

lemma checked_mul_None_iff [result_simps]:
  "checked_mul x (y :: 'a::len word) = None \<longleftrightarrow> 2 ^ LENGTH('a) \<le> unat x * unat y"
  by (auto simp: checked_mul_def)

lemma try_narrow_Some_iff [result_simps]:
  "try_narrow (x :: 'a::len word) = Some (y :: 'b::len word)
     \<longleftrightarrow> y = ucast x \<and> unat x < 2 ^ LENGTH('b)"
  by (auto simp: try_narrow_def)

lemma try_narrow_None_iff [result_simps]:
  "try_narrow (x :: 'a::len word) = (None :: 'b::len word option) \<longleftrightarrow> 2 ^ LENGTH('b) \<le> unat x"
  by (auto simp: try_narrow_def)

lemma unat_add_exact:
  "unat x + unat (y :: 'a::len word) < 2 ^ LENGTH('a) \<Longrightarrow> unat (x + y) = unat x + unat y"
  by (simp add: unat_add_lem [THEN iffD1])

lemma unat_mult_exact:
  "unat x * unat (y :: 'a::len word) < 2 ^ LENGTH('a) \<Longrightarrow> unat (x * y) = unat x * unat y"
  by (simp add: unat_mult_lem [THEN iffD1])

lemma checked_add_bounded_iff:
  "(\<exists>e. checked_add x y = Some e \<and> \<not> z < e) \<longleftrightarrow> unat x + unat y \<le> unat (z :: 'a::len word)"
proof (cases "unat x + unat y < 2 ^ LENGTH('a)")
  case True
  then show ?thesis by (simp add: checked_add_def word_less_nat_alt not_less unat_add_exact)
next
  case False
  then have "unat z < unat x + unat y"
    using unsigned_less [of z, where ?'a = nat] by linarith
  then show ?thesis using False by (simp add: checked_add_def)
qed

lemma unat_sub_exact: "unat y \<le> unat x \<Longrightarrow> unat (x - y) = unat x - unat (y :: 'a::len word)"
  by (simp add: unat_sub word_le_nat_alt)

lemma eq_word_of_nat: "unat x = n \<Longrightarrow> x = word_of_nat n"
  by auto

lemma unat_of_nat_u64: "i < 18446744073709551616 \<Longrightarrow> unat (word_of_nat i :: u64) = i"
  by (simp add: unat_of_nat)

lemma unat_of_nat_u32: "i < 4294967296 \<Longrightarrow> unat (word_of_nat i :: u32) = i"
  by (simp add: unat_of_nat)

lemma unat_ucast_small:
  "unat x < 2 ^ LENGTH('b) \<Longrightarrow> unat (ucast (x :: 'a::len word) :: 'b::len word) = unat x"
  by (simp add: unsigned_ucast_eq take_bit_nat_eq_self)

lemma unat_ucast_up:
  "LENGTH('a) \<le> LENGTH('b) \<Longrightarrow> unat (ucast (x :: 'a::len word) :: 'b::len word) = unat x"
  by (rule unat_ucast_small)
     (rule less_le_trans [OF unsigned_less power_increasing], simp_all)

lemma unat_u32_u64 [simp]: "unat (ucast (x :: u32) :: u64) = unat x"
  by (rule unat_ucast_up) simp

lemma unat_u32_lt [simp]: "unat (x :: u32) < 4294967296"
  using unsigned_less [of x, where ?'a = nat] by simp

lemma unat_u64_lt [simp]: "unat (x :: u64) < 18446744073709551616"
  using unsigned_less [of x, where ?'a = nat] by simp

lemma unat_u8_lt [simp]: "unat (x :: u8) < 256"
  using unsigned_less [of x, where ?'a = nat] by simp

lemma is_multiple_of_unat:
  assumes "y \<noteq> 0"
  shows "is_multiple_of x y \<longleftrightarrow> unat y dvd unat x"
proof -
  have "x mod y = 0 \<longleftrightarrow> unat (x mod y) = 0"
    by (simp add: unat_eq_zero)
  then show ?thesis
    using assms by (simp add: is_multiple_of_def unat_mod dvd_eq_mod_eq_0)
qed

lemma rem_or_panic_Inr_iff [result_simps]: "rem_or_panic x y = Inr z \<longleftrightarrow> y \<noteq> 0 \<and> z = x mod y"
  by (auto simp: rem_or_panic_def)

end
