(* ===== verification/Bytes.thy ===== *)
theory Bytes
  imports Prelude
begin

text \<open>
  Byte buffers, shared by the storage components: little-endian integers
  (\<open>to_le_bytes\<close>, \<open>from_le_bytes\<close>), the checked sub-slice \<open>buf.get(a..b)\<close>, the copy of a slice
  into a buffer (\<open>copy_from_slice\<close>, and \<open>write_all\<close> at a position of a file), and the
  strictly sorted lists on which indexes are built.
\<close>

lemma upt_from_one: "Suc 0 < n \<Longrightarrow> [Suc 0..<n] = 1 # [2..<n]"
  by (simp add: upt_conv_Cons numeral_2_eq_2)

section \<open>Little-endian integers\<close>

fun le_bytes :: "nat \<Rightarrow> nat \<Rightarrow> bytes" where
  "le_bytes 0 x = []"
| "le_bytes (Suc n) x = word_of_nat x # le_bytes n (x div 256)"

fun le_value :: "bytes \<Rightarrow> nat" where
  "le_value [] = 0"
| "le_value (b # bs) = unat b + 256 * le_value bs"

definition u32_to_le_bytes :: "u32 \<Rightarrow> bytes" where
  "u32_to_le_bytes x = le_bytes 4 (unat x)"

definition u64_to_le_bytes :: "u64 \<Rightarrow> bytes" where
  "u64_to_le_bytes x = le_bytes 8 (unat x)"

definition u32_from_le_bytes :: "bytes \<Rightarrow> u32" where
  "u32_from_le_bytes bs = word_of_nat (le_value bs)"

definition u64_from_le_bytes :: "bytes \<Rightarrow> u64" where
  "u64_from_le_bytes bs = word_of_nat (le_value bs)"

lemma length_le_bytes [simp]: "length (le_bytes n x) = n"
  by (induction n arbitrary: x) simp_all

lemma length_u32_to_le_bytes [simp]: "length (u32_to_le_bytes x) = 4"
  by (simp add: u32_to_le_bytes_def)

lemma length_u64_to_le_bytes [simp]: "length (u64_to_le_bytes x) = 8"
  by (simp add: u64_to_le_bytes_def)

lemma unat_of_nat_u8: "unat (word_of_nat x :: u8) = x mod 256"
  by (simp add: unat_of_nat)

lemma le_value_le_bytes: "le_value (le_bytes n x) = x mod 256 ^ n"
proof (induction n arbitrary: x)
  case 0
  then show ?case by simp
next
  case (Suc n)
  then show ?case
    by (simp add: unat_of_nat_u8 mod_mult2_eq add.commute)
qed

lemma le_value_less: "le_value bs < 256 ^ length bs"
proof (induction bs)
  case Nil
  then show ?case by simp
next
  case (Cons b bs)
  have "unat b + 256 * le_value bs < 256 * Suc (le_value bs)" by simp
  also have "\<dots> \<le> 256 * 256 ^ length bs"
    using Cons by (intro mult_le_mono2) simp
  finally show ?case by simp
qed

lemma le_bytes_le_value: "le_bytes (length bs) (le_value bs) = bs"
proof (induction bs)
  case Nil
  then show ?case by simp
next
  case (Cons b bs)
  have zero: "(256 :: u8) = 0" by simp
  have "unat b < 256" by simp
  then have "(unat b + 256 * le_value bs) div 256 = le_value bs" by simp
  moreover have "(word_of_nat (unat b + 256 * le_value bs) :: u8) = b"
    by (simp only: of_nat_add of_nat_mult of_nat_numeral zero) simp
  ultimately show ?case using Cons by simp
qed

lemma u32_le_roundtrip [simp]: "u32_from_le_bytes (u32_to_le_bytes x) = x"
  by (simp add: u32_from_le_bytes_def u32_to_le_bytes_def le_value_le_bytes)

lemma u64_le_roundtrip [simp]: "u64_from_le_bytes (u64_to_le_bytes x) = x"
  by (simp add: u64_from_le_bytes_def u64_to_le_bytes_def le_value_le_bytes)

lemma u32_le_canonical: "length bs = 4 \<Longrightarrow> u32_to_le_bytes (u32_from_le_bytes bs) = bs"
  using le_value_less [of bs] le_bytes_le_value [of bs]
  by (simp add: u32_from_le_bytes_def u32_to_le_bytes_def unat_of_nat)

lemma u64_le_canonical: "length bs = 8 \<Longrightarrow> u64_to_le_bytes (u64_from_le_bytes bs) = bs"
  using le_value_less [of bs] le_bytes_le_value [of bs]
  by (simp add: u64_from_le_bytes_def u64_to_le_bytes_def unat_of_nat)

section \<open>Sub-slices and writes\<close>

text \<open>\<open>xs.get(a..b)\<close>: \<open>None\<close> when the range is reversed or leaves the slice.\<close>

definition get_range :: "'a list \<Rightarrow> nat \<Rightarrow> nat \<Rightarrow> 'a list option" where
  "get_range xs a b = (if a \<le> b \<and> b \<le> length xs then Some (take (b - a) (drop a xs)) else None)"

text \<open>\<open>xs[a..b]\<close>, indexing with a range, which panics where \<open>get\<close> gives \<open>None\<close>.\<close>

definition index_range :: "'a list \<Rightarrow> nat \<Rightarrow> nat \<Rightarrow> 'e fault + 'a list" where
  "index_range xs a b = ok_or (get_range xs a b) Panic"

text \<open>\<open>xs[off..off + ys.len()].copy_from_slice(&ys)\<close> for a range inside \<open>xs\<close>.\<close>

definition put_at :: "nat \<Rightarrow> 'a list \<Rightarrow> 'a list \<Rightarrow> 'a list" where
  "put_at off ys xs = take off xs @ ys @ drop (off + length ys) xs"

lemma get_range_Some_iff [result_simps]:
  "get_range xs a b = Some ys \<longleftrightarrow> a \<le> b \<and> b \<le> length xs \<and> ys = take (b - a) (drop a xs)"
  by (auto simp: get_range_def)

lemma get_range_None_iff [result_simps]:
  "get_range xs a b = None \<longleftrightarrow> \<not> (a \<le> b \<and> b \<le> length xs)"
  by (auto simp: get_range_def)

lemma length_get_range: "get_range xs a b = Some ys \<Longrightarrow> length ys = b - a"
  by (auto simp: get_range_def split: if_splits)

lemma index_range_Inr_iff [result_simps]:
  "index_range xs a b = Inr ys \<longleftrightarrow> get_range xs a b = Some ys"
  by (simp add: index_range_def result_simps)

lemma length_put_at [simp]: "off + length ys \<le> length xs \<Longrightarrow> length (put_at off ys xs) = length xs"
  by (simp add: put_at_def)

lemma put_at_same:
  "off + length ys \<le> length xs \<Longrightarrow> take (length ys) (drop off (put_at off ys xs)) = ys"
  by (simp add: put_at_def)

lemma put_at_before:
  assumes "a + n \<le> off" and "off \<le> length xs"
  shows "take n (drop a (put_at off ys xs)) = take n (drop a xs)"
proof -
  have "take n (drop a (put_at off ys xs)) = take n (take (off - a) (drop a xs))"
    using assms by (simp add: put_at_def drop_take)
  also have "\<dots> = take n (drop a xs)"
    using assms by (simp add: min_def)
  finally show ?thesis .
qed

lemma put_at_after:
  assumes "off + length ys \<le> a" and "off + length ys \<le> length xs"
  shows "take n (drop a (put_at off ys xs)) = take n (drop a xs)"
proof -
  have "drop a (put_at off ys xs) = drop (a - length ys - off) (drop (off + length ys) xs)"
    using assms by (simp add: put_at_def drop_append)
  also have "\<dots> = drop a xs"
    using assms by (simp add: add.commute)
  finally show ?thesis by simp
qed

lemma put_at_other:
  "off + length ys \<le> length xs \<Longrightarrow> a + n \<le> off \<or> off + length ys \<le> a \<Longrightarrow>
     take n (drop a (put_at off ys xs)) = take n (drop a xs)"
  using put_at_before [of a n off xs ys] put_at_after [of off ys a xs n] by auto

lemma put_at_fill:
  "length ys \<le> n \<Longrightarrow> off = length pre \<Longrightarrow>
     put_at off ys (pre @ replicate n x) = (pre @ ys) @ replicate (n - length ys) x"
  by (simp add: put_at_def)

lemma concat_chunks: "concat (map (\<lambda>r. take k (drop (r * k) xs)) [0..<n]) = take (n * k) xs"
proof (induction n)
  case (Suc n)
  have "take (Suc n * k) xs = take (n * k) xs @ take k (drop (n * k) xs)"
    by (simp add: take_add add.commute [of k])
  then show ?case using Suc by simp
qed simp

lemma length_distinct_u32: "distinct (rows :: u32 list) \<Longrightarrow> length rows \<le> 4294967296"
proof -
  assume "distinct rows"
  then have "length rows = card (set rows)" by (simp add: distinct_card)
  also have "\<dots> \<le> card (UNIV :: u32 set)" by (rule card_mono) simp_all
  also have "\<dots> = 4294967296" by (simp add: card_word)
  finally show ?thesis .
qed

section \<open>Adjacent pairs and strict sortedness\<close>

text \<open>\<open>xs.windows(2)\<close>\<close>

definition pairs :: "'a list \<Rightarrow> ('a \<times> 'a) list" where
  "pairs xs = zip xs (tl xs)"

lemma pairs_simps [simp]:
  "pairs [] = []"
  "pairs [x] = []"
  "pairs (x # y # zs) = (x, y) # pairs (y # zs)"
  by (simp_all add: pairs_def)

lemma strict_sorted_iff_pairs:
  "sorted_wrt (<) (xs :: 'a::linorder list) \<longleftrightarrow> (\<forall>(x, y) \<in> set (pairs xs). x < y)"
proof (induction xs rule: induct_list012)
  case (3 x y zs)
  show ?case
    by (simp only: sorted_wrt2 [OF transp_on_less] pairs_simps 3) auto
qed simp_all

text \<open>Sorting and then dropping adjacent duplicates, as \<open>sort_unstable\<close> and \<open>dedup\<close> do.\<close>

definition sort_dedup :: "'a::linorder list \<Rightarrow> 'a list" where
  "sort_dedup xs = remdups_adj (sort xs)"

lemma set_sort_dedup [simp]: "set (sort_dedup xs) = set xs"
  by (simp add: sort_dedup_def)

lemma sorted_remdups_adj_strict:
  "sorted xs \<Longrightarrow> sorted_wrt (<) (remdups_adj (xs :: 'a::linorder list))"
  by (induction xs rule: remdups_adj.induct) (auto simp: less_le)

lemma strict_sorted_sort_dedup: "sorted_wrt (<) (sort_dedup xs)"
  by (simp add: sort_dedup_def sorted_remdups_adj_strict)

lemma sorted_sort_dedup [simp]: "sorted (sort_dedup xs)"
  using strict_sorted_sort_dedup [of xs] by (simp add: strict_sorted_iff)

lemma distinct_sort_dedup [simp]: "distinct (sort_dedup xs)"
  using strict_sorted_sort_dedup [of xs] by (simp add: strict_sorted_iff)

lemma sort_dedup_eq_sorted_list_of_set: "sort_dedup xs = sorted_list_of_set (set xs)"
  by (rule sorted_distinct_set_unique) simp_all

lemma sort_dedup_cong: "set xs = set ys \<Longrightarrow> sort_dedup xs = sort_dedup ys"
  by (simp add: sort_dedup_eq_sorted_list_of_set)

end
