(* ===== verification/PleHash.thy ===== *)
theory PleHash
  imports Bytes
begin

unbundle bit_operations_syntax

text \<open>
  The n-gram hash of the Qwen3.8 PLE tables and the token window it reads
  (\<open>crates/gb10x-core/src/ple_hash.rs\<close>).

  \<^item> \<open>ple_hash_plan\<close> is \<open>PleHashPlan\<close>, \<open>token_window\<close> is \<open>PleTokenWindow\<close>; the fixed-size
    arrays of the code are lists, whose lengths \<open>wf_plan\<close> and \<open>wf_window\<close> record.
  \<^item> \<open>rows_for_token\<close> keeps the two nested loops: one pass per n-gram order, and in it one pass
    over the eight heads of the order. Its results are \<open>fault\<close>s: the remainder by a zero
    vocabulary size and the unchecked \<open>+\<close> (in a build with overflow checks) are \<open>Panic\<close>
    branches. An operation that returns \<open>Inl\<close> leaves the window as it was.
  \<^item> The window is refined to a token history (\<open>context_of\<close>), and its transactions to a
    history with a staged suffix (\<open>spec_step\<close>); \<open>window_step\<close> and \<open>window_reachable\<close> are the
    state machine of the public operations. \<open>session\<close> runs operations on the history, with the
    error of the first that it refuses.
\<close>

section \<open>Data\<close>

definition QWEN38_NGRAM_SIZE :: nat where
  "QWEN38_NGRAM_SIZE = 3"

definition QWEN38_HEADS_PER_ORDER :: nat where
  "QWEN38_HEADS_PER_ORDER = 8"

definition QWEN38_PLE_HEADS :: nat where
  "QWEN38_PLE_HEADS = 16"

lemmas qwen_constants = QWEN38_NGRAM_SIZE_def QWEN38_HEADS_PER_ORDER_def QWEN38_PLE_HEADS_def

datatype ple_hash_error =
    UnsupportedShape string
  | InvalidPlan string
  | RowOverflow u64
  | Transaction string
  | IncompatibleWindow

record ple_hash_plan =
  multipliers :: "u64 list"
  vocab_sizes :: "u64 list"
  offsets :: "u64 list"
  plan_eos :: u32

record token_window =
  previous :: "u32 list"
  rollback :: "u32 list option"
  window_eos :: u32

section \<open>The hash plan\<close>

text \<open>The loop over the heads \<open>1..16\<close> that checks that the tables are contiguous.\<close>

fun check_heads :: "u64 list \<Rightarrow> u64 list \<Rightarrow> nat list \<Rightarrow> ple_hash_error + unit" where
  "check_heads offs sizes [] = Inr ()"
| "check_heads offs sizes (head # heads) =
     bindE (ok_or (checked_add (offs ! (head - 1)) (sizes ! (head - 1)))
              (InvalidPlan ''head table offset overflow''))
       (\<lambda>expected.
          if offs ! head \<noteq> expected then Inl (InvalidPlan ''head tables must be contiguous'')
          else check_heads offs sizes heads)"

definition ple_hash_plan_new ::
    "u64 list \<Rightarrow> u64 list \<Rightarrow> u64 list \<Rightarrow> usize \<Rightarrow> usize \<Rightarrow> u32 \<Rightarrow> ple_hash_error + ple_hash_plan"
  where
  "ple_hash_plan_new mults sizes offs heads_per_ngram ngram_size eos =
     (if unat ngram_size \<noteq> QWEN38_NGRAM_SIZE
      then Inl (UnsupportedShape ''ngram_size must equal 3'')
      else if unat heads_per_ngram \<noteq> QWEN38_HEADS_PER_ORDER
      then Inl (UnsupportedShape ''heads_per_ngram must equal 8'')
      else
        bindE (try_into_array QWEN38_NGRAM_SIZE mults
                 (UnsupportedShape ''exactly 3 multipliers are required'')) (\<lambda>mults.
        bindE (try_into_array QWEN38_PLE_HEADS sizes
                 (UnsupportedShape ''exactly 16 vocab sizes are required'')) (\<lambda>sizes.
        bindE (try_into_array QWEN38_PLE_HEADS offs
                 (UnsupportedShape ''exactly 16 offsets are required'')) (\<lambda>offs.
        if 0 \<in> set mults then Inl (InvalidPlan ''multipliers must be nonzero'')
        else if 0 \<in> set sizes then Inl (InvalidPlan ''vocab sizes must be nonzero'')
        else
          bindE (check_heads offs sizes [1..<QWEN38_PLE_HEADS]) (\<lambda>_.
          bindE (ok_or (checked_add (offs ! (QWEN38_PLE_HEADS - 1)) (sizes ! (QWEN38_PLE_HEADS - 1)))
                   (InvalidPlan ''final head table overflow'')) (\<lambda>final_end.
          if final_end > 4294967296
          then Inl (InvalidPlan ''logical PLE row space exceeds u32'')
          else Inr \<lparr>multipliers = mults, vocab_sizes = sizes, offsets = offs, plan_eos = eos\<rparr>))))))"

section \<open>The token window\<close>

definition token_window_new :: "usize \<Rightarrow> u32 \<Rightarrow> ple_hash_error + token_window" where
  "token_window_new ngram_size eos =
     (if unat ngram_size \<noteq> QWEN38_NGRAM_SIZE
      then Inl (UnsupportedShape ''ngram_size must equal 3'')
      else Inr \<lparr>previous = replicate (QWEN38_NGRAM_SIZE - 1) eos, rollback = None,
                window_eos = eos\<rparr>)"

definition push :: "token_window \<Rightarrow> u32 \<Rightarrow> token_window" where
  "push w token =
     (if token = window_eos w
      then w\<lparr>previous := map (\<lambda>_. window_eos w) (previous w)\<rparr>
      else w\<lparr>previous := ((previous w)[1 := previous w ! 0])[0 := token]\<rparr>)"

definition begin_append :: "token_window \<Rightarrow> ple_hash_error + token_window" where
  "begin_append w =
     (if rollback w \<noteq> None
      then Inl (Transaction ''an append transaction is already active'')
      else Inr (w\<lparr>rollback := Some (previous w)\<rparr>))"

definition commit_append :: "token_window \<Rightarrow> ple_hash_error + token_window" where
  "commit_append w =
     (if rollback w = None then Inl (Transaction ''no append transaction is active'')
      else Inr (w\<lparr>rollback := None\<rparr>))"

definition commit_append_prefix :: "token_window \<Rightarrow> u32 list \<Rightarrow> ple_hash_error + token_window"
  where
  "commit_append_prefix w accepted_tokens =
     bindE (ok_or (rollback w) (Transaction ''no append transaction is active'')) (\<lambda>original.
     Inr (foldl push (w\<lparr>rollback := None, previous := original\<rparr>) accepted_tokens))"

definition abort_append :: "token_window \<Rightarrow> ple_hash_error + token_window" where
  "abort_append w =
     bindE (ok_or (rollback w) (Transaction ''no append transaction is active'')) (\<lambda>original.
     Inr (w\<lparr>rollback := None, previous := original\<rparr>))"

definition snapshot :: "token_window \<Rightarrow> ple_hash_error + token_window" where
  "snapshot w =
     (if rollback w \<noteq> None
      then Inl (Transaction ''cannot snapshot an active append transaction'')
      else Inr w)"

section \<open>Hashing one token\<close>

text \<open>\<open>mixed\<close> for one n-gram order: wrapping products of the tokens, combined by xor.\<close>

definition mixed_hash :: "ple_hash_plan \<Rightarrow> token_window \<Rightarrow> u32 \<Rightarrow> nat \<Rightarrow> u64" where
  "mixed_hash plan w token order =
     foldl (\<lambda>mixed prev. mixed XOR (ucast (previous w ! (prev - 1)) * multipliers plan ! prev))
       (ucast token * multipliers plan ! 0) [1..<order]"

fun fill_heads ::
    "ple_hash_plan \<Rightarrow> u64 \<Rightarrow> nat list \<Rightarrow> u32 list \<Rightarrow> ple_hash_error fault + u32 list" where
  "fill_heads plan mixed [] rows = Inr rows"
| "fill_heads plan mixed (head # heads) rows =
     bindE (rem_or_panic mixed (vocab_sizes plan ! head)) (\<lambda>slot.
     bindE (add_checked_build (offsets plan ! head) slot) (\<lambda>row.
     bindE (ok_or (try_narrow row) (Err (RowOverflow row))) (\<lambda>row32.
     fill_heads plan mixed heads (rows[head := row32]))))"

fun fill_orders ::
    "ple_hash_plan \<Rightarrow> token_window \<Rightarrow> u32 \<Rightarrow> nat list \<Rightarrow> u32 list \<Rightarrow> ple_hash_error fault + u32 list"
  where
  "fill_orders plan w token [] rows = Inr rows"
| "fill_orders plan w token (order # orders) rows =
     (let mixed = mixed_hash plan w token order;
          first_head = (order - 2) * QWEN38_HEADS_PER_ORDER
      in bindE (fill_heads plan mixed
                  (take QWEN38_HEADS_PER_ORDER (drop first_head [0..<length rows])) rows)
           (fill_orders plan w token orders))"

definition rows_for_token ::
    "ple_hash_plan \<Rightarrow> token_window \<Rightarrow> u32 \<Rightarrow> ple_hash_error fault + u32 list \<times> token_window" where
  "rows_for_token plan w token =
     (if window_eos w \<noteq> plan_eos plan then Inl (Err IncompatibleWindow)
      else
        bindE (fill_orders plan w token [2..<Suc QWEN38_NGRAM_SIZE] (replicate QWEN38_PLE_HEADS 0))
          (\<lambda>rows. Inr (rows, push w token)))"

section \<open>Well-formed plans\<close>

text \<open>
  What \<open>PleHashPlan::new\<close> promises: the array lengths, non-zero multipliers and sizes, and
  sixteen adjacent tables that end inside the row identifiers of 32 bits.
\<close>

definition wf_plan :: "ple_hash_plan \<Rightarrow> bool" where
  "wf_plan p \<longleftrightarrow>
     length (multipliers p) = 3 \<and> length (vocab_sizes p) = 16 \<and> length (offsets p) = 16 \<and>
     0 \<notin> set (multipliers p) \<and> 0 \<notin> set (vocab_sizes p) \<and>
     (\<forall>h \<in> {1..<16}. unat (offsets p ! h)
        = unat (offsets p ! (h - 1)) + unat (vocab_sizes p ! (h - 1))) \<and>
     unat (offsets p ! 15) + unat (vocab_sizes p ! 15) \<le> 2 ^ 32"

lemma check_heads_Inr_iff:
  "check_heads offs sizes heads = Inr u \<longleftrightarrow>
     (\<forall>h \<in> set heads. unat (offs ! h) = unat (offs ! (h - 1)) + unat (sizes ! (h - 1)))"
proof (induction heads)
  case (Cons h heads)
  have "checked_add (offs ! (h - 1)) (sizes ! (h - 1)) = Some (offs ! h) \<longleftrightarrow>
    unat (offs ! h) = unat (offs ! (h - 1)) + unat (sizes ! (h - 1))" (is "?l \<longleftrightarrow> ?r")
  proof
    assume ?l
    then show ?r by (auto simp: result_simps unat_add_exact)
  next
    assume r: ?r
    then have lt: "unat (offs ! (h - 1)) + unat (sizes ! (h - 1)) < 2 ^ 64"
      using unat_u64_lt [of "offs ! h"] by simp
    then have "unat (offs ! (h - 1) + sizes ! (h - 1)) = unat (offs ! h)"
      using r by (simp add: unat_add_exact)
    then have "offs ! (h - 1) + sizes ! (h - 1) = offs ! h"
      by (simp only: word_unat_eq_iff)
    then show ?l using lt by (simp add: checked_add_def)
  qed
  then show ?case
    using Cons.IH by (auto simp: result_simps split: if_splits)
qed simp

lemma unat_usize_eq_numeral [simp]:
  "unat (x :: u64) = 3 \<longleftrightarrow> x = 3"
  "unat (x :: u64) = 8 \<longleftrightarrow> x = 8"
  by (simp_all add: word_unat_eq_iff)

lemma final_end_iff:
  "(\<exists>e. checked_add a b = Some e \<and> \<not> e > (4294967296 :: u64)) \<longleftrightarrow> unat a + unat b \<le> 2 ^ 32"
  by (auto simp: result_simps word_less_nat_alt unat_add_exact not_less)

lemma wf_plan_iff_checks:
  assumes "p = \<lparr>multipliers = mults, vocab_sizes = sizes, offsets = offs, plan_eos = eos\<rparr>"
  shows "wf_plan p \<longleftrightarrow> length mults = 3 \<and> length sizes = 16 \<and> length offs = 16 \<and>
    0 \<notin> set mults \<and> 0 \<notin> set sizes \<and> check_heads offs sizes [1..<16] = Inr () \<and>
    (\<exists>e. checked_add (offs ! 15) (sizes ! 15) = Some e \<and> \<not> e > (4294967296 :: u64))"
  by (simp only: final_end_iff wf_plan_def assms check_heads_Inr_iff set_upt ple_hash_plan.simps)

theorem ple_hash_plan_new_ok_iff:
  "ple_hash_plan_new mults sizes offs heads_per_ngram ngram_size eos = Inr p \<longleftrightarrow>
     heads_per_ngram = 8 \<and> ngram_size = 3 \<and>
     p = \<lparr>multipliers = mults, vocab_sizes = sizes, offsets = offs, plan_eos = eos\<rparr> \<and> wf_plan p"
proof -
  let ?p = "\<lparr>multipliers = mults, vocab_sizes = sizes, offsets = offs, plan_eos = eos\<rparr>"
  have "ple_hash_plan_new mults sizes offs heads_per_ngram ngram_size eos = Inr p \<longleftrightarrow>
      heads_per_ngram = 8 \<and> ngram_size = 3 \<and> p = ?p \<and> wf_plan ?p"
    unfolding wf_plan_iff_checks [OF refl]
    by (auto simp: ple_hash_plan_new_def qwen_constants result_simps)
  then show ?thesis by auto
qed

section \<open>Head tables\<close>

text \<open>The row a head gets for a mixed hash value, and the range of its table.\<close>

definition head_row :: "ple_hash_plan \<Rightarrow> u64 \<Rightarrow> nat \<Rightarrow> u64" where
  "head_row p mixed h = offsets p ! h + mixed mod (vocab_sizes p ! h)"

definition table_start :: "ple_hash_plan \<Rightarrow> nat \<Rightarrow> nat" where
  "table_start p h = unat (offsets p ! h)"

definition table_end :: "ple_hash_plan \<Rightarrow> nat \<Rightarrow> nat" where
  "table_end p h = unat (offsets p ! h) + unat (vocab_sizes p ! h)"

lemma table_end_step: "wf_plan p \<Longrightarrow> Suc h < 16 \<Longrightarrow> table_start p (Suc h) = table_end p h"
  by (auto simp: wf_plan_def table_start_def table_end_def dest: bspec [where x = "Suc h"])

lemma table_start_le_end: "table_start p h \<le> table_end p h"
  by (simp add: table_start_def table_end_def)

lemma table_end_mono:
  assumes "wf_plan p"
  shows "i < j \<Longrightarrow> j < 16 \<Longrightarrow> table_end p i \<le> table_start p j"
proof (induction j)
  case (Suc j)
  show ?case
  proof (cases "i = j")
    case True
    then show ?thesis using table_end_step [OF assms Suc.prems(2)] by simp
  next
    case False
    then have "table_end p i \<le> table_start p j" using Suc by simp
    also have "\<dots> \<le> table_end p j" by (rule table_start_le_end)
    also have "\<dots> = table_start p (Suc j)" using table_end_step [OF assms Suc.prems(2)] by simp
    finally show ?thesis .
  qed
qed simp

lemma table_end_le: "wf_plan p \<Longrightarrow> h < 16 \<Longrightarrow> table_end p h \<le> 2 ^ 32"
proof -
  assume p: "wf_plan p" and h: "h < 16"
  have last: "table_end p 15 \<le> 2 ^ 32"
    using p unfolding wf_plan_def table_end_def by (elim conjE)
  show ?thesis
  proof (cases "h = 15")
    case False
    then have "table_end p h \<le> table_start p 15"
      using h by (intro table_end_mono [OF p]) simp_all
    then show ?thesis using last table_start_le_end [of p 15] by linarith
  qed (use last in simp)
qed

lemma vocab_nonzero: "wf_plan p \<Longrightarrow> h < 16 \<Longrightarrow> vocab_sizes p ! h \<noteq> 0"
  by (metis wf_plan_def nth_mem)

lemma head_row_bounds:
  assumes "wf_plan p" and "h < 16"
  shows "table_start p h \<le> unat (head_row p mixed h)"
    and "unat (head_row p mixed h) < table_end p h"
    and "unat (offsets p ! h) + unat (mixed mod vocab_sizes p ! h) < 2 ^ 32"
    and "unat (head_row p mixed h) < 2 ^ 32"
proof -
  have "0 < unat (vocab_sizes p ! h)"
    using vocab_nonzero [OF assms] by (simp add: unat_gt_0)
  then have lt: "unat (mixed mod vocab_sizes p ! h) < unat (vocab_sizes p ! h)"
    by (simp add: unat_mod)
  then show small: "unat (offsets p ! h) + unat (mixed mod vocab_sizes p ! h) < 2 ^ 32"
    using table_end_le [OF assms] by (simp add: table_end_def)
  then have eq: "unat (head_row p mixed h)
      = unat (offsets p ! h) + unat (mixed mod vocab_sizes p ! h)"
    by (simp add: head_row_def unat_add_exact)
  show "table_start p h \<le> unat (head_row p mixed h)"
    by (simp add: eq table_start_def)
  show "unat (head_row p mixed h) < table_end p h"
    using lt by (simp add: eq table_end_def)
  show "unat (head_row p mixed h) < 2 ^ 32"
    using small by (simp add: eq)
qed

section \<open>Evaluation of the hash loops\<close>

lemma fill_heads_step:
  assumes "wf_plan p" and "h < 16"
  shows "fill_heads p mixed (h # heads) rows
    = fill_heads p mixed heads (rows[h := ucast (head_row p mixed h)])"
  using head_row_bounds [OF assms, of mixed] vocab_nonzero [OF assms]
  by (simp add: rem_or_panic_def add_checked_build_def checked_add_def try_narrow_def
      head_row_def [symmetric])

lemma fill_heads_total:
  assumes "wf_plan p"
  shows "set heads \<subseteq> {..<16} \<Longrightarrow> length rows = 16 \<Longrightarrow>
    \<exists>rows'. fill_heads p mixed heads rows = Inr rows' \<and> length rows' = 16 \<and>
      (\<forall>h < 16. rows' ! h = (if h \<in> set heads then ucast (head_row p mixed h) else rows ! h))"
proof (induction heads arbitrary: rows)
  case (Cons h heads)
  then have h: "h < 16" by simp
  let ?rows = "rows[h := ucast (head_row p mixed h)]"
  obtain rows' where "fill_heads p mixed heads ?rows = Inr rows'" "length rows' = 16"
    "\<forall>i < 16. rows' ! i = (if i \<in> set heads then ucast (head_row p mixed i) else ?rows ! i)"
    using Cons.IH [of ?rows] Cons.prems by auto
  moreover have "fill_heads p mixed (h # heads) rows = fill_heads p mixed heads ?rows"
    by (rule fill_heads_step [OF assms h])
  ultimately show ?case
    using Cons.prems(2) h by (auto simp: nth_list_update simp del: fill_heads.simps)
qed simp

text \<open>The n-gram order of a head: bigrams feed the first eight heads, trigrams the others.\<close>

definition head_order :: "nat \<Rightarrow> nat" where
  "head_order h = (if h < QWEN38_HEADS_PER_ORDER then 2 else 3)"

lemma rows_for_token_eq:
  assumes p: "wf_plan p" and eos: "window_eos w = plan_eos p"
  shows "rows_for_token p w token
    = Inr (map (\<lambda>h. ucast (head_row p (mixed_hash p w token (head_order h)) h)) [0..<16],
           push w token)"
proof -
  let ?zero = "replicate 16 (0 :: u32)"
  have heads: "take 8 (drop 0 [0..<16]) = [0..<8]" "take 8 (drop 8 [0..<16]) = [8..<16]"
    by (simp_all add: take_upt drop_upt)
  have sub: "set [0..<8] \<subseteq> {..<16::nat}" "set [8..<16] \<subseteq> {..<16::nat}"
    by auto
  let ?m = "mixed_hash p w token"
  obtain r2 where r2: "fill_heads p (?m 2) [0..<8] ?zero = Inr r2" "length r2 = 16"
    "\<forall>h < 16. r2 ! h = (if h \<in> set [0..<8] then ucast (head_row p (?m 2) h) else ?zero ! h)"
    using fill_heads_total [OF p sub(1), of ?zero "?m 2"] by (metis length_replicate)
  obtain r3 where r3: "fill_heads p (?m 3) [8..<16] r2 = Inr r3" "length r3 = 16"
    "\<forall>h < 16. r3 ! h = (if h \<in> set [8..<16] then ucast (head_row p (?m 3) h) else r2 ! h)"
    using fill_heads_total [OF p sub(2) r2(2), of "?m 3"] by metis
  have "fill_orders p w token [2..<Suc 3] ?zero = Inr r3"
    using r2(1,2) r3(1) heads
    by (simp add: upt_rec [of 2] upt_rec [of 3] qwen_constants Let_def)
  moreover have "r3 = map (\<lambda>h. ucast (head_row p (?m (head_order h)) h)) [0..<16]"
  proof (rule nth_equalityI)
    fix h assume "h < length r3"
    then have h: "h < 16" using r3(2) by simp
    then show "r3 ! h = map (\<lambda>h. ucast (head_row p (?m (head_order h)) h)) [0..<16] ! h"
      using h r2(3) r3(3)
      by (auto simp: head_order_def qwen_constants simp del: upt_rec_numeral)
  qed (use r3(2) in simp)
  ultimately show ?thesis
    using eos by (simp add: rows_for_token_def qwen_constants)
qed

lemma rows_in_tables:
  assumes p: "wf_plan p" and eos: "window_eos w = plan_eos p"
  obtains rows where "rows_for_token p w t = Inr (rows, push w t)" "length rows = 16" "distinct rows"
    "\<forall>h < 16. table_start p h \<le> unat (rows ! h) \<and> unat (rows ! h) < table_end p h"
proof -
  define row where "row h = head_row p (mixed_hash p w t (head_order h)) h" for h
  define rows where "rows = map (\<lambda>h. ucast (row h) :: u32) [0..<16]"
  have len: "length rows = 16" by (simp add: rows_def)
  have bounds: "table_start p h \<le> unat (rows ! h) \<and> unat (rows ! h) < table_end p h" if "h < 16" for h
  proof -
    have "unat (rows ! h) = unat (row h)"
      using head_row_bounds(4) [OF p that] that by (simp add: rows_def row_def unat_ucast_small)
    then show ?thesis
      using head_row_bounds(1,2) [OF p that] by (simp add: row_def)
  qed
  have "rows ! i \<noteq> rows ! j" if "i < j" "j < 16" for i j
    using bounds [of i] bounds [of j] table_end_mono [OF p that] that by auto
  then have "distinct rows"
    unfolding distinct_conv_nth len by (metis nat_neq_iff)
  moreover have "rows_for_token p w t = Inr (rows, push w t)"
    unfolding rows_def row_def by (rule rows_for_token_eq [OF p eos])
  ultimately show ?thesis using that len bounds by blast
qed

section \<open>The window as a token history\<close>

text \<open>
  The window holds two tokens. An end-of-sequence token clears it, so the left context of a
  history is its last two tokens after the last end-of-sequence token, latest first, padded
  with end-of-sequence tokens. \<open>wf_context\<close> is what every context satisfies: its length, and
  that nothing stands beyond the padding.
\<close>

definition context_of :: "u32 \<Rightarrow> u32 list \<Rightarrow> u32 list" where
  "context_of eos history =
     take 2 (takeWhile (\<lambda>t. t \<noteq> eos) (rev history) @ [eos, eos])"

definition wf_context :: "u32 \<Rightarrow> u32 list \<Rightarrow> bool" where
  "wf_context eos ctx \<longleftrightarrow> length ctx = 2 \<and> (ctx ! 0 = eos \<longrightarrow> ctx ! 1 = eos)"

definition wf_window :: "token_window \<Rightarrow> bool" where
  "wf_window w \<longleftrightarrow> wf_context (window_eos w) (previous w) \<and>
     (\<forall>saved. rollback w = Some saved \<longrightarrow> wf_context (window_eos w) saved)"

lemma takeWhile_neq_hd: "takeWhile (\<lambda>t. t \<noteq> eos) xs \<noteq> [] \<Longrightarrow> hd (takeWhile (\<lambda>t. t \<noteq> eos) xs) \<noteq> eos"
  by (cases xs) auto

lemma context_of_Nil: "context_of eos [] = [eos, eos]"
  by (simp add: context_of_def)

lemma context_of_cases:
  obtains "context_of eos history = [eos, eos]"
  | t where "t \<noteq> eos" "context_of eos history = [t, eos]"
  | t s where "t \<noteq> eos" "s \<noteq> eos" "context_of eos history = [t, s]"
proof -
  let ?ts = "takeWhile (\<lambda>t. t \<noteq> eos) (rev history)"
  have "\<forall>t \<in> set ?ts. t \<noteq> eos" by (auto dest: set_takeWhileD)
  then show thesis
    using that unfolding context_of_def
    by (cases ?ts; cases "tl ?ts") (auto simp del: takeWhile_eq_Nil_iff)
qed

lemma wf_context_of: "wf_context eos (context_of eos history)"
  by (rule context_of_cases [of eos history]) (simp_all add: wf_context_def)

lemma context_of_snoc:
  "context_of eos (history @ [t]) =
     (if t = eos then [eos, eos] else [t, context_of eos history ! 0])"
  by (cases "takeWhile (\<lambda>t. t \<noteq> eos) (rev history)") (simp_all add: context_of_def)

lemma length2_eq: "length xs = 2 \<Longrightarrow> xs = [xs ! 0, xs ! 1]"
  by (cases xs; cases "tl xs") auto

lemma push_fields [simp]:
  "rollback (push w t) = rollback w"
  "window_eos (push w t) = window_eos w"
  by (simp_all add: push_def)

lemma push_previous:
  "length (previous w) = 2 \<Longrightarrow>
     previous (push w t) = (if t = window_eos w then [t, t] else [t, previous w ! 0])"
  by (subst push_def, subst (1 2) length2_eq) (simp_all add: list_update_code)

lemma push_context:
  "previous w = context_of (window_eos w) history \<Longrightarrow>
     previous (push w t) = context_of (window_eos w) (history @ [t])"
  using wf_context_of [of "window_eos w" history]
  by (simp add: push_previous context_of_snoc wf_context_def)

lemma foldl_push_fields [simp]:
  "rollback (foldl push w ts) = rollback w"
  "window_eos (foldl push w ts) = window_eos w"
  by (induction ts arbitrary: w) simp_all

lemma foldl_push_context:
  "previous w = context_of (window_eos w) history \<Longrightarrow>
     previous (foldl push w ts) = context_of (window_eos w) (history @ ts)"
proof (induction ts arbitrary: w history)
  case (Cons t ts)
  from push_context [OF Cons.prems, of t] show ?case
    using Cons.IH [of "push w t" "history @ [t]"] by simp
qed simp

lemma wf_window_push: "wf_window w \<Longrightarrow> wf_window (push w t)"
  by (auto simp: wf_window_def wf_context_def push_previous)

lemma wf_window_foldl_push: "wf_window w \<Longrightarrow> wf_window (foldl push w ts)"
  by (induction ts arbitrary: w) (simp_all add: wf_window_push)

section \<open>The state machine of a window\<close>

text \<open>
  One step per public operation that changes the window. \<open>Append\<close> is \<open>rows_for_token\<close> of a
  plan; a step is taken when the operation succeeds.
\<close>

datatype window_op =
    Append ple_hash_plan u32
  | BeginAppend
  | CommitAppend
  | CommitPrefix "u32 list"
  | AbortAppend

fun apply_op :: "token_window \<Rightarrow> window_op \<Rightarrow> ple_hash_error fault + token_window" where
  "apply_op w (Append plan token) = bindE (rows_for_token plan w token) (\<lambda>(rows, w'). Inr w')"
| "apply_op w BeginAppend = map_err Err (begin_append w)"
| "apply_op w CommitAppend = map_err Err (commit_append w)"
| "apply_op w (CommitPrefix tokens) = map_err Err (commit_append_prefix w tokens)"
| "apply_op w AbortAppend = map_err Err (abort_append w)"

inductive window_step :: "token_window \<Rightarrow> window_op \<Rightarrow> token_window \<Rightarrow> bool" where
  step: "apply_op w op = Inr w' \<Longrightarrow> window_step w op w'"

inductive_cases append_stepE: "window_step w (Append plan token) w'"
inductive_cases begin_stepE: "window_step w BeginAppend w'"
inductive_cases commit_stepE: "window_step w CommitAppend w'"
inductive_cases prefix_stepE: "window_step w (CommitPrefix tokens) w'"
inductive_cases abort_stepE: "window_step w AbortAppend w'"

inductive_simps window_step_iff: "window_step w op w'"

inductive window_reachable :: "u32 \<Rightarrow> window_op list \<Rightarrow> token_window \<Rightarrow> bool" for eos where
  start: "token_window_new ngram_size eos = Inr w \<Longrightarrow> window_reachable eos [] w"
| step: "window_reachable eos ops w \<Longrightarrow> window_step w op w' \<Longrightarrow>
     window_reachable eos (ops @ [op]) w'"

lemma append_step_push: "window_step w (Append plan token) w' \<Longrightarrow> w' = push w token"
  by (erule append_stepE)
     (auto simp: rows_for_token_def result_simps split: prod.splits if_splits)

lemma begin_step_iff:
  "window_step w BeginAppend w' \<longleftrightarrow> rollback w = None \<and> w' = w\<lparr>rollback := Some (previous w)\<rparr>"
  by (auto simp: window_step_iff begin_append_def result_simps)

lemma commit_step_iff:
  "window_step w CommitAppend w' \<longleftrightarrow> rollback w \<noteq> None \<and> w' = w\<lparr>rollback := None\<rparr>"
  by (auto simp: window_step_iff commit_append_def result_simps)

lemma prefix_step_iff:
  "window_step w (CommitPrefix tokens) w' \<longleftrightarrow>
     (\<exists>saved. rollback w = Some saved \<and>
        w' = foldl push (w\<lparr>rollback := None, previous := saved\<rparr>) tokens)"
  by (auto simp: window_step_iff commit_append_prefix_def result_simps)

lemma abort_step_iff:
  "window_step w AbortAppend w' \<longleftrightarrow>
     (\<exists>saved. rollback w = Some saved \<and> w' = w\<lparr>rollback := None, previous := saved\<rparr>)"
  by (auto simp: window_step_iff abort_append_def result_simps)

lemmas window_step_iffs = begin_step_iff commit_step_iff prefix_step_iff abort_step_iff

section \<open>The abstract machine: a history with a staged suffix\<close>

record token_history =
  committed :: "u32 list"
  staged :: "u32 list option"

fun spec_step :: "token_history \<Rightarrow> window_op \<Rightarrow> token_history option" where
  "spec_step h (Append plan token) =
     (case staged h of
        None \<Rightarrow> Some (h\<lparr>committed := committed h @ [token]\<rparr>)
      | Some ts \<Rightarrow> Some (h\<lparr>staged := Some (ts @ [token])\<rparr>))"
| "spec_step h BeginAppend =
     (case staged h of None \<Rightarrow> Some (h\<lparr>staged := Some []\<rparr>) | Some ts \<Rightarrow> None)"
| "spec_step h CommitAppend =
     (case staged h of
        None \<Rightarrow> None
      | Some ts \<Rightarrow> Some \<lparr>committed = committed h @ ts, staged = None\<rparr>)"
| "spec_step h (CommitPrefix tokens) =
     (case staged h of
        None \<Rightarrow> None
      | Some ts \<Rightarrow> Some \<lparr>committed = committed h @ tokens, staged = None\<rparr>)"
| "spec_step h AbortAppend =
     (case staged h of None \<Rightarrow> None | Some ts \<Rightarrow> Some (h\<lparr>staged := None\<rparr>))"

fun spec_run :: "token_history \<Rightarrow> window_op list \<Rightarrow> token_history option" where
  "spec_run h [] = Some h"
| "spec_run h (op # ops) = Option.bind (spec_step h op) (\<lambda>h'. spec_run h' ops)"

definition empty_history :: token_history where
  "empty_history = \<lparr>committed = [], staged = None\<rparr>"

definition visible :: "token_history \<Rightarrow> u32 list" where
  "visible h = committed h @ (case staged h of None \<Rightarrow> [] | Some ts \<Rightarrow> ts)"

definition window_refines :: "u32 \<Rightarrow> token_history \<Rightarrow> token_window \<Rightarrow> bool" where
  "window_refines eos h w \<longleftrightarrow>
     window_eos w = eos \<and> previous w = context_of eos (visible h) \<and>
     rollback w = map_option (\<lambda>_. context_of eos (committed h)) (staged h)"

lemma spec_run_append:
  "spec_run h (ops @ ops') = Option.bind (spec_run h ops) (\<lambda>h'. spec_run h' ops')"
  by (induction ops arbitrary: h) (simp_all add: bind_eq_None_conv split: bind_splits)

lemma window_refines_wf: "window_refines eos h w \<Longrightarrow> wf_window w"
  by (auto simp: window_refines_def wf_window_def wf_context_of)

lemma window_refines_start:
  "token_window_new ngram_size eos = Inr w \<Longrightarrow> window_refines eos empty_history w"
  by (auto simp: token_window_new_def qwen_constants window_refines_def empty_history_def
      visible_def context_of_def numeral_2_eq_2 split: if_splits)

lemma window_refines_step:
  assumes "window_step w op w'" and "window_refines eos h w"
  shows "\<exists>h'. spec_step h op = Some h' \<and> window_refines eos h' w'"
proof (cases op)
  case (Append plan token)
  then have "w' = push w token" using assms(1) append_step_push by simp
  moreover have "previous (push w token) = context_of eos (visible h @ [token])"
    using assms(2) push_context [of w "visible h"] by (auto simp: window_refines_def)
  ultimately show ?thesis
    using assms(2) Append by (cases "staged h") (auto simp: window_refines_def visible_def)
next
  case (CommitPrefix tokens)
  then obtain saved where saved: "rollback w = Some saved"
    "w' = foldl push (w\<lparr>rollback := None, previous := saved\<rparr>) tokens"
    using assms(1) by (auto simp: prefix_step_iff)
  moreover have "saved = context_of eos (committed h)"
    using saved(1) assms(2) by (cases "staged h") (auto simp: window_refines_def)
  ultimately have "previous w' = context_of eos (committed h @ tokens)"
    using assms(2) foldl_push_context [of "w\<lparr>rollback := None, previous := saved\<rparr>" "committed h" tokens]
    by (simp add: window_refines_def)
  then show ?thesis
    using saved assms(2) CommitPrefix
    by (cases "staged h") (auto simp: window_refines_def visible_def)
next
  case BeginAppend
  then show ?thesis
    using assms by (auto simp: window_step_iffs window_refines_def visible_def)
next
  case CommitAppend
  then show ?thesis
    using assms by (auto simp: window_step_iffs window_refines_def visible_def)
next
  case AbortAppend
  then show ?thesis
    using assms by (auto simp: window_step_iffs window_refines_def visible_def)
qed

lemma append_enabled:
  assumes "wf_plan plan" and "window_eos w = plan_eos plan"
  shows "window_step w (Append plan token) (push w token)"
  by (simp add: window_step_iff rows_for_token_eq [OF assms])

lemma spec_step_enabled:
  assumes "spec_step h op = Some h'" and "window_refines eos h w"
    and "\<And>plan token. op = Append plan token \<Longrightarrow> wf_plan plan \<and> plan_eos plan = eos"
  shows "\<exists>w'. window_step w op w'"
proof (cases op)
  case (Append plan token)
  then have "window_eos w = plan_eos plan" "wf_plan plan"
    using assms(2,3) by (auto simp: window_refines_def)
  then show ?thesis using append_enabled Append by blast
qed (use assms in \<open>auto simp: window_step_iffs window_refines_def split: option.splits\<close>)

lemma reachable_refines:
  "window_reachable eos ops w \<Longrightarrow>
     \<exists>h. spec_run empty_history ops = Some h \<and> window_refines eos h w"
proof (induction rule: window_reachable.induct)
  case (start ngram_size w)
  then show ?case using window_refines_start by simp
next
  case (step ops w op w')
  then show ?case
    using window_refines_step by (fastforce simp: spec_run_append)
qed

text \<open>A sequence of operations, stopped by the first failure.\<close>

fun run_ops :: "token_window \<Rightarrow> window_op list \<Rightarrow> ple_hash_error fault + token_window" where
  "run_ops w [] = Inr w"
| "run_ops w (op # ops) = bindE (apply_op w op) (\<lambda>w'. run_ops w' ops)"

lemma run_ops_append: "run_ops w (ops @ ops') = bindE (run_ops w ops) (\<lambda>w'. run_ops w' ops')"
  by (induction ops arbitrary: w) (simp_all add: bindE_assoc)

lemma run_appends:
  "wf_plan plan \<Longrightarrow> window_eos w = plan_eos plan \<Longrightarrow>
     run_ops w (map (Append plan) tokens) = Inr (foldl push w tokens)"
  by (induction tokens arbitrary: w) (simp_all add: rows_for_token_eq)

lemma foldl_push_set_rollback:
  "(foldl push (w\<lparr>rollback := r\<rparr>) ts)\<lparr>rollback := None\<rparr>
     = foldl push (w\<lparr>rollback := None\<rparr>) ts"
proof (induction ts arbitrary: w)
  case (Cons t ts)
  have "push (w\<lparr>rollback := r\<rparr>) t = (push w t)\<lparr>rollback := r\<rparr>"
    and "push (w\<lparr>rollback := None\<rparr>) t = (push w t)\<lparr>rollback := None\<rparr>"
    by (simp_all add: push_def)
  then show ?case using Cons.IH [of "push w t"] by simp
qed simp

section \<open>Properties\<close>

text \<open>The plan of the unit tests, for the witnesses.\<close>

definition test_plan :: ple_hash_plan where
  "test_plan =
     \<lparr>multipliers = [3, 5, 7],
      vocab_sizes = [97, 98, 99, 100, 101, 102, 103, 104, 105, 106, 107, 108, 109, 110, 111, 112],
      offsets = [0, 97, 195, 294, 394, 495, 597, 700, 804, 909, 1015, 1122, 1230, 1339, 1449, 1560],
      plan_eos = 248044\<rparr>"

definition test_window :: token_window where
  "test_window = \<lparr>previous = [248044, 248044], rollback = None, window_eos = 248044\<rparr>"

lemma wf_test_plan: "wf_plan test_plan"
  unfolding test_plan_def wf_plan_iff_checks [OF refl]
  by (simp add: upt_from_one checked_add_def)

lemma test_plan_new:
  "ple_hash_plan_new (multipliers test_plan) (vocab_sizes test_plan) (offsets test_plan) 8 3 248044
     = Inr test_plan"
  using wf_test_plan by (simp add: ple_hash_plan_new_ok_iff test_plan_def)

lemma test_window_new: "token_window_new 3 248044 = Inr test_window"
  by code_simp

text \<open>
  \<open>PleHashPlan::new\<close> accepts exactly the released shape: an n-gram size of 3, eight heads
  per order, three non-zero multipliers, and sixteen non-empty tables that are adjacent, do not
  overflow and end at or below row \<open>2^32\<close>; the plan it returns holds its arguments.
\<close>

theorem plan_new_accepts_exactly:
  "ple_hash_plan_new mults sizes offs heads_per_ngram ngram_size eos = Inr p \<longleftrightarrow>
     heads_per_ngram = 8 \<and> ngram_size = 3 \<and> wf_plan p \<and>
     p = \<lparr>multipliers = mults, vocab_sizes = sizes, offsets = offs, plan_eos = eos\<rparr>"
  by (auto simp: ple_hash_plan_new_ok_iff)

text \<open>
  C8. On a plan that was accepted, hashing a token never fails and never panics, and the two
  nested loops compute the reference formula: row \<open>h\<close> is the offset of head \<open>h\<close> plus, modulo
  the size of its table, the xor of the wrapping products of the current token and one (heads
  0 to 7) or two (heads 8 to 15) previous tokens with the multipliers. The token is then
  appended to the window.
\<close>

theorem rows_for_token_reference:
  assumes "ple_hash_plan_new mults sizes offs heads_per_ngram ngram_size eos = Inr p"
    and "window_eos w = eos" and "previous w = [t1, t2]"
  shows "rows_for_token p w t =
    (let bigram = (ucast t * mults ! 0) XOR (ucast t1 * mults ! 1);
         trigram = bigram XOR (ucast t2 * mults ! 2)
     in Inr (map (\<lambda>h. ucast (offs ! h + (if h < 8 then bigram else trigram) mod sizes ! h)) [0..<16],
             push w t))"
proof -
  have p: "wf_plan p" and eq: "window_eos w = plan_eos p" "multipliers p = mults"
    "vocab_sizes p = sizes" "offsets p = offs"
    using assms(1,2) by (auto simp: ple_hash_plan_new_ok_iff)
  have "mixed_hash p w t 2 = (ucast t * mults ! 0) XOR (ucast t1 * mults ! 1)"
    and "mixed_hash p w t 3
      = ((ucast t * mults ! 0) XOR (ucast t1 * mults ! 1)) XOR (ucast t2 * mults ! 2)"
    using assms(3) eq by (simp_all add: mixed_hash_def upt_from_one)
  then show ?thesis
    unfolding rows_for_token_eq [OF p eq(1)]
    by (simp add: Let_def head_row_def head_order_def qwen_constants eq)
qed

theorem rows_for_token_reference_witness:
  "rows_for_token test_plan test_window 42 =
    (let bigram = (ucast (42 :: u32) * 3) XOR (ucast (248044 :: u32) * 5);
         trigram = bigram XOR (ucast (248044 :: u32) * 7)
     in Inr (map (\<lambda>h. ucast (offsets test_plan ! h
                  + (if h < 8 then bigram else trigram) mod vocab_sizes test_plan ! h)) [0..<16],
             push test_window 42))"
  using rows_for_token_reference [OF test_plan_new, of test_window 248044 248044 42]
  by (simp add: test_window_def test_plan_def)

text \<open>
  C31. The sixteen rows of a token are distinct, and each lies inside the table of its head,
  whatever the token and the window.
\<close>

theorem rows_inside_head_tables:
  assumes "ple_hash_plan_new mults sizes offs heads_per_ngram ngram_size eos = Inr p"
    and "window_eos w = eos"
  shows "\<exists>rows. rows_for_token p w t = Inr (rows, push w t) \<and> length rows = 16 \<and> distinct rows \<and>
    (\<forall>h < 16. unat (offs ! h) \<le> unat (rows ! h) \<and>
              unat (rows ! h) < unat (offs ! h) + unat (sizes ! h))"
proof -
  have p: "wf_plan p" and eos: "window_eos w = plan_eos p"
    and eq: "vocab_sizes p = sizes" "offsets p = offs"
    using assms by (auto simp: ple_hash_plan_new_ok_iff)
  show ?thesis
    by (rule rows_in_tables [OF p eos, of t]) (auto simp: table_start_def table_end_def eq)
qed

theorem rows_inside_head_tables_witness:
  "\<exists>rows. rows_for_token test_plan test_window 42 = Inr (rows, push test_window 42) \<and>
     length rows = 16 \<and> distinct rows"
  using rows_inside_head_tables [OF test_plan_new, of test_window 42]
  by (auto simp: test_window_def)

text \<open>
  C9. A window reached by any sequence of successful operations refines a token history: its
  two tokens are the last two of the history since the last end-of-sequence token, where the
  history is what was committed plus what the open transaction staged, and its rollback
  snapshot, when a transaction is open, is the context of the committed part alone.
\<close>

theorem window_refines_token_history:
  assumes "window_reachable eos ops w"
  shows "\<exists>h. spec_run empty_history ops = Some h \<and>
    previous w = context_of eos (visible h) \<and>
    rollback w = map_option (\<lambda>_. context_of eos (committed h)) (staged h) \<and> wf_window w"
  using reachable_refines [OF assms] window_refines_wf unfolding window_refines_def by metis

text \<open>
  The transaction guards fail exactly when they must: in a reachable window an operation
  succeeds if and only if the abstract history allows it (a transaction begins only when none
  is open, and ends only when one is); appending with an accepted plan of the same
  end-of-sequence token is always possible.
\<close>

theorem operation_enabled_iff:
  assumes "window_reachable eos ops w"
    and "\<And>plan token. op = Append plan token \<Longrightarrow> wf_plan plan \<and> plan_eos plan = eos"
  shows "(\<exists>w'. window_step w op w') \<longleftrightarrow>
    (\<exists>h h'. spec_run empty_history ops = Some h \<and> spec_step h op = Some h')"
proof -
  obtain h where h: "spec_run empty_history ops = Some h" "window_refines eos h w"
    using reachable_refines [OF assms(1)] by blast
  show ?thesis
    using window_refines_step [OF _ h(2)] spec_step_enabled [OF _ h(2) assms(2)] h(1) by fastforce
qed

text \<open>
  C10. Speculative verification leaves no trace of rejected drafts: beginning a transaction,
  hashing any draft tokens and committing an accepted list is the same as hashing the accepted
  list alone. The accepted list may be any list: the code does not compare it with the drafts.
\<close>

theorem speculation_replays_accepted:
  assumes "ple_hash_plan_new mults sizes offs heads_per_ngram ngram_size eos = Inr plan"
    and "window_eos w = eos" and "rollback w = None"
  shows "run_ops w ([BeginAppend] @ map (Append plan) drafts @ [CommitPrefix accepted])
    = run_ops w (map (Append plan) accepted)"
proof -
  have p: "wf_plan plan" and eos: "window_eos w = plan_eos plan"
    using assms(1,2) by (auto simp: ple_hash_plan_new_ok_iff)
  let ?open = "w\<lparr>rollback := Some (previous w)\<rparr>"
  have "run_ops ?open (map (Append plan) drafts) = Inr (foldl push ?open drafts)"
    using run_appends [OF p, of ?open] eos by simp
  moreover have restored: "(foldl push ?open drafts)\<lparr>rollback := None, previous := previous w\<rparr> = w"
    by (rule token_window.equality) (simp_all add: assms(3))
  have "apply_op (foldl push ?open drafts) (CommitPrefix accepted) = Inr (foldl push w accepted)"
    by (simp add: commit_append_prefix_def restored)
  ultimately show ?thesis
    using assms(3) by (simp add: run_ops_append begin_append_def run_appends [OF p eos])
qed

theorem speculation_replays_accepted_witness:
  "run_ops test_window ([BeginAppend] @ map (Append test_plan) [21, 22, 23] @ [CommitPrefix [21, 22]])
     = run_ops test_window (map (Append test_plan) [21, 22])"
  using speculation_replays_accepted [OF test_plan_new, of test_window "[21, 22, 23]" "[21, 22]"]
  by (simp add: test_window_def del: run_ops.simps)

text \<open>
  Aborting a transaction restores the window exactly, and committing it whole is the same
  as hashing its tokens without a transaction.
\<close>

theorem speculation_abort_and_commit:
  assumes "ple_hash_plan_new mults sizes offs heads_per_ngram ngram_size eos = Inr plan"
    and "window_eos w = eos" and "rollback w = None"
  shows "run_ops w ([BeginAppend] @ map (Append plan) drafts @ [AbortAppend]) = Inr w \<and>
    run_ops w ([BeginAppend] @ map (Append plan) drafts @ [CommitAppend])
      = run_ops w (map (Append plan) drafts)"
proof -
  have p: "wf_plan plan" and eos: "window_eos w = plan_eos plan"
    using assms(1,2) by (auto simp: ple_hash_plan_new_ok_iff)
  let ?open = "w\<lparr>rollback := Some (previous w)\<rparr>"
  have run: "run_ops ?open (map (Append plan) drafts) = Inr (foldl push ?open drafts)"
    using run_appends [OF p, of ?open] eos by simp
  have restored: "(foldl push ?open drafts)\<lparr>rollback := None, previous := previous w\<rparr> = w"
    by (rule token_window.equality) (simp_all add: assms(3))
  have "apply_op (foldl push ?open drafts) AbortAppend = Inr w"
    by (simp add: abort_append_def restored)
  moreover have "w\<lparr>rollback := None\<rparr> = w"
    by (rule token_window.equality) (simp_all add: assms(3))
  then have "apply_op (foldl push ?open drafts) CommitAppend = Inr (foldl push w drafts)"
    by (simp add: commit_append_def foldl_push_set_rollback)
  ultimately show ?thesis
    using run assms(3) by (simp add: run_ops_append begin_append_def run_appends [OF p eos])
qed

theorem speculation_abort_and_commit_witness:
  "run_ops test_window ([BeginAppend] @ map (Append test_plan) [20, 30] @ [AbortAppend])
     = Inr test_window"
  using speculation_abort_and_commit [OF test_plan_new, of test_window "[20, 30]"]
  by (simp add: test_window_def del: run_ops.simps)

text \<open>
  Reachability witness: a transaction is open after \<open>begin_append\<close>.
\<close>

lemma reachable_begin:
  "window_reachable 248044 [BeginAppend] (test_window\<lparr>rollback := Some [248044, 248044]\<rparr>)"
  using window_reachable.step [OF window_reachable.start [OF test_window_new]]
  by (force simp: begin_step_iff test_window_def)

theorem window_refines_token_history_witness:
  "\<exists>h. spec_run empty_history [BeginAppend] = Some h \<and>
     [248044, 248044] = context_of 248044 (visible h) \<and> staged h \<noteq> None"
  using window_refines_token_history [OF reachable_begin]
  by (auto simp: test_window_def empty_history_def)

theorem operation_enabled_iff_witness:
  "(\<exists>w'. window_step (test_window\<lparr>rollback := Some [248044, 248044]\<rparr>) CommitAppend w') \<longleftrightarrow>
     (\<exists>h h'. spec_run empty_history [BeginAppend] = Some h \<and> spec_step h CommitAppend = Some h')"
  using operation_enabled_iff [OF reachable_begin, of CommitAppend] by simp

section \<open>Sessions\<close>

text \<open>
  What a caller is told, over the token history alone: hashing needs a plan with the window's
  end-of-sequence token, and an operation the history has no step for is refused, the beginning of
  a transaction because one is open, its end because none is.
\<close>

fun same_eos :: "u32 \<Rightarrow> window_op \<Rightarrow> bool" where
  "same_eos eos (Append plan token) \<longleftrightarrow> plan_eos plan = eos"
| "same_eos eos _ \<longleftrightarrow> True"

fun objection :: "window_op \<Rightarrow> string" where
  "objection BeginAppend = ''an append transaction is already active''"
| "objection _ = ''no append transaction is active''"

definition spec_call :: "u32 \<Rightarrow> token_history \<Rightarrow> window_op \<Rightarrow> ple_hash_error + token_history" where
  "spec_call eos h op =
     (if \<not> same_eos eos op then Inl IncompatibleWindow
      else ok_or (spec_step h op) (Transaction (objection op)))"

fun session :: "u32 \<Rightarrow> token_history \<Rightarrow> window_op list \<Rightarrow> ple_hash_error + token_history" where
  "session eos h [] = Inr h"
| "session eos h (op # ops) = bindE (spec_call eos h op) (\<lambda>h'. session eos h' ops)"

lemma refused_call:
  assumes "spec_call eos h op = Inl e" and "window_refines eos h w"
  shows "apply_op w op = Inl (Err e)"
  using assms
  by (cases op) (auto simp: spec_call_def window_refines_def rows_for_token_def begin_append_def
      commit_append_def commit_append_prefix_def abort_append_def split: if_splits option.splits)

lemma allowed_call:
  assumes "spec_call eos h op = Inr h'" and "window_refines eos h w"
    and "\<And>plan token. op = Append plan token \<Longrightarrow> wf_plan plan"
  obtains w' where "apply_op w op = Inr w'" "window_refines eos h' w'"
proof -
  have step: "spec_step h op = Some h'" and "same_eos eos op"
    using assms(1) by (auto simp: spec_call_def result_simps split: if_splits)
  then have "wf_plan plan \<and> plan_eos plan = eos" if "op = Append plan token" for plan token
    using assms(3) that by auto
  then obtain w' where "window_step w op w'" using spec_step_enabled [OF step assms(2)] by blast
  then show ?thesis
    using window_refines_step [OF _ assms(2)] step that by (fastforce simp: window_step_iff)
qed

lemma session_refines:
  assumes "window_refines eos h w" and "\<forall>plan token. Append plan token \<in> set ops \<longrightarrow> wf_plan plan"
  shows "case session eos h ops of
     Inl e \<Rightarrow> run_ops w ops = Inl (Err e)
   | Inr h' \<Rightarrow> \<exists>w'. run_ops w ops = Inr w' \<and> window_refines eos h' w'"
  using assms
proof (induction ops arbitrary: h w)
  case (Cons op ops)
  show ?case
  proof (cases "spec_call eos h op")
    case (Inl e)
    then show ?thesis using refused_call [OF Inl Cons.prems(1)] by simp
  next
    case (Inr h')
    obtain w' where "apply_op w op = Inr w'" "window_refines eos h' w'"
      by (rule allowed_call [OF Inr Cons.prems(1)]) (use Cons.prems(2) in auto)
    moreover have "\<forall>plan token. Append plan token \<in> set ops \<longrightarrow> wf_plan plan"
      using Cons.prems(2) by simp
    ultimately show ?thesis using Cons.IH [of h' w'] Inr by (simp split: sum.splits)
  qed
qed simp

text \<open>
  C40. A whole session with a new window behaves as the token history says, errors included: with
  accepted plans, any sequence of operations (begin, hash, commit, prefix commit, abort) stops at
  the first one that the history refuses, with exactly its error and never with a panic, and
  otherwise ends in the two-token view of the history it leaves. The window can then be cloned for
  the prefix cache exactly when no transaction is open.
\<close>

theorem sessions_follow_the_history:
  assumes "token_window_new ngram_size eos = Inr w"
    and "\<forall>plan token. Append plan token \<in> set ops \<longrightarrow>
      (\<exists>mults sizes offs heads n e. ple_hash_plan_new mults sizes offs heads n e = Inr plan)"
  shows "case session eos empty_history ops of
      Inl e \<Rightarrow> run_ops w ops = Inl (Err e)
    | Inr h \<Rightarrow> \<exists>w'. run_ops w ops = Inr w' \<and> previous w' = context_of eos (visible h) \<and>
        snapshot w' = (if staged h = None then Inr w'
          else Inl (Transaction ''cannot snapshot an active append transaction''))"
proof -
  have "\<forall>plan token. Append plan token \<in> set ops \<longrightarrow> wf_plan plan"
    using assms(2) by (fastforce simp: ple_hash_plan_new_ok_iff)
  note refined = session_refines [OF window_refines_start [OF assms(1)] this]
  show ?thesis
  proof (cases "session eos empty_history ops")
    case (Inr h)
    then obtain w' where "run_ops w ops = Inr w'" "window_refines eos h w'" using refined by auto
    then show ?thesis using Inr by (auto simp: window_refines_def snapshot_def)
  qed (use refined in simp)
qed

theorem sessions_follow_the_history_witness:
  "run_ops test_window
     [Append test_plan 7, BeginAppend, Append test_plan 8, CommitPrefix [9], BeginAppend, BeginAppend]
     = Inl (Err (Transaction ''an append transaction is already active''))"
proof -
  let ?ops = "[Append test_plan 7, BeginAppend, Append test_plan 8, CommitPrefix [9], BeginAppend,
    BeginAppend]"
  have "\<exists>mults sizes offs heads n e. ple_hash_plan_new mults sizes offs heads n e = Inr test_plan"
    using test_plan_new by blast
  then have "\<forall>plan token. Append plan token \<in> set ?ops \<longrightarrow>
      (\<exists>mults sizes offs heads n e. ple_hash_plan_new mults sizes offs heads n e = Inr plan)"
    by simp
  from sessions_follow_the_history [OF test_window_new this]
  show ?thesis
    by (simp add: spec_call_def empty_history_def del: run_ops.simps) (simp add: test_plan_def)
qed

end
