(* ===== verification/PleFormat.thy ===== *)
theory PleFormat
  imports Bytes
begin

text \<open>
  The exact PLEPack metadata and its binary form (\<open>crates/gb10x-ple/src/format.rs\<close> and
  \<open>crates/gb10x-ple/src/disk.rs\<close>): the two error types, \<open>PlePackHeader\<close> with its validating
  constructor, the 128-byte \<open>DiskHeader\<close> and the 12-byte index entries. \<open>wf_header\<close> and
  \<open>wf_disk_header\<close> say what the constructors promise. Decoding is characterised exactly: a
  buffer decodes to a header if and only if it starts with that header's encoding.
\<close>

section \<open>Errors\<close>

datatype ple_pack_error =
    InvalidGeometry string
  | TraceRowOutOfRange u32 u64
  | LogicalRowOutOfRange u32 u64
  | Overflow string

text \<open>The widths of \<open>RowBufferWidth\<close> are slice lengths.\<close>

datatype ple_pack_io_error =
    Layout ple_pack_error
  | Io string
  | Format string
  | Source string
  | RowBufferWidth nat nat
  | SourceDigestMismatch
  | IndexDigestMismatch
  | OverlayDataMismatch u32

section \<open>The logical header\<close>

definition PLEPACK_MAGIC :: bytes where
  "PLEPACK_MAGIC = [71, 66, 49, 48, 88, 80, 76, 69]"

definition PLEPACK_VERSION :: u32 where
  "PLEPACK_VERSION = 1"

record ple_pack_header =
  hd_magic :: bytes
  hd_version :: u32
  hd_source_digest :: bytes
  hd_row_count :: u64
  hd_row_bytes :: u32
  hd_block_bytes :: u32
  hd_index_digest :: bytes

definition ple_pack_header_new ::
    "bytes \<Rightarrow> u64 \<Rightarrow> u32 \<Rightarrow> u32 \<Rightarrow> bytes \<Rightarrow> ple_pack_error + ple_pack_header" where
  "ple_pack_header_new source_digest row_count row_bytes block_bytes index_digest =
     (if row_count = 0 then Inl (InvalidGeometry ''row_count must be nonzero'')
      else if row_bytes = 0 then Inl (InvalidGeometry ''row_bytes must be nonzero'')
      else if block_bytes = 0 then Inl (InvalidGeometry ''block_bytes must be nonzero'')
      else if block_bytes < row_bytes
      then Inl (InvalidGeometry ''block_bytes must fit at least one complete row'')
      else if row_count > 4294967296
      then Inl (InvalidGeometry ''logical row space must fit u32 row identifiers'')
      else Inr \<lparr>hd_magic = PLEPACK_MAGIC, hd_version = PLEPACK_VERSION,
                hd_source_digest = source_digest, hd_row_count = row_count,
                hd_row_bytes = row_bytes, hd_block_bytes = block_bytes,
                hd_index_digest = index_digest\<rparr>)"

text \<open>Digests are arrays of 32 bytes in the code; here that is part of well-formedness.\<close>

definition wf_header :: "ple_pack_header \<Rightarrow> bool" where
  "wf_header h \<longleftrightarrow>
     hd_magic h = PLEPACK_MAGIC \<and> hd_version h = PLEPACK_VERSION \<and>
     length (hd_source_digest h) = 32 \<and> length (hd_index_digest h) = 32 \<and>
     hd_row_count h \<noteq> 0 \<and> hd_row_count h \<le> 4294967296 \<and>
     hd_row_bytes h \<noteq> 0 \<and> hd_row_bytes h \<le> hd_block_bytes h"

lemma ple_pack_header_new_ok_iff:
  assumes "length sd = 32" and "length xd = 32"
  shows "ple_pack_header_new sd rc rb bb xd = Inr h \<longleftrightarrow>
    wf_header h \<and> hd_source_digest h = sd \<and> hd_row_count h = rc \<and> hd_row_bytes h = rb \<and>
    hd_block_bytes h = bb \<and> hd_index_digest h = xd"
proof -
  have "rb \<le> bb \<Longrightarrow> rb \<noteq> 0 \<Longrightarrow> bb \<noteq> 0" by auto
  then show ?thesis
    using assms
    by (cases h) (auto simp: ple_pack_header_new_def wf_header_def)
qed

section \<open>The disk header\<close>

definition DISK_HEADER_BYTES :: u64 where
  "DISK_HEADER_BYTES = 128"

definition INDEX_ENTRY_BYTES :: u64 where
  "INDEX_ENTRY_BYTES = 12"

definition EXACT_OVERLAY_FLAGS :: u32 where
  "EXACT_OVERLAY_FLAGS = 1"

record disk_header =
  logical :: ple_pack_header
  hot_row_count :: u64
  index_bytes :: u64
  data_offset :: u64
  overlay_bytes :: u64

definition disk_header_new ::
    "ple_pack_header \<Rightarrow> u64 \<Rightarrow> u64 \<Rightarrow> u64 \<Rightarrow> u64 \<Rightarrow> ple_pack_io_error + disk_header" where
  "disk_header_new lg hot ib doff ob =
     bindE (ok_or (checked_mul hot INDEX_ENTRY_BYTES) (Format ''hot index byte count overflow''))
       (\<lambda>expected_index_bytes.
     if ib \<noteq> expected_index_bytes
     then Inl (Format ''hot index byte count does not match hot row count'')
     else
     bindE (ok_or (checked_add DISK_HEADER_BYTES ib) (Format ''index end overflow''))
       (\<lambda>minimum_data_offset.
     if doff < minimum_data_offset then Inl (Format ''overlay data overlaps index'')
     else if \<not> is_multiple_of doff (ucast (hd_block_bytes lg))
     then Inl (Format ''overlay data offset is not block aligned'')
     else if \<not> is_multiple_of ob (ucast (hd_block_bytes lg))
     then Inl (Format ''overlay byte length is not block aligned'')
     else Inr \<lparr>logical = lg, hot_row_count = hot, index_bytes = ib, data_offset = doff,
               overlay_bytes = ob\<rparr>))"

definition disk_header_encode :: "disk_header \<Rightarrow> bytes" where
  "disk_header_encode d =
     (let b = replicate (unat DISK_HEADER_BYTES) 0;
          b = put_at 0 PLEPACK_MAGIC b;
          b = put_at 8 (u32_to_le_bytes PLEPACK_VERSION) b;
          b = put_at 12 (u32_to_le_bytes EXACT_OVERLAY_FLAGS) b;
          b = put_at 16 (hd_source_digest (logical d)) b;
          b = put_at 48 (u64_to_le_bytes (hd_row_count (logical d))) b;
          b = put_at 56 (u32_to_le_bytes (hd_row_bytes (logical d))) b;
          b = put_at 60 (u32_to_le_bytes (hd_block_bytes (logical d))) b;
          b = put_at 64 (u64_to_le_bytes (hot_row_count d)) b;
          b = put_at 72 (u64_to_le_bytes (index_bytes d)) b;
          b = put_at 80 (u64_to_le_bytes (data_offset d)) b;
          b = put_at 88 (u64_to_le_bytes (overlay_bytes d)) b;
          b = put_at 96 (hd_index_digest (logical d)) b
      in b)"

definition read_u32 :: "bytes \<Rightarrow> usize \<Rightarrow> ple_pack_io_error + u32" where
  "read_u32 bs offset =
     bindE (ok_or (checked_add offset 4) (Format ''u32 header offset overflow'')) (\<lambda>end.
     bindE (ok_or (get_range bs (unat offset) (unat end)) (Format ''truncated u32 header field''))
       (\<lambda>slice.
     bindE (try_into_array 4 slice (Format ''invalid u32 header field'')) (\<lambda>arr.
     Inr (u32_from_le_bytes arr))))"

definition read_u64 :: "bytes \<Rightarrow> usize \<Rightarrow> ple_pack_io_error + u64" where
  "read_u64 bs offset =
     bindE (ok_or (checked_add offset 8) (Format ''u64 header offset overflow'')) (\<lambda>end.
     bindE (ok_or (get_range bs (unat offset) (unat end)) (Format ''truncated u64 header field''))
       (\<lambda>slice.
     bindE (try_into_array 8 slice (Format ''invalid u64 header field'')) (\<lambda>arr.
     Inr (u64_from_le_bytes arr))))"

text \<open>
  \<open>DiskHeader::decode\<close>. The two digests are copied out of the buffer by indexing with a range,
  which would panic on a short buffer.
\<close>

definition disk_header_decode :: "bytes \<Rightarrow> ple_pack_io_error fault + disk_header" where
  "disk_header_decode bs =
     (if length bs < unat DISK_HEADER_BYTES
      then Inl (Err (Format ''sidecar is shorter than header''))
      else if get_range bs 0 8 \<noteq> Some PLEPACK_MAGIC
      then Inl (Err (Format ''PLEPack magic mismatch''))
      else bindE (map_err Err (read_u32 bs 8)) (\<lambda>ver.
      if ver \<noteq> PLEPACK_VERSION then Inl (Err (Format ''PLEPack version mismatch''))
      else bindE (map_err Err (read_u32 bs 12)) (\<lambda>flags.
      if flags \<noteq> EXACT_OVERLAY_FLAGS then Inl (Err (Format ''unsupported PLEPack flags''))
      else
      bindE (index_range bs 16 48) (\<lambda>source_digest.
      bindE (map_err Err (read_u64 bs 48)) (\<lambda>row_count.
      bindE (map_err Err (read_u32 bs 56)) (\<lambda>row_bytes.
      bindE (map_err Err (read_u32 bs 60)) (\<lambda>block_bytes.
      bindE (map_err Err (read_u64 bs 64)) (\<lambda>hot.
      bindE (map_err Err (read_u64 bs 72)) (\<lambda>ib.
      bindE (map_err Err (read_u64 bs 80)) (\<lambda>doff.
      bindE (map_err Err (read_u64 bs 88)) (\<lambda>ob.
      bindE (index_range bs 96 128) (\<lambda>index_digest.
      bindE (map_err (Err \<circ> Layout)
               (ple_pack_header_new source_digest row_count row_bytes block_bytes index_digest))
        (\<lambda>lg. map_err Err (disk_header_new lg hot ib doff ob))))))))))))))"

section \<open>Index entries\<close>

definition encode_index_entry :: "u32 \<Rightarrow> u64 \<Rightarrow> bytes" where
  "encode_index_entry logical_row overlay_offset =
     put_at 4 (u64_to_le_bytes overlay_offset)
       (put_at 0 (u32_to_le_bytes logical_row) (replicate 12 0))"

definition decode_index_entry :: "bytes \<Rightarrow> ple_pack_io_error + u32 \<times> u64" where
  "decode_index_entry bs =
     (if length bs \<noteq> unat INDEX_ENTRY_BYTES then Inl (Format ''invalid hot index entry width'')
      else bindE (read_u32 bs 0) (\<lambda>row. bindE (read_u64 bs 4) (\<lambda>offset. Inr (row, offset))))"

section \<open>Well-formed disk headers\<close>

definition wf_disk_header :: "disk_header \<Rightarrow> bool" where
  "wf_disk_header d \<longleftrightarrow>
     wf_header (logical d) \<and>
     unat (index_bytes d) = 12 * unat (hot_row_count d) \<and>
     128 + unat (index_bytes d) \<le> unat (data_offset d) \<and>
     unat (hd_block_bytes (logical d)) dvd unat (data_offset d) \<and>
     unat (hd_block_bytes (logical d)) dvd unat (overlay_bytes d)"

lemma wf_header_block_nonzero: "wf_header h \<Longrightarrow> hd_block_bytes h \<noteq> 0"
  by (auto simp: wf_header_def)

lemma ucast_u32_u64_eq_0 [simp]: "(ucast (x :: u32) :: u64) = 0 \<longleftrightarrow> x = 0"
  by (metis unat_eq_zero unat_u32_u64)

lemma is_multiple_of_block:
  "wf_header h \<Longrightarrow> is_multiple_of (x :: u64) (ucast (hd_block_bytes h)) \<longleftrightarrow>
     unat (hd_block_bytes h) dvd unat x"
  by (simp add: is_multiple_of_unat wf_header_block_nonzero)

lemma disk_header_new_ok_iff:
  assumes "wf_header lg"
  shows "disk_header_new lg hot ib doff ob = Inr d \<longleftrightarrow>
    d = \<lparr>logical = lg, hot_row_count = hot, index_bytes = ib, data_offset = doff,
          overlay_bytes = ob\<rparr> \<and> wf_disk_header d"
proof -
  have mul: "(unat hot * 12 < 18446744073709551616 \<and> ib = hot * 12) \<longleftrightarrow> unat ib = 12 * unat hot"
    (is "?l \<longleftrightarrow> ?r")
  proof
    assume ?l
    then show ?r using unat_mult_exact [of hot 12] by simp
  next
    assume r: ?r
    have "unat ib < 18446744073709551616" by simp
    then have lt: "unat hot * 12 < 18446744073709551616" using r by simp
    then have "unat (hot * 12) = unat ib" using r unat_mult_exact [of hot 12] by simp
    then show ?l using lt by (simp only: word_unat_eq_iff)
  qed
  have add: "(\<exists>m. checked_add 128 ib = Some m \<and> \<not> doff < m) \<longleftrightarrow> 128 + unat ib \<le> unat doff"
  proof (cases "128 + unat ib < 18446744073709551616")
    case True
    then show ?thesis
      using unat_add_exact [of 128 ib] by (simp add: checked_add_def word_less_nat_alt not_less)
  next
    case False
    then have "\<not> 128 + unat ib \<le> unat doff"
      using unat_u64_lt [of doff] by linarith
    then show ?thesis using False by (simp add: checked_add_def)
  qed
  have "disk_header_new lg hot ib doff ob = Inr d \<longleftrightarrow>
    (unat hot * 12 < 18446744073709551616 \<and> ib = hot * 12) \<and>
    (\<exists>m. checked_add 128 ib = Some m \<and> \<not> doff < m) \<and>
    unat (hd_block_bytes lg) dvd unat doff \<and> unat (hd_block_bytes lg) dvd unat ob \<and>
    d = \<lparr>logical = lg, hot_row_count = hot, index_bytes = ib, data_offset = doff,
          overlay_bytes = ob\<rparr>"
    by (auto simp: disk_header_new_def INDEX_ENTRY_BYTES_def DISK_HEADER_BYTES_def result_simps
        is_multiple_of_block [OF assms])
  then show ?thesis
    unfolding mul add by (auto simp: wf_disk_header_def assms)
qed

section \<open>Fields of a buffer\<close>

text \<open>The \<open>n\<close> bytes of a buffer at an offset, and the twelve fields of a disk header.\<close>

definition field :: "nat \<Rightarrow> nat \<Rightarrow> bytes \<Rightarrow> bytes" where
  "field off n bs = take n (drop off bs)"

lemma length_field [simp]: "off + n \<le> length bs \<Longrightarrow> length (field off n bs) = n"
  by (simp add: field_def)

lemma get_range_field: "a + n \<le> length bs \<Longrightarrow> get_range bs a (a + n) = Some (field a n bs)"
  by (simp add: get_range_def field_def)

lemma read_u32_field:
  assumes "unat off + 4 \<le> length bs" and "unat off + 4 < 2 ^ 64"
  shows "read_u32 bs off = Inr (u32_from_le_bytes (field (unat off) 4 bs))"
  using assms unat_add_exact [of off 4]
  by (simp add: read_u32_def checked_add_def get_range_field try_into_array_def)

lemma read_u64_field:
  assumes "unat off + 8 \<le> length bs" and "unat off + 8 < 2 ^ 64"
  shows "read_u64 bs off = Inr (u64_from_le_bytes (field (unat off) 8 bs))"
  using assms unat_add_exact [of off 8]
  by (simp add: read_u64_def checked_add_def get_range_field try_into_array_def)

lemma field_append:
  "off + n \<le> length xs \<Longrightarrow> field off n (xs @ ys) = field off n xs"
  "length xs \<le> off \<Longrightarrow> field off n (xs @ ys) = field (off - length xs) n ys"
  by (simp_all add: field_def)

lemma field_whole: "length xs = n \<Longrightarrow> field 0 n (xs @ ys) = xs"
  by (simp add: field_def)

lemma take_field: "take n bs = field 0 n bs"
  by (simp add: field_def)

lemma field_split: "field a (m + n) bs = field a m bs @ field (a + m) n bs"
  by (simp add: field_def take_add add.commute)

definition header_fields :: "disk_header \<Rightarrow> bytes" where
  "header_fields d =
     PLEPACK_MAGIC @ u32_to_le_bytes PLEPACK_VERSION @ u32_to_le_bytes EXACT_OVERLAY_FLAGS @
     hd_source_digest (logical d) @ u64_to_le_bytes (hd_row_count (logical d)) @
     u32_to_le_bytes (hd_row_bytes (logical d)) @ u32_to_le_bytes (hd_block_bytes (logical d)) @
     u64_to_le_bytes (hot_row_count d) @ u64_to_le_bytes (index_bytes d) @
     u64_to_le_bytes (data_offset d) @ u64_to_le_bytes (overlay_bytes d) @
     hd_index_digest (logical d)"

lemma length_magic [simp]: "length PLEPACK_MAGIC = 8"
  by (simp add: PLEPACK_MAGIC_def)

lemma encode_eq_fields:
  assumes "length (hd_source_digest (logical d)) = 32" and "length (hd_index_digest (logical d)) = 32"
  shows "disk_header_encode d = header_fields d"
  using put_at_fill [where pre = "[]" and ys = PLEPACK_MAGIC and n = 128] assms
  by (simp add: disk_header_encode_def DISK_HEADER_BYTES_def Let_def put_at_fill header_fields_def
      del: append_assoc)

lemma length_header_fields:
  "length (hd_source_digest (logical d)) = 32 \<Longrightarrow> length (hd_index_digest (logical d)) = 32 \<Longrightarrow>
     length (header_fields d) = 128"
  by (simp add: header_fields_def)

lemma u32_from_le_bytes_eq_iff:
  "length bs = 4 \<Longrightarrow> u32_from_le_bytes bs = x \<longleftrightarrow> bs = u32_to_le_bytes x"
  using u32_le_canonical by auto

lemma u64_from_le_bytes_eq_iff:
  "length bs = 8 \<Longrightarrow> u64_from_le_bytes bs = x \<longleftrightarrow> bs = u64_to_le_bytes x"
  using u64_le_canonical by auto

lemma take_128_fields:
  "take 128 bs = field 0 8 bs @ field 8 4 bs @ field 12 4 bs @ field 16 32 bs @ field 48 8 bs @
     field 56 4 bs @ field 60 4 bs @ field 64 8 bs @ field 72 8 bs @ field 80 8 bs @
     field 88 8 bs @ field 96 32 bs"
  using field_split [of 0 8 120 bs] field_split [of 8 4 116 bs] field_split [of 12 4 112 bs]
    field_split [of 16 32 80 bs] field_split [of 48 8 72 bs] field_split [of 56 4 68 bs]
    field_split [of 60 4 64 bs] field_split [of 64 8 56 bs] field_split [of 72 8 48 bs]
    field_split [of 80 8 40 bs] field_split [of 88 8 32 bs]
  by (simp add: take_field)

text \<open>What \<open>decode\<close> checks, field by field, on a buffer that is long enough.\<close>

lemma decode_fields_iff:
  assumes "128 \<le> length bs"
  shows "disk_header_decode bs = Inr d \<longleftrightarrow>
    field 0 8 bs = PLEPACK_MAGIC \<and>
    u32_from_le_bytes (field 8 4 bs) = PLEPACK_VERSION \<and>
    u32_from_le_bytes (field 12 4 bs) = EXACT_OVERLAY_FLAGS \<and>
    hd_source_digest (logical d) = field 16 32 bs \<and>
    u64_from_le_bytes (field 48 8 bs) = hd_row_count (logical d) \<and>
    u32_from_le_bytes (field 56 4 bs) = hd_row_bytes (logical d) \<and>
    u32_from_le_bytes (field 60 4 bs) = hd_block_bytes (logical d) \<and>
    u64_from_le_bytes (field 64 8 bs) = hot_row_count d \<and>
    u64_from_le_bytes (field 72 8 bs) = index_bytes d \<and>
    u64_from_le_bytes (field 80 8 bs) = data_offset d \<and>
    u64_from_le_bytes (field 88 8 bs) = overlay_bytes d \<and>
    hd_index_digest (logical d) = field 96 32 bs \<and> wf_disk_header d"
proof -
  have ranges: "get_range bs 0 8 = Some (field 0 8 bs)" "get_range bs 16 48 = Some (field 16 32 bs)"
    "get_range bs 96 128 = Some (field 96 32 bs)"
    using assms by (simp_all add: get_range_def field_def)
  have len: "length (field 16 32 bs) = 32" "length (field 96 32 bs) = 32"
    using assms by simp_all
  show ?thesis
    using assms
    by (cases d)
       (auto simp: disk_header_decode_def DISK_HEADER_BYTES_def index_range_def ranges
         read_u32_field read_u64_field result_simps ple_pack_header_new_ok_iff [OF len]
         disk_header_new_ok_iff wf_disk_header_def)
qed

lemma take_128_eq_header_fields_iff:
  assumes "128 \<le> length bs" and "wf_disk_header d"
  shows "take 128 bs = header_fields d \<longleftrightarrow>
    field 0 8 bs = PLEPACK_MAGIC \<and>
    field 8 4 bs = u32_to_le_bytes PLEPACK_VERSION \<and>
    field 12 4 bs = u32_to_le_bytes EXACT_OVERLAY_FLAGS \<and>
    field 16 32 bs = hd_source_digest (logical d) \<and>
    field 48 8 bs = u64_to_le_bytes (hd_row_count (logical d)) \<and>
    field 56 4 bs = u32_to_le_bytes (hd_row_bytes (logical d)) \<and>
    field 60 4 bs = u32_to_le_bytes (hd_block_bytes (logical d)) \<and>
    field 64 8 bs = u64_to_le_bytes (hot_row_count d) \<and>
    field 72 8 bs = u64_to_le_bytes (index_bytes d) \<and>
    field 80 8 bs = u64_to_le_bytes (data_offset d) \<and>
    field 88 8 bs = u64_to_le_bytes (overlay_bytes d) \<and>
    field 96 32 bs = hd_index_digest (logical d)"
  using assms
  by (simp add: take_128_fields header_fields_def append_eq_append_conv wf_disk_header_def
      wf_header_def)

section \<open>Properties\<close>

lemma disk_header_decode_iff:
  "disk_header_decode bs = Inr d \<longleftrightarrow>
     128 \<le> length bs \<and> wf_disk_header d \<and> take 128 bs = disk_header_encode d"
proof (cases "128 \<le> length bs")
  case True
  have enc: "disk_header_encode d = header_fields d" if "wf_disk_header d"
    using that by (intro encode_eq_fields) (simp_all add: wf_disk_header_def wf_header_def)
  show ?thesis
    using True enc take_128_eq_header_fields_iff [OF True, of d]
    by (auto simp: decode_fields_iff u32_from_le_bytes_eq_iff u64_from_le_bytes_eq_iff)
next
  case False
  then show ?thesis by (simp add: disk_header_decode_def DISK_HEADER_BYTES_def)
qed

text \<open>
  C32. The binary header is exact in both directions: a buffer decodes to a header if and only
  if it is at least 128 bytes long, the header is well formed (geometry, index size, offsets
  and alignment as the constructors check them) and the first 128 bytes are the header's
  encoding. So encoding and then decoding gives the header back, and no two headers share an
  encoding.
\<close>

theorem disk_header_decode_exact:
  "disk_header_decode bs = Inr d \<longleftrightarrow>
     128 \<le> length bs \<and> wf_disk_header d \<and> take 128 bs = disk_header_encode d"
  by (rule disk_header_decode_iff)

lemma no_panic_decode:
  "no_panic (disk_header_decode bs)"
proof -
  have range: "no_panic (index_range bs a b)" if "\<not> length bs < 128" "a \<le> b" "b \<le> 128" for a b
    using that by (simp add: no_panic_def index_range_def get_range_def)
  show ?thesis
    unfolding disk_header_decode_def DISK_HEADER_BYTES_def
    by (intro no_panic_intros range) simp_all
qed

text \<open>
  Decoding a header never panics, whatever the bytes: every malformed buffer is refused
  with an error value.
\<close>

theorem disk_header_decode_no_panic:
  "disk_header_decode bs \<noteq> Inl Panic"
  using no_panic_decode [of bs] by (simp add: no_panic_def)

lemma encode_index_entry_eq:
  "encode_index_entry row offset = u32_to_le_bytes row @ u64_to_le_bytes offset"
  using put_at_fill [where pre = "[]" and ys = "u32_to_le_bytes row" and n = 12]
  by (simp add: encode_index_entry_def put_at_fill)

lemma decode_index_entry_iff:
  "decode_index_entry bs = Inr (row, offset) \<longleftrightarrow> bs = encode_index_entry row offset"
proof -
  note enc = encode_index_entry_eq
  show ?thesis
  proof (cases "length bs = 12")
    case True
    then obtain xs ys where bs: "bs = xs @ ys" "length xs = 4" "length ys = 8"
      using that [of "take 4 bs" "drop 4 bs"] by simp
    then have "field 0 4 bs = xs" "field 4 8 bs = ys"
      by (simp_all add: field_def)
    then show ?thesis
      using bs unfolding enc
      by (simp add: decode_index_entry_def INDEX_ENTRY_BYTES_def read_u32_field read_u64_field
          u32_from_le_bytes_eq_iff u64_from_le_bytes_eq_iff)
  next
    case False
    then show ?thesis unfolding enc by (auto simp: decode_index_entry_def INDEX_ENTRY_BYTES_def)
  qed
qed

text \<open>
  Index entries are exact in both directions: twelve bytes, and only the encoding of the
  pair decodes to it.
\<close>

theorem index_entry_decode_exact:
  "decode_index_entry bs = Inr (row, offset) \<longleftrightarrow> bs = encode_index_entry row offset"
  by (rule decode_index_entry_iff)

end
