(* ===== verification/PleLayout.thy ===== *)
theory PleLayout
  imports PleFormat
begin

text \<open>
  The exact base/overlay layout (\<open>crates/gb10x-ple/src/layout.rs\<close>): \<open>LayoutPlan\<close>,
  \<open>plan_exact_layout\<close> and the arithmetic of the index-free cold base.

  The planner keeps its loops: one pass over the trace that collects the hot rows in the order
  they are first seen (\<open>collect_group\<close>, \<open>collect_trace\<close>), one pass over the hot rows that gives
  each its block and its offset (\<open>place_rows\<close>). \<open>first_seen\<close> and \<open>slot_placement\<close> are the
  reference: the first occurrences of the sorted batches, and placement by division.
  \<open>wf_layout\<close> is what the writer needs of a plan.
\<close>

section \<open>Plans\<close>

record hot_overlay_placement =
  pl_logical_row :: u32
  pl_block_id :: u64
  pl_offset_in_block :: u32

record layout_plan =
  lp_row_count :: u64
  lp_row_bytes :: u32
  lp_block_bytes :: u32
  lp_hot_order :: "u32 list"
  lp_placements :: "hot_overlay_placement list"

definition base_offset :: "layout_plan \<Rightarrow> u32 \<Rightarrow> ple_pack_error + u64" where
  "base_offset p row =
     (if lp_row_count p \<le> ucast row then Inl (LogicalRowOutOfRange row (lp_row_count p))
      else ok_or (checked_mul (ucast row) (ucast (lp_row_bytes p))) (Overflow ''cold base row offset''))"

section \<open>The planner\<close>

text \<open>One sorted group: a row outside the base stops the planner, a new row is appended.\<close>

fun collect_group ::
    "u64 \<Rightarrow> u32 list \<Rightarrow> u32 set \<Rightarrow> u32 list \<Rightarrow> ple_pack_error + u32 set \<times> u32 list" where
  "collect_group row_count [] seen order = Inr (seen, order)"
| "collect_group row_count (row # rows) seen order =
     (if row_count \<le> ucast row then Inl (TraceRowOutOfRange row row_count)
      else if row \<notin> seen then collect_group row_count rows (insert row seen) (order @ [row])
      else collect_group row_count rows seen order)"

fun collect_trace ::
    "u64 \<Rightarrow> u32 list list \<Rightarrow> u32 set \<Rightarrow> u32 list \<Rightarrow> ple_pack_error + u32 list" where
  "collect_trace row_count [] seen order = Inr order"
| "collect_trace row_count (batch # trace) seen order =
     bindE (collect_group row_count (sort_dedup batch) seen order)
       (\<lambda>(seen, order). collect_trace row_count trace seen order)"

fun place_rows ::
    "u32 \<Rightarrow> u32 \<Rightarrow> (nat \<times> u32) list \<Rightarrow> ple_pack_error + hot_overlay_placement list" where
  "place_rows rows_per_block row_bytes [] = Inr []"
| "place_rows rows_per_block row_bytes ((i, logical_row) # rows) =
     (let ordinal = word_of_nat i :: u64;
          rpb = ucast rows_per_block :: u64;
          block_id = ordinal div rpb;
          slot = ordinal mod rpb
      in bindE (ok_or (checked_mul slot (ucast row_bytes)) (Overflow ''hot overlay block offset''))
           (\<lambda>offset.
         bindE (ok_or (try_narrow offset) (Overflow ''hot overlay block offset u32''))
           (\<lambda>offset_in_block.
         bindE (place_rows rows_per_block row_bytes rows) (\<lambda>placements.
         Inr (\<lparr>pl_logical_row = logical_row, pl_block_id = block_id,
                pl_offset_in_block = offset_in_block\<rparr> # placements)))))"

definition plan_exact_layout ::
    "u64 \<Rightarrow> u32 \<Rightarrow> u32 \<Rightarrow> u32 list list \<Rightarrow> ple_pack_error + layout_plan" where
  "plan_exact_layout row_count row_bytes block_bytes trace =
     (if row_count = 0 then Inl (InvalidGeometry ''row_count must be nonzero'')
      else if row_count > 4294967296
      then Inl (InvalidGeometry ''logical row space must fit u32 row identifiers'')
      else if row_bytes = 0 then Inl (InvalidGeometry ''row_bytes must be nonzero'')
      else if block_bytes < row_bytes
      then Inl (InvalidGeometry ''block_bytes must fit at least one complete row'')
      else
        (let rows_per_block = block_bytes div row_bytes
         in if rows_per_block = 0
            then Inl (InvalidGeometry ''block geometry yields zero complete rows'')
            else
              bindE (collect_trace row_count trace {} []) (\<lambda>hot_order.
              bindE (place_rows rows_per_block row_bytes (enumerate 0 hot_order)) (\<lambda>placements.
              Inr \<lparr>lp_row_count = row_count, lp_row_bytes = row_bytes,
                   lp_block_bytes = block_bytes, lp_hot_order = hot_order,
                   lp_placements = placements\<rparr>))))"

section \<open>The hot rows\<close>

definition first_seen :: "'a list \<Rightarrow> 'a list" where
  "first_seen xs = rev (remdups (rev xs))"

lemma set_first_seen [simp]: "set (first_seen xs) = set xs"
  by (simp add: first_seen_def)

lemma distinct_first_seen [simp]: "distinct (first_seen xs)"
  by (simp add: first_seen_def)

lemma first_seen_Nil [simp]: "first_seen [] = []"
  by (simp add: first_seen_def)

lemma first_seen_snoc:
  "first_seen (xs @ [x]) = (if x \<in> set xs then first_seen xs else first_seen xs @ [x])"
  by (simp add: first_seen_def)

lemma collect_group_eq:
  "order = first_seen seen_rows \<Longrightarrow>
   collect_group rc rows (set seen_rows) order =
     (if \<exists>row \<in> set rows. rc \<le> ucast row
      then Inl (TraceRowOutOfRange (hd (filter (\<lambda>row. rc \<le> ucast row) rows)) rc)
      else Inr (set (seen_rows @ rows), first_seen (seen_rows @ rows)))"
proof (induction rows arbitrary: seen_rows order)
  case (Cons row rows)
  show ?case
    using Cons.IH [of "first_seen (seen_rows @ [row])" "seen_rows @ [row]"] Cons.prems
    by (auto simp: first_seen_snoc insert_absorb)
qed simp

lemma collect_trace_ok:
  "\<forall>batch \<in> set trace. \<forall>row \<in> set batch. ucast row < rc \<Longrightarrow>
   collect_trace rc trace (set seen_rows) (first_seen seen_rows)
     = Inr (first_seen (seen_rows @ concat (map sort_dedup trace)))"
proof (induction trace arbitrary: seen_rows)
  case (Cons batch trace)
  then have "\<not> (\<exists>row \<in> set (sort_dedup batch). rc \<le> ucast row)"
    by (auto simp: not_le)
  then show ?case
    using Cons.IH [of "seen_rows @ sort_dedup batch"] Cons.prems
    by (simp add: collect_group_eq)
qed simp

lemma collect_trace_error:
  assumes "\<exists>batch \<in> set trace. \<exists>row \<in> set batch. rc \<le> ucast row"
  shows "\<exists>row. collect_trace rc trace (set seen_rows) (first_seen seen_rows)
      = Inl (TraceRowOutOfRange row rc) \<and> rc \<le> ucast row \<and> row \<in> \<Union> (set (map set trace))"
  using assms
proof (induction trace arbitrary: seen_rows)
  case (Cons batch trace)
  show ?case
  proof (cases "\<exists>row \<in> set batch. rc \<le> ucast row")
    case True
    let ?bad = "filter (\<lambda>row. rc \<le> ucast row) (sort_dedup batch)"
    have "hd ?bad \<in> set ?bad"
      using True by (intro hd_in_set) (auto simp: filter_empty_conv)
    then show ?thesis using True by (auto simp: collect_group_eq)
  next
    case False
    then have "\<not> (\<exists>row \<in> set (sort_dedup batch). rc \<le> ucast row)" by simp
    then show ?thesis
      using Cons False by (fastforce simp: collect_group_eq simp del: set_append)
  qed
qed simp

section \<open>Placement by division\<close>

definition slot_placement :: "nat \<Rightarrow> nat \<Rightarrow> nat \<Rightarrow> u32 \<Rightarrow> hot_overlay_placement" where
  "slot_placement rows_per_block row_bytes i row =
     \<lparr>pl_logical_row = row, pl_block_id = word_of_nat (i div rows_per_block),
      pl_offset_in_block = word_of_nat (i mod rows_per_block * row_bytes)\<rparr>"

definition slot_position :: "nat \<Rightarrow> nat \<Rightarrow> nat \<Rightarrow> nat" where
  "slot_position block_bytes row_bytes i =
     (let rpb = block_bytes div row_bytes
      in i div rpb * block_bytes + i mod rpb * row_bytes)"

lemma slot_end_le:
  fixes rb bb i :: nat
  assumes "0 < rb" and "rb \<le> bb"
  shows "i mod (bb div rb) * rb + rb \<le> bb"
proof -
  have "0 < bb div rb" using assms by (simp add: div_greater_zero_iff)
  then have "Suc (i mod (bb div rb)) \<le> bb div rb" by (simp add: Suc_le_eq)
  then have "Suc (i mod (bb div rb)) * rb \<le> bb div rb * rb" by (rule mult_le_mono1)
  also have "\<dots> \<le> bb" by (rule div_times_less_eq_dividend)
  finally show ?thesis by (simp add: add.commute)
qed

lemma slot_position_mono:
  assumes "0 < rb" and "rb \<le> bb" and "i < j"
  shows "slot_position bb rb i + rb \<le> slot_position bb rb j"
proof -
  define rpb where "rpb = bb div rb"
  have slot: "i mod rpb * rb + rb \<le> bb"
    unfolding rpb_def by (rule slot_end_le [OF assms(1,2)])
  have "i div rpb \<le> j div rpb" using assms(3) by (simp add: div_le_mono)
  then consider "i div rpb = j div rpb" | "i div rpb < j div rpb" by linarith
  then show ?thesis
  proof cases
    case 1
    then have "Suc (i mod rpb) \<le> j mod rpb"
      using assms(3) by (metis Suc_leI add_less_cancel_left div_mult_mod_eq)
    then have "Suc (i mod rpb) * rb \<le> j mod rpb * rb" by (rule mult_le_mono1)
    then show ?thesis using 1 by (simp add: slot_position_def Let_def rpb_def [symmetric])
  next
    case 2
    then have "Suc (i div rpb) * bb \<le> j div rpb * bb" by (intro mult_le_mono1) simp
    then show ?thesis using slot by (simp add: slot_position_def Let_def rpb_def [symmetric])
  qed
qed

lemma slot_position_block:
  assumes "0 < rb" and "rb \<le> bb"
  shows "slot_position bb rb i + rb \<le> Suc (i div (bb div rb)) * bb"
    and "slot_position bb rb i mod bb + rb \<le> bb"
proof -
  have slot: "i mod (bb div rb) * rb + rb \<le> bb" by (rule slot_end_le [OF assms])
  then show "slot_position bb rb i + rb \<le> Suc (i div (bb div rb)) * bb"
    by (simp add: slot_position_def Let_def)
  have "i mod (bb div rb) * rb < bb" using slot assms(1) by linarith
  then show "slot_position bb rb i mod bb + rb \<le> bb"
    using slot by (simp add: slot_position_def Let_def)
qed

lemma place_rows_eq:
  assumes "rb \<noteq> 0" and "rb \<le> bb"
  shows "\<forall>(i, row) \<in> set rows. i < 2 ^ 64 \<Longrightarrow>
    place_rows (bb div rb) rb rows
      = Inr (map (\<lambda>(i, row). slot_placement (unat bb div unat rb) (unat rb) i row) rows)"
proof (induction rows)
  case (Cons r rows)
  obtain i row where r: "r = (i, row)" by fastforce
  then have i: "i < 18446744073709551616" using Cons.prems by simp
  define rpb where "rpb = unat bb div unat rb"
  have rb: "0 < unat rb" "unat rb \<le> unat bb"
    using assms by (simp_all add: unat_gt_0 word_le_nat_alt)
  have rpb: "unat (ucast (bb div rb) :: u64) = rpb"
    by (simp add: rpb_def unat_div)
  have slot: "unat (word_of_nat i mod ucast (bb div rb) :: u64) = i mod rpb"
    by (simp only: unat_mod rpb unat_of_nat_u64 [OF i])
  have lt: "i mod rpb * unat rb < 4294967296"
    using slot_end_le [OF rb, of i] rb unat_u32_lt [of bb] unfolding rpb_def by linarith
  have off: "unat (word_of_nat i mod ucast (bb div rb) * ucast rb :: u64) = i mod rpb * unat rb"
    using unat_mult_exact [of "word_of_nat i mod ucast (bb div rb) :: u64" "ucast rb"] lt
    by (simp add: slot)
  have "(word_of_nat i div ucast (bb div rb) :: u64) = word_of_nat (i div rpb)"
    by (simp only: rpb [symmetric] word_arith_nat_div unat_of_nat_u64 [OF i])
  moreover have "(ucast (word_of_nat i mod ucast (bb div rb) * ucast rb :: u64) :: u32)
      = word_of_nat (i mod rpb * unat rb)"
    by (metis off of_nat_unat)
  ultimately show ?case
    using Cons lt off slot
    by (simp add: r checked_mul_def try_narrow_def slot_placement_def rpb_def [symmetric] Let_def)
qed simp

section \<open>Well-formed plans\<close>

definition wf_layout :: "layout_plan \<Rightarrow> bool" where
  "wf_layout p \<longleftrightarrow>
     lp_row_count p \<noteq> 0 \<and> lp_row_count p \<le> 4294967296 \<and>
     lp_row_bytes p \<noteq> 0 \<and> lp_row_bytes p \<le> lp_block_bytes p \<and>
     distinct (lp_hot_order p) \<and> (\<forall>row \<in> set (lp_hot_order p). ucast row < lp_row_count p) \<and>
     lp_placements p = map (\<lambda>(i, row). slot_placement
       (unat (lp_block_bytes p) div unat (lp_row_bytes p)) (unat (lp_row_bytes p)) i row)
       (enumerate 0 (lp_hot_order p))"

definition layout_reference :: "u64 \<Rightarrow> u32 \<Rightarrow> u32 \<Rightarrow> u32 list list \<Rightarrow> layout_plan" where
  "layout_reference row_count row_bytes block_bytes trace =
     (let order = first_seen (concat (map sort_dedup trace))
      in \<lparr>lp_row_count = row_count, lp_row_bytes = row_bytes, lp_block_bytes = block_bytes,
          lp_hot_order = order,
          lp_placements = map (\<lambda>(i, row).
            slot_placement (unat block_bytes div unat row_bytes) (unat row_bytes) i row)
            (enumerate 0 order)\<rparr>)"

lemma in_set_enumerate_less:
  "(i, x) \<in> set (enumerate 0 xs) \<Longrightarrow> i < length xs \<and> x = xs ! i"
  by (auto simp: in_set_enumerate_eq)

lemma place_hot_rows:
  assumes "rb \<noteq> 0" and "rb \<le> bb" and "distinct order"
  shows "place_rows (bb div rb) rb (enumerate 0 order)
    = Inr (map (\<lambda>(i, row). slot_placement (unat bb div unat rb) (unat rb) i row)
        (enumerate 0 order))"
proof (rule place_rows_eq [OF assms(1,2)])
  show "\<forall>(i, row) \<in> set (enumerate 0 order). i < 2 ^ 64"
    using length_distinct_u32 [OF assms(3)] by (fastforce dest: in_set_enumerate_less)
qed

lemma block_div_row_nonzero:
  "rb \<noteq> 0 \<Longrightarrow> rb \<le> bb \<Longrightarrow> bb div rb \<noteq> (0 :: u32)"
proof -
  assume "rb \<noteq> 0" and "rb \<le> bb"
  then have "0 < unat bb div unat rb"
    by (simp add: div_greater_zero_iff word_le_nat_alt unat_gt_0)
  then show ?thesis by (metis unat_0 unat_div less_irrefl)
qed

lemma plan_ok:
  assumes "row_count \<noteq> 0" and "row_count \<le> 4294967296" and "row_bytes \<noteq> 0"
    and "row_bytes \<le> block_bytes"
    and "\<forall>batch \<in> set trace. \<forall>row \<in> set batch. ucast row < row_count"
  shows "plan_exact_layout row_count row_bytes block_bytes trace
    = Inr (layout_reference row_count row_bytes block_bytes trace)"
  using collect_trace_ok [OF assms(5), of "[]"] assms(1-4)
    place_hot_rows [OF assms(3,4), of "first_seen (concat (map sort_dedup trace))"]
    block_div_row_nonzero [OF assms(3,4)]
  by (simp add: plan_exact_layout_def layout_reference_def Let_def not_less)

section \<open>Positions in the overlay region\<close>

definition placement_position :: "layout_plan \<Rightarrow> hot_overlay_placement \<Rightarrow> nat" where
  "placement_position p pl =
     unat (pl_block_id pl) * unat (lp_block_bytes p) + unat (pl_offset_in_block pl)"

lemma wf_layout_bytes:
  "wf_layout p \<Longrightarrow> 0 < unat (lp_row_bytes p) \<and> unat (lp_row_bytes p) \<le> unat (lp_block_bytes p)"
  by (simp add: wf_layout_def unat_gt_0 word_le_nat_alt)

lemma length_placements: "wf_layout p \<Longrightarrow> length (lp_placements p) = length (lp_hot_order p)"
  by (simp add: wf_layout_def)

lemma length_hot_order: "wf_layout p \<Longrightarrow> length (lp_hot_order p) \<le> 4294967296"
  by (simp add: wf_layout_def length_distinct_u32)

lemma placement_rows:
  assumes "wf_layout p"
  shows "map pl_logical_row (lp_placements p) = lp_hot_order p"
proof (rule nth_equalityI)
  show "length (map pl_logical_row (lp_placements p)) = length (lp_hot_order p)"
    by (simp add: length_placements [OF assms])
  show "map pl_logical_row (lp_placements p) ! i = lp_hot_order p ! i"
    if "i < length (map pl_logical_row (lp_placements p))" for i
    using assms that by (simp add: wf_layout_def nth_enumerate_eq slot_placement_def)
qed

lemma placement_row_inside:
  assumes "wf_layout p" and "pl \<in> set (lp_placements p)"
  shows "ucast (pl_logical_row pl) < lp_row_count p"
proof -
  have "pl_logical_row pl \<in> set (lp_hot_order p)"
    using assms(2) placement_rows [OF assms(1)] by (metis image_eqI set_map)
  then show ?thesis using assms(1) by (simp add: wf_layout_def)
qed

lemma placement_nth:
  assumes "wf_layout p" and "i < length (lp_placements p)"
  shows "unat (pl_offset_in_block (lp_placements p ! i))
      = i mod (unat (lp_block_bytes p) div unat (lp_row_bytes p)) * unat (lp_row_bytes p)"
    and "unat (pl_block_id (lp_placements p ! i))
      = i div (unat (lp_block_bytes p) div unat (lp_row_bytes p))"
    and "placement_position p (lp_placements p ! i)
      = slot_position (unat (lp_block_bytes p)) (unat (lp_row_bytes p)) i"
proof -
  define rb bb where "rb = unat (lp_row_bytes p)" and "bb = unat (lp_block_bytes p)"
  have b: "0 < rb" "rb \<le> bb"
    using wf_layout_bytes [OF assms(1)] by (simp_all add: rb_def bb_def)
  have i: "i < length (lp_hot_order p)" using assms by (simp add: length_placements)
  have pl: "lp_placements p ! i = slot_placement (bb div rb) rb i (lp_hot_order p ! i)"
    using assms(1) i by (simp add: wf_layout_def rb_def bb_def nth_enumerate_eq)
  have "i mod (bb div rb) * rb < 4294967296"
    using slot_end_le [OF b, of i] b unat_u32_lt [of "lp_block_bytes p"] unfolding bb_def by linarith
  then show off: "unat (pl_offset_in_block (lp_placements p ! i)) = i mod (bb div rb) * rb"
    unfolding pl slot_placement_def
    by (simp only: hot_overlay_placement.simps unat_of_nat_u32)
  have "i < 18446744073709551616"
    using i length_hot_order [OF assms(1)] by linarith
  then have "i div (bb div rb) < 18446744073709551616"
    using div_le_dividend [of i "bb div rb"] by linarith
  then show blk: "unat (pl_block_id (lp_placements p ! i)) = i div (bb div rb)"
    by (simp add: pl slot_placement_def unat_of_nat_u64)
  show "placement_position p (lp_placements p ! i) = slot_position bb rb i"
    using off blk by (simp add: placement_position_def slot_position_def Let_def bb_def)
qed

lemma placements_ordered:
  assumes "wf_layout p"
  shows "sorted_wrt (\<lambda>a b. placement_position p a + unat (lp_row_bytes p) \<le> placement_position p b)
    (lp_placements p)"
  unfolding sorted_wrt_iff_nth_less
  using slot_position_mono wf_layout_bytes [OF assms] placement_nth(3) [OF assms]
  by (metis less_trans)

lemma placement_in_block:
  assumes "wf_layout p" and "pl \<in> set (lp_placements p)"
  shows "unat (pl_offset_in_block pl) + unat (lp_row_bytes p) \<le> unat (lp_block_bytes p)"
  using assms placement_nth(1) [OF assms(1)] slot_end_le wf_layout_bytes [OF assms(1)]
  by (metis in_set_conv_nth)

section \<open>Properties\<close>

lemma plan_exact_layout_iff:
  "plan_exact_layout row_count row_bytes block_bytes trace = Inr p \<longleftrightarrow>
     row_count \<noteq> 0 \<and> row_count \<le> 4294967296 \<and> row_bytes \<noteq> 0 \<and> row_bytes \<le> block_bytes \<and>
     (\<forall>batch \<in> set trace. \<forall>row \<in> set batch. ucast row < row_count) \<and>
     p = layout_reference row_count row_bytes block_bytes trace"
proof (cases "row_count \<noteq> 0 \<and> row_count \<le> 4294967296 \<and> row_bytes \<noteq> 0 \<and>
    row_bytes \<le> block_bytes")
  case True
  show ?thesis
  proof (cases "\<forall>batch \<in> set trace. \<forall>row \<in> set batch. ucast row < row_count")
    case inside: True
    then show ?thesis using True plan_ok by auto
  next
    case False
    then have "\<exists>batch \<in> set trace. \<exists>row \<in> set batch. row_count \<le> ucast row"
      by (auto simp: not_less)
    from collect_trace_error [OF this, of "[]"] obtain row where
      "collect_trace row_count trace {} [] = Inl (TraceRowOutOfRange row row_count)"
      by auto
    then show ?thesis using False by (auto simp: plan_exact_layout_def Let_def)
  qed
next
  case False
  then show ?thesis by (auto simp: plan_exact_layout_def not_less not_le)
qed

text \<open>
  C29. The planner succeeds exactly on a valid geometry and a trace inside the base, and then
  equals the reference: the hot rows are the first occurrences of the sorted, de-duplicated
  batches, and hot row \<open>i\<close> goes to block \<open>i div rows_per_block\<close>, at the offset of slot
  \<open>i mod rows_per_block\<close>. None of its overflow checks can fail.
\<close>

theorem plan_exact_layout_reference:
  "plan_exact_layout row_count row_bytes block_bytes trace = Inr p \<longleftrightarrow>
     row_count \<noteq> 0 \<and> row_count \<le> 4294967296 \<and> row_bytes \<noteq> 0 \<and> row_bytes \<le> block_bytes \<and>
     (\<forall>batch \<in> set trace. \<forall>row \<in> set batch. ucast row < row_count) \<and>
     p = layout_reference row_count row_bytes block_bytes trace"
  by (rule plan_exact_layout_iff)

lemma plan_exact_layout_wf:
  "plan_exact_layout row_count row_bytes block_bytes trace = Inr p \<Longrightarrow> wf_layout p"
  unfolding plan_exact_layout_iff
  by (auto simp: wf_layout_def layout_reference_def Let_def)

text \<open>
  A row outside the base is reported as such: when the geometry is valid, the planner
  fails only with a row of the trace that is outside the base.
\<close>

theorem plan_exact_layout_trace_error:
  assumes "row_count \<noteq> 0" and "row_count \<le> 4294967296" and "row_bytes \<noteq> 0"
    and "row_bytes \<le> block_bytes"
    and "plan_exact_layout row_count row_bytes block_bytes trace = Inl e"
  shows "\<exists>row batch. e = TraceRowOutOfRange row row_count \<and> batch \<in> set trace \<and>
    row \<in> set batch \<and> row_count \<le> ucast row"
proof -
  have "\<exists>batch \<in> set trace. \<exists>row \<in> set batch. row_count \<le> ucast row"
    using plan_ok [OF assms(1-4), of trace] assms(5) by (auto simp: not_less [symmetric])
  from collect_trace_error [OF this, of "[]"] obtain row where
    row: "collect_trace row_count trace {} [] = Inl (TraceRowOutOfRange row row_count)"
    "row_count \<le> ucast row" "row \<in> \<Union> (set (map set trace))"
    by auto
  then have "e = TraceRowOutOfRange row row_count"
    using assms block_div_row_nonzero [OF assms(3,4)]
    by (simp add: plan_exact_layout_def Let_def leD)
  then show ?thesis using row by auto
qed

definition test_trace :: "u32 list list" where
  "test_trace = [[9, 3, 7, 3], [9, 7, 11], [2, 1], [7, 9]]"

theorem plan_exact_layout_trace_error_witness:
  "\<exists>row. plan_exact_layout 40 320 4096 [[7, 40]] = Inl (TraceRowOutOfRange row 40) \<and> row = 40"
proof -
  have "plan_exact_layout 40 320 4096 [[7, 40]] = Inl (TraceRowOutOfRange 40 40)"
    by (simp add: plan_exact_layout_def sort_dedup_def Let_def)
  then show ?thesis
    using plan_exact_layout_trace_error [of 40 320 4096 "[[7, 40]]"] by auto
qed

text \<open>
  C38. The overlay holds every observed row once and nothing else, and no two rows share a
  byte: the rows occupy disjoint ranges of the overlay region, each inside one block.
\<close>

theorem overlay_placements_exact:
  assumes "plan_exact_layout row_count row_bytes block_bytes trace = Inr p"
  shows "map pl_logical_row (lp_placements p) = lp_hot_order p \<and> distinct (lp_hot_order p) \<and>
    set (lp_hot_order p) = (\<Union>batch \<in> set trace. set batch) \<and>
    sorted_wrt (\<lambda>a b. placement_position p a + unat row_bytes \<le> placement_position p b)
      (lp_placements p) \<and>
    (\<forall>pl \<in> set (lp_placements p).
       unat (pl_offset_in_block pl) + unat row_bytes \<le> unat block_bytes)"
proof -
  have wf: "wf_layout p" by (rule plan_exact_layout_wf [OF assms])
  have p: "lp_row_bytes p = row_bytes" "lp_block_bytes p = block_bytes"
    "lp_hot_order p = first_seen (concat (map sort_dedup trace))"
    using assms unfolding plan_exact_layout_iff
    by (simp_all add: layout_reference_def Let_def)
  have "set (lp_hot_order p) = (\<Union>batch \<in> set trace. set batch)" by (simp add: p)
  moreover have "distinct (lp_hot_order p)" by (simp add: p)
  ultimately show ?thesis
    using placement_rows [OF wf] placements_ordered [OF wf] placement_in_block [OF wf]
    by (simp only: p(1,2)) blast
qed

lemma test_plan_layout:
  "plan_exact_layout 40 320 4096 test_trace = Inr (layout_reference 40 320 4096 test_trace)"
  by (rule plan_ok) (simp_all add: test_trace_def)

theorem overlay_placements_exact_witness:
  "distinct (lp_hot_order (layout_reference 40 320 4096 test_trace)) \<and>
   set (lp_hot_order (layout_reference 40 320 4096 test_trace)) = {1, 2, 3, 7, 9, 11}"
  using overlay_placements_exact [OF test_plan_layout] by (auto simp: test_trace_def)

text \<open>
  The layout does not depend on the order of the rows inside a batch or on duplicates in it:
  traces whose batches hold the same rows give the same result, plan or error.
\<close>

theorem plan_exact_layout_deterministic:
  assumes "map set trace = map set trace'"
  shows "plan_exact_layout row_count row_bytes block_bytes trace
    = plan_exact_layout row_count row_bytes block_bytes trace'"
proof -
  have "collect_trace rc trace seen order = collect_trace rc trace' seen order" for rc seen order
    using assms
  proof (induction trace arbitrary: trace' seen order)
    case (Cons batch trace)
    then obtain batch' rest where "trace' = batch' # rest" "set batch = set batch'"
      "map set trace = map set rest"
      by (auto simp: Cons_eq_map_conv)
    moreover from this have "collect_trace rc trace = collect_trace rc rest"
      using Cons.IH [of rest] by (intro ext) simp
    ultimately show ?case
      by (simp add: sort_dedup_cong [of batch batch'])
  qed simp
  then show ?thesis by (simp only: plan_exact_layout_def)
qed

theorem plan_exact_layout_reference_witness:
  "\<exists>p. plan_exact_layout 40 320 4096 test_trace = Inr p \<and> lp_hot_order p = [3, 7, 9, 11, 1, 2]"
proof -
  have "plan_exact_layout 40 320 4096 test_trace = Inr (layout_reference 40 320 4096 test_trace)"
    unfolding plan_exact_layout_reference by (simp add: test_trace_def)
  then show ?thesis
    by (auto simp: layout_reference_def Let_def test_trace_def sort_dedup_def first_seen_def
        word_le_nat_alt)
qed

theorem plan_exact_layout_deterministic_witness:
  "plan_exact_layout 40 320 4096 [[9, 3, 7, 3], [7]] = plan_exact_layout 40 320 4096 [[3, 7, 9], [7, 7]]"
  by (rule plan_exact_layout_deterministic) auto

text \<open>
  The cold base needs no index: in a plan of the planner, row \<open>r\<close> of the base starts at
  byte \<open>r * row_bytes\<close>, the multiplication never overflows, and exactly the rows outside the
  base are refused.
\<close>

theorem base_offset_exact:
  assumes "plan_exact_layout row_count row_bytes block_bytes trace = Inr p"
  shows "base_offset p row =
    (if ucast row < row_count then Inr (word_of_nat (unat row * unat row_bytes))
     else Inl (LogicalRowOutOfRange row row_count))
    \<and> unat row * unat row_bytes < 2 ^ 64"
proof -
  have p: "lp_row_count p = row_count" "lp_row_bytes p = row_bytes"
    using assms unfolding plan_exact_layout_iff
    by (simp_all add: layout_reference_def Let_def)
  have "unat row \<le> 4294967295" "unat row_bytes \<le> 4294967295"
    using unat_u32_lt [of row] unat_u32_lt [of row_bytes] by linarith+
  then have "unat row * unat row_bytes \<le> 4294967295 * 4294967295"
    by (rule mult_le_mono)
  then have lt: "unat row * unat row_bytes < 18446744073709551616" by simp
  have "(ucast row * ucast row_bytes :: u64) = word_of_nat (unat row * unat row_bytes)"
    by (metis of_nat_mult of_nat_unat unat_u32_u64)
  then show ?thesis
    using lt by (simp add: base_offset_def p checked_mul_def not_le [symmetric])
qed

theorem base_offset_exact_witness:
  "base_offset (layout_reference 40 320 4096 test_trace) 39 = Inr 12480 \<and>
   base_offset (layout_reference 40 320 4096 test_trace) 40 = Inl (LogicalRowOutOfRange 40 40)"
  using base_offset_exact [OF test_plan_layout, of 39] base_offset_exact [OF test_plan_layout, of 40]
  by simp

end
