(* ===== verification/PleSource.thy ===== *)
theory PleSource
  imports PleFormat
begin

text \<open>
  Exact cold row sources (\<open>crates/gb10x-ple/src/source.rs\<close>).

  \<^item> \<open>row_source\<close> is a trait object of \<open>ExactPleRowSource\<close>: its three constants and its
    \<open>read_exact_row\<close>, which maps a destination buffer to its new contents.
  \<^item> The locale \<open>exact_row_source\<close> is the contract the trait documents and the writer and the
    reader rely on: rows inside the source are read byte for byte, whatever the buffer held.
    Clients are proved once against it.
  \<^item> \<open>raw_source\<close> is \<open>RawFileRowSource\<close>, the source of the command-line tool, and the first
    interpretation of the contract. The file it opens is a \<open>file_env\<close>: the outcome of opening
    it, of reading its length and of mapping it. A stable file gives all three consistently
    (\<open>stable_file\<close>). The digest function of the \<open>sha2\<close> crate is the parameter \<open>sha256\<close>.
\<close>

section \<open>The trait\<close>

record row_source =
  src_row_count :: u64
  src_row_bytes :: u32
  src_digest :: bytes
  src_read_exact_row :: "u32 \<Rightarrow> bytes \<Rightarrow> ple_pack_io_error + bytes"

locale exact_row_source =
  fixes invar :: "'s \<Rightarrow> bool"
    and as_source :: "'s \<Rightarrow> row_source"
    and row_data :: "'s \<Rightarrow> u32 \<Rightarrow> bytes"
  assumes source_geometry:
      "invar s \<Longrightarrow> src_row_count (as_source s) \<noteq> 0 \<and> src_row_count (as_source s) \<le> 4294967296 \<and>
         src_row_bytes (as_source s) \<noteq> 0"
    and source_digest_length: "invar s \<Longrightarrow> length (src_digest (as_source s)) = 32"
    and row_data_length:
      "invar s \<Longrightarrow> ucast row < src_row_count (as_source s) \<Longrightarrow>
         length (row_data s row) = unat (src_row_bytes (as_source s))"
    and read_row:
      "invar s \<Longrightarrow> ucast row < src_row_count (as_source s) \<Longrightarrow>
         length dst = unat (src_row_bytes (as_source s)) \<Longrightarrow>
         src_read_exact_row (as_source s) row dst = Inr (row_data s row)"
    and read_refused:
      "invar s \<Longrightarrow> \<not> ucast row < src_row_count (as_source s) \<or>
           length dst \<noteq> unat (src_row_bytes (as_source s)) \<Longrightarrow>
         \<not> is_ok (src_read_exact_row (as_source s) row dst)"
begin

lemma read_ok_iff:
  "invar s \<Longrightarrow> src_read_exact_row (as_source s) row dst = Inr data \<longleftrightarrow>
     ucast row < src_row_count (as_source s) \<and>
     length dst = unat (src_row_bytes (as_source s)) \<and> data = row_data s row"
  using read_row [of s row dst] read_refused [of s row dst] by (fastforce simp: is_ok_iff)

end

section \<open>Flat files\<close>

record file_env =
  fe_open :: "string + unit"
  fe_len :: "string + u64"
  fe_map :: "string + bytes"

definition stable_file :: "bytes \<Rightarrow> file_env" where
  "stable_file bs = \<lparr>fe_open = Inr (), fe_len = Inr (word_of_nat (length bs)), fe_map = Inr bs\<rparr>"

record raw_source =
  raw_mmap :: bytes
  raw_row_count :: u64
  raw_row_bytes :: u32
  raw_digest :: bytes

definition raw_source_open ::
    "(bytes \<Rightarrow> bytes) \<Rightarrow> file_env \<Rightarrow> u32 \<Rightarrow> ple_pack_io_error + raw_source" where
  "raw_source_open sha256 file row_bytes =
     (if row_bytes = 0 then Inl (Format ''raw source row width must be nonzero'')
      else
        bindE (map_err Io (fe_open file)) (\<lambda>_.
        bindE (map_err Io (fe_len file)) (\<lambda>file_bytes.
        if file_bytes = 0 then Inl (Format ''raw source must contain at least one row'')
        else if \<not> is_multiple_of file_bytes (ucast row_bytes)
        then Inl (Format ''raw source byte length is not divisible by row width'')
        else
          (let row_count = file_bytes div ucast row_bytes
           in if row_count > 4294967296
              then Inl (Format ''raw source row count exceeds u32 logical row space'')
              else bindE (map_err Io (fe_map file)) (\<lambda>mmap.
                Inr \<lparr>raw_mmap = mmap, raw_row_count = row_count, raw_row_bytes = row_bytes,
                     raw_digest = sha256 mmap\<rparr>)))))"

definition raw_read_exact_row :: "raw_source \<Rightarrow> u32 \<Rightarrow> bytes \<Rightarrow> ple_pack_io_error + bytes" where
  "raw_read_exact_row s logical_row dst =
     (if raw_row_count s \<le> ucast logical_row
      then Inl (Layout (LogicalRowOutOfRange logical_row (raw_row_count s)))
      else
        (let expected = unat (raw_row_bytes s)
         in if length dst \<noteq> expected then Inl (RowBufferWidth expected (length dst))
            else
              bindE (ok_or (checked_mul (ucast logical_row) (ucast (raw_row_bytes s)))
                       (Format ''raw source row offset overflow'')) (\<lambda>start :: usize.
              bindE (ok_or (checked_add start (ucast (raw_row_bytes s)))
                       (Format ''raw source row end overflow'')) (\<lambda>end.
              ok_or (get_range (raw_mmap s) (unat start) (unat end))
                (Format ''raw source row lies outside mapping'')))))"

text \<open>\<open>impl ExactPleRowSource for RawFileRowSource\<close>\<close>

definition raw_as_source :: "raw_source \<Rightarrow> row_source" where
  "raw_as_source s =
     \<lparr>src_row_count = raw_row_count s, src_row_bytes = raw_row_bytes s,
      src_digest = raw_digest s, src_read_exact_row = raw_read_exact_row s\<rparr>"

section \<open>The contract for flat files\<close>

definition wf_raw_source :: "raw_source \<Rightarrow> bool" where
  "wf_raw_source s \<longleftrightarrow>
     raw_row_count s \<noteq> 0 \<and> raw_row_count s \<le> 4294967296 \<and> raw_row_bytes s \<noteq> 0 \<and>
     length (raw_mmap s) = unat (raw_row_count s) * unat (raw_row_bytes s) \<and>
     length (raw_digest s) = 32"

definition raw_row :: "raw_source \<Rightarrow> u32 \<Rightarrow> bytes" where
  "raw_row s row = field (unat row * unat (raw_row_bytes s)) (unat (raw_row_bytes s)) (raw_mmap s)"

text \<open>The product of two 32-bit values fits 64 bits, with room for one more such value.\<close>

lemma u32_product_bound: "unat (x :: u32) * unat (y :: u32) + unat y < 18446744073709551616"
proof -
  have "unat x \<le> 4294967295" "unat y \<le> 4294967295"
    using unat_u32_lt [of x] unat_u32_lt [of y] by linarith+
  then have "unat x * unat y \<le> 4294967295 * 4294967295"
    by (rule mult_le_mono)
  then show ?thesis using \<open>unat y \<le> 4294967295\<close> by linarith
qed

lemma unat_u32_product: "unat (ucast (x :: u32) * ucast (y :: u32) :: u64) = unat x * unat y"
  using u32_product_bound [of x y] unat_mult_exact [of "ucast x :: u64" "ucast y"] by simp

lemma unat_u32_product_add:
  "unat (ucast (x :: u32) * ucast (y :: u32) + ucast y :: u64) = unat x * unat y + unat y"
  using u32_product_bound [of x y] unat_add_exact [of "ucast x * ucast y :: u64" "ucast y"]
  by (simp add: unat_u32_product)

lemma ucast_less_iff: "(ucast (row :: u32) :: u64) < n \<longleftrightarrow> unat row < unat n"
  by (simp add: word_less_nat_alt)

lemma raw_row_inside:
  fixes row :: u32
  assumes "wf_raw_source s" and "ucast row < raw_row_count s"
  shows "unat row * unat (raw_row_bytes s) + unat (raw_row_bytes s) \<le> length (raw_mmap s)"
proof -
  have "Suc (unat row) * unat (raw_row_bytes s) \<le> unat (raw_row_count s) * unat (raw_row_bytes s)"
    using assms(2) by (intro mult_le_mono1) (simp add: ucast_less_iff Suc_le_eq)
  then show ?thesis using assms(1) by (simp add: wf_raw_source_def add.commute)
qed

lemma raw_read_eq:
  assumes "wf_raw_source s"
  shows "raw_read_exact_row s row dst =
    (if \<not> ucast row < raw_row_count s
     then Inl (Layout (LogicalRowOutOfRange row (raw_row_count s)))
     else if length dst \<noteq> unat (raw_row_bytes s)
     then Inl (RowBufferWidth (unat (raw_row_bytes s)) (length dst))
     else Inr (raw_row s row))"
proof -
  have "ucast row < raw_row_count s \<Longrightarrow>
      get_range (raw_mmap s) (unat row * unat (raw_row_bytes s))
        (unat row * unat (raw_row_bytes s) + unat (raw_row_bytes s)) = Some (raw_row s row)"
    unfolding raw_row_def by (rule get_range_field [OF raw_row_inside [OF assms]])
  moreover have "unat row * unat (raw_row_bytes s) < 18446744073709551616"
    using u32_product_bound [of row "raw_row_bytes s"] by linarith
  ultimately show ?thesis
    using u32_product_bound [of row "raw_row_bytes s"]
    by (simp add: raw_read_exact_row_def checked_mul_def checked_add_def unat_u32_product
        unat_u32_product_add Let_def leD flip: not_less)
qed

lemma length_raw_row:
  "wf_raw_source s \<Longrightarrow> ucast row < raw_row_count s \<Longrightarrow>
     length (raw_row s row) = unat (raw_row_bytes s)"
  using raw_row_inside [of s row] by (simp add: raw_row_def)

interpretation raw: exact_row_source wf_raw_source raw_as_source raw_row
proof unfold_locales
  fix s row dst
  assume s: "wf_raw_source s"
  then show "src_row_count (raw_as_source s) \<noteq> 0 \<and> src_row_count (raw_as_source s) \<le> 4294967296 \<and>
      src_row_bytes (raw_as_source s) \<noteq> 0"
    and "length (src_digest (raw_as_source s)) = 32"
    by (simp_all add: raw_as_source_def wf_raw_source_def)
  show "length (raw_row s row) = unat (src_row_bytes (raw_as_source s))"
    if "ucast row < src_row_count (raw_as_source s)"
    using length_raw_row [OF s] that by (simp add: raw_as_source_def)
  show "src_read_exact_row (raw_as_source s) row dst = Inr (raw_row s row)"
    if "ucast row < src_row_count (raw_as_source s)"
      and "length dst = unat (src_row_bytes (raw_as_source s))"
    using that by (simp add: raw_as_source_def raw_read_eq [OF s])
  show "\<not> is_ok (src_read_exact_row (raw_as_source s) row dst)"
    if "\<not> ucast row < src_row_count (raw_as_source s) \<or>
      length dst \<noteq> unat (src_row_bytes (raw_as_source s))"
    using that by (auto simp: raw_as_source_def raw_read_eq [OF s])
qed

section \<open>Properties\<close>

lemma raw_source_open_iff:
  assumes "length bs < 2 ^ 64"
  shows "raw_source_open sha256 (stable_file bs) row_bytes = Inr s \<longleftrightarrow>
    row_bytes \<noteq> 0 \<and> bs \<noteq> [] \<and> unat row_bytes dvd length bs \<and>
    length bs div unat row_bytes \<le> 2 ^ 32 \<and>
    s = \<lparr>raw_mmap = bs, raw_row_count = word_of_nat (length bs div unat row_bytes),
         raw_row_bytes = row_bytes, raw_digest = sha256 bs\<rparr>"
proof -
  let ?n = "word_of_nat (length bs) :: u64"
  have n: "unat ?n = length bs" using assms by (simp add: unat_of_nat)
  then have zero: "?n = 0 \<longleftrightarrow> bs = []" by (metis length_0_conv unat_0 unat_eq_zero)
  have "?n div ucast row_bytes = word_of_nat (length bs div unat row_bytes)"
    using n by (simp add: word_arith_nat_div)
  moreover have "?n div ucast row_bytes > 4294967296 \<longleftrightarrow> \<not> length bs div unat row_bytes \<le> 2 ^ 32"
    using n by (simp add: word_less_nat_alt unat_div not_le)
  moreover have "row_bytes \<noteq> 0 \<Longrightarrow> is_multiple_of ?n (ucast row_bytes) \<longleftrightarrow> unat row_bytes dvd length bs"
    using n by (simp add: is_multiple_of_unat)
  ultimately show ?thesis
    using zero by (auto simp: raw_source_open_def stable_file_def Let_def)
qed

text \<open>
  \<open>RawFileRowSource::open\<close> on a file accepts exactly the non-empty files that hold a whole
  number of rows, at most \<open>2^32\<close> of them, of a non-zero width; the source it returns maps the
  whole file and carries its digest.
\<close>

theorem raw_source_open_exact:
  assumes "length bs < 2 ^ 64"
  shows "raw_source_open sha256 (stable_file bs) row_bytes = Inr s \<longleftrightarrow>
    row_bytes \<noteq> 0 \<and> bs \<noteq> [] \<and> unat row_bytes dvd length bs \<and>
    length bs div unat row_bytes \<le> 2 ^ 32 \<and>
    s = \<lparr>raw_mmap = bs, raw_row_count = word_of_nat (length bs div unat row_bytes),
         raw_row_bytes = row_bytes, raw_digest = sha256 bs\<rparr>"
  using assms by (rule raw_source_open_iff)

theorem raw_source_open_exact_witness:
  "\<exists>s. raw_source_open (\<lambda>bs. replicate 32 0) (stable_file [1, 2, 3, 4, 5, 6]) 2 = Inr s"
proof -
  have "length [1, 2, 3, 4, 5, 6 :: u8] < 2 ^ 64" by simp
  from raw_source_open_exact [OF this, of "\<lambda>bs. replicate 32 0" 2] show ?thesis by simp
qed

lemma raw_source_open_wf:
  assumes "length bs < 2 ^ 64" and "\<And>x. length (sha256 x) = 32"
    and "raw_source_open sha256 (stable_file bs) row_bytes = Inr s"
  shows "wf_raw_source s"
proof -
  have s: "row_bytes \<noteq> 0" "bs \<noteq> []" "unat row_bytes dvd length bs"
    "length bs div unat row_bytes \<le> 2 ^ 32"
    "s = \<lparr>raw_mmap = bs, raw_row_count = word_of_nat (length bs div unat row_bytes),
         raw_row_bytes = row_bytes, raw_digest = sha256 bs\<rparr>"
    using assms(3) raw_source_open_iff [OF assms(1)] by blast+
  have n: "unat (word_of_nat (length bs div unat row_bytes) :: u64) = length bs div unat row_bytes"
    using s(4) by (simp add: unat_of_nat)
  have "length bs div unat row_bytes \<noteq> 0"
    using s(1-3) by (simp add: dvd_div_eq_0_iff)
  then have "(word_of_nat (length bs div unat row_bytes) :: u64) \<noteq> 0"
    using n by (metis unat_0)
  then show ?thesis
    using s n assms(2) by (simp add: wf_raw_source_def word_le_nat_alt)
qed

text \<open>
  The rows of an opened file are the file: reading row \<open>r\<close> into a buffer of the row's width
  gives the bytes \<open>r * row_bytes\<close> to \<open>(r + 1) * row_bytes\<close>, every other read is refused with
  the error that names its reason, and the rows one after the other are the whole file.
\<close>

theorem raw_source_rows_are_the_file:
  assumes "length bs < 2 ^ 64" and "\<And>x. length (sha256 x) = 32"
    and "raw_source_open sha256 (stable_file bs) row_bytes = Inr s"
  shows "raw_read_exact_row s row dst =
      (if length bs \<le> unat row * unat row_bytes
       then Inl (Layout (LogicalRowOutOfRange row (raw_row_count s)))
       else if length dst \<noteq> unat row_bytes then Inl (RowBufferWidth (unat row_bytes) (length dst))
       else Inr (take (unat row_bytes) (drop (unat row * unat row_bytes) bs))) \<and>
    concat (map (\<lambda>r. take (unat row_bytes) (drop (r * unat row_bytes) bs))
       [0..<unat (raw_row_count s)]) = bs"
proof -
  have wf: "wf_raw_source s" by (rule raw_source_open_wf [OF assms])
  have s: "row_bytes \<noteq> 0" "raw_mmap s = bs" "raw_row_bytes s = row_bytes"
    using assms(3) raw_source_open_iff [OF assms(1)] by auto
  then have len: "length bs = unat (raw_row_count s) * unat row_bytes"
    using wf by (simp add: wf_raw_source_def)
  have "0 < unat row_bytes" using s(1) by (simp add: unat_gt_0)
  then have "ucast row < raw_row_count s \<longleftrightarrow> \<not> length bs \<le> unat row * unat row_bytes"
    by (simp add: ucast_less_iff len not_le)
  then have "raw_read_exact_row s row dst =
      (if length bs \<le> unat row * unat row_bytes
       then Inl (Layout (LogicalRowOutOfRange row (raw_row_count s)))
       else if length dst \<noteq> unat row_bytes then Inl (RowBufferWidth (unat row_bytes) (length dst))
       else Inr (take (unat row_bytes) (drop (unat row * unat row_bytes) bs)))"
    by (simp add: raw_read_eq [OF wf] s raw_row_def field_def)
  then show ?thesis by (simp only: concat_chunks len [symmetric] take_all order_refl)
qed

text \<open>A digest function of the right length, and a small source, for the witnesses.\<close>

definition test_sha256 :: "bytes \<Rightarrow> bytes" where
  "test_sha256 bs = replicate 32 (word_of_nat (length bs) + sum_list bs)"

definition test_file :: bytes where
  "test_file = [1, 2, 3, 4, 5, 6]"

definition test_source :: raw_source where
  "test_source = \<lparr>raw_mmap = test_file, raw_row_count = 3, raw_row_bytes = 2,
     raw_digest = test_sha256 test_file\<rparr>"

lemma length_test_sha256 [simp]: "length (test_sha256 bs) = 32"
  by (simp add: test_sha256_def)

lemma length_test_file: "length test_file < 2 ^ 64"
  by (simp add: test_file_def)

lemma test_source_open: "raw_source_open test_sha256 (stable_file test_file) 2 = Inr test_source"
  unfolding raw_source_open_iff [OF length_test_file]
  by (simp add: test_file_def test_source_def)

theorem raw_source_rows_are_the_file_witness:
  "raw_read_exact_row test_source 1 [0, 0] = Inr [3, 4] \<and>
   raw_read_exact_row test_source 3 [0, 0] = Inl (Layout (LogicalRowOutOfRange 3 3))"
  using raw_source_rows_are_the_file [OF length_test_file length_test_sha256 test_source_open,
      of 1 "[0, 0]"]
    raw_source_rows_are_the_file [OF length_test_file length_test_sha256 test_source_open,
      of 3 "[0, 0]"]
  by (simp add: test_file_def test_source_def)

end
