(* ===== verification/FileIo.thy ===== *)
theory FileIo
  imports PleFormat "HOL-Library.Sublist"
begin

text \<open>
  The part of the file system the sidecar writer uses, as \<open>std::fs\<close> and \<open>std::path\<close> document it.

  \<^item> A path is the list of its components. \<open>parent\<close>, \<open>file_name\<close> and \<open>with_file_name\<close> are those of
    \<open>std::path::Path\<close>; in particular the parent of a bare file name is the empty path, not
    \<open>None\<close>. Different component lists name different files (no links).
  \<^item> \<open>fs\<close> holds the files, the directories and the position of the one open file, as every process
    sees them, and what of it has not reached the disk: files written since they were synced, and
    names and directories changed since the directory that holds them was synced.
  \<^item> Every call takes its outcome from a schedule: it proceeds, it fails after getting some way,
    or the process is killed in it after getting some way. An empty schedule never interferes.
    Apart from the schedule a call fails for the reasons the file system gives.
  \<^item> \<open>survives fs p c\<close>: after a loss of power in the state \<open>fs\<close>, the name \<open>p\<close> may be found with \<open>c\<close>.
    Nothing is assumed of the order in which changes reach the disk, except through \<open>sync_all\<close>.
  \<^item> \<open>triple P m Q E\<close>: from a state with \<open>P\<close>, whatever the schedule, \<open>m\<close> returns with \<open>Q\<close> or stops
    with \<open>E\<close>.
\<close>

section \<open>Paths\<close>

datatype path_component = RootDir | CurDir | ParentDir | Normal bytes

type_synonym path = "path_component list"

definition path_file_name :: "path \<Rightarrow> bytes option" where
  "path_file_name p =
     (if p = [] then None else case last p of Normal name \<Rightarrow> Some name | _ \<Rightarrow> None)"

definition path_parent :: "path \<Rightarrow> path option" where
  "path_parent p = (if p = [] \<or> last p = RootDir then None else Some (butlast p))"

definition with_file_name :: "path \<Rightarrow> bytes \<Rightarrow> path" where
  "with_file_name p name =
     (if path_file_name p = None then p else butlast p) @ [Normal name]"

text \<open>Well-formed UTF-8, which \<open>OsStr::to_str\<close> and \<open>read_to_string\<close> ask for.\<close>

definition utf8_cont :: "u8 \<Rightarrow> bool" where
  "utf8_cont b \<longleftrightarrow> 128 \<le> b \<and> b \<le> 191"

fun utf8_valid :: "bytes \<Rightarrow> bool" where
  "utf8_valid [] = True"
| "utf8_valid (a # bs) =
     (if a < 128 then utf8_valid bs
      else case bs of
        [] \<Rightarrow> False
      | b # cs \<Rightarrow>
          if 194 \<le> a \<and> a \<le> 223 then utf8_cont b \<and> utf8_valid cs
          else case cs of
            [] \<Rightarrow> False
          | c # ds \<Rightarrow>
              if 224 \<le> a \<and> a \<le> 239 then
                utf8_cont b \<and> (a = 224 \<longrightarrow> 160 \<le> b) \<and> (a = 237 \<longrightarrow> b \<le> 159) \<and>
                utf8_cont c \<and> utf8_valid ds
              else case ds of
                [] \<Rightarrow> False
              | d # es \<Rightarrow>
                  240 \<le> a \<and> a \<le> 244 \<and> utf8_cont b \<and> (a = 240 \<longrightarrow> 144 \<le> b) \<and>
                  (a = 244 \<longrightarrow> b \<le> 143) \<and> utf8_cont c \<and> utf8_cont d \<and> utf8_valid es)"

text \<open>\<open>format!("{n}")\<close> of an unsigned integer.\<close>

fun decimal :: "nat \<Rightarrow> bytes" where
  "decimal n = (if n < 10 then [] else decimal (n div 10)) @ [word_of_nat (48 + n mod 10)]"

declare decimal.simps [simp del]

lemma with_file_name_neq:
  assumes "path_file_name p = None \<or> (\<exists>old. path_file_name p = Some old \<and> name \<noteq> old)"
  shows "with_file_name p name \<noteq> p"
proof
  assume eq: "with_file_name p name = p"
  then have "p \<noteq> []" by (auto simp: with_file_name_def)
  moreover have "last p = Normal name"
    using eq by (metis last_snoc with_file_name_def)
  ultimately have "path_file_name p = Some name" by (simp add: path_file_name_def)
  then show False using assms by simp
qed

lemma with_file_name_parent:
  "path_file_name p \<noteq> None \<Longrightarrow> path_parent (with_file_name p name) = path_parent p"
  by (auto simp: with_file_name_def path_file_name_def path_parent_def split: path_component.splits)

section \<open>The file system\<close>

text \<open>
  \<open>fs_unsynced\<close>: files whose content is not on the disk; \<open>fs_replaced\<close>: what a name held when it was
  given to another file, while the directory is not synced; \<open>fs_unbound\<close>: names taken from a file in a
  directory that is not synced; \<open>fs_new_dirs\<close>: directories that were made in one.
\<close>

record fs =
  fs_files :: "path \<Rightarrow> bytes option"
  fs_dirs :: "path set"
  fs_cursor :: nat
  fs_unsynced :: "path set"
  fs_replaced :: "(path \<times> bytes option) set"
  fs_unbound :: "path set"
  fs_new_dirs :: "path set"

definition empty_fs :: fs where
  "empty_fs = \<lparr>fs_files = (\<lambda>_. None), fs_dirs = {}, fs_cursor = 0, fs_unsynced = {},
     fs_replaced = {}, fs_unbound = {}, fs_new_dirs = {}\<rparr>"

definition survives :: "fs \<Rightarrow> path \<Rightarrow> bytes option \<Rightarrow> bool" where
  "survives fs p c \<longleftrightarrow>
     c = fs_files fs p \<or> p \<in> fs_unsynced fs \<or> (p, c) \<in> fs_replaced fs \<or> p \<in> fs_unbound fs \<or>
     c = None \<and> (\<exists>d \<in> fs_new_dirs fs. strict_prefix d p)"

datatype io_outcome = Proceeds | Fails string nat | Kills nat

datatype io_stop = Failed ple_pack_io_error | Killed

type_synonym 'a io = "fs \<Rightarrow> io_outcome list \<Rightarrow> (io_stop + 'a) \<times> fs \<times> io_outcome list"

definition returnIO :: "'a \<Rightarrow> 'a io" where
  "returnIO x = (\<lambda>fs sch. (Inr x, fs, sch))"

definition bindIO :: "'a io \<Rightarrow> ('a \<Rightarrow> 'b io) \<Rightarrow> 'b io" where
  "bindIO m f = (\<lambda>fs sch. case m fs sch of
     (Inl e, fs', sch') \<Rightarrow> (Inl e, fs', sch')
   | (Inr x, fs', sch') \<Rightarrow> f x fs' sch')"

definition liftIO :: "ple_pack_io_error + 'a \<Rightarrow> 'a io" where
  "liftIO r = (\<lambda>fs sch. (map_err Failed r, fs, sch))"

text \<open>One call: its own effect, and how far it gets when it is interrupted.\<close>

definition syscall :: "(fs \<Rightarrow> string + 'a \<times> fs) \<Rightarrow> (nat \<Rightarrow> fs \<Rightarrow> fs) \<Rightarrow> 'a io" where
  "syscall effect progress = (\<lambda>fs sch.
     case sch of
       Fails msg n # rest \<Rightarrow> (Inl (Failed (Io msg)), progress n fs, rest)
     | Kills n # rest \<Rightarrow> (Inl Killed, progress n fs, rest)
     | _ \<Rightarrow> (case effect fs of
           Inl msg \<Rightarrow> (Inl (Failed (Io msg)), fs, tl sch)
         | Inr (x, fs') \<Rightarrow> (Inr x, fs', tl sch)))"

definition all_or_nothing :: "(fs \<Rightarrow> fs) \<Rightarrow> nat \<Rightarrow> fs \<Rightarrow> fs" where
  "all_or_nothing f n fs = (if n = 0 then fs else f fs)"

definition dir_exists :: "fs \<Rightarrow> path \<Rightarrow> bool" where
  "dir_exists fs p \<longleftrightarrow> p = [CurDir] \<or> p = [RootDir] \<or> p \<in> fs_dirs fs"

definition path_prefixes :: "path \<Rightarrow> path list" where
  "path_prefixes p = map (\<lambda>k. take (Suc k) p) [0..<length p]"

definition add_dirs :: "path list \<Rightarrow> fs \<Rightarrow> fs" where
  "add_dirs ps fs = fs\<lparr>fs_dirs := set ps \<union> fs_dirs fs,
     fs_new_dirs := set (filter (\<lambda>d. \<not> dir_exists fs d) ps) \<union> fs_new_dirs fs\<rparr>"

definition create_dir_all :: "path \<Rightarrow> unit io" where
  "create_dir_all p =
     (if p = [] then returnIO ()
      else syscall
        (\<lambda>fs. if list_ex (\<lambda>q. fs_files fs q \<noteq> None) (path_prefixes p) then Inl ''Not a directory''
              else Inr ((), add_dirs (path_prefixes p) fs))
        (\<lambda>n. add_dirs (take n (path_prefixes p))))"

definition put_file :: "path \<Rightarrow> bytes \<Rightarrow> fs \<Rightarrow> fs" where
  "put_file p c fs = fs\<lparr>fs_files := (fs_files fs)(p \<mapsto> c), fs_unsynced := insert p (fs_unsynced fs),
     fs_replaced := (if fs_files fs p = None then insert (p, None) (fs_replaced fs) else fs_replaced fs)\<rparr>"

definition update_file :: "path \<Rightarrow> (bytes \<Rightarrow> bytes) \<Rightarrow> fs \<Rightarrow> fs" where
  "update_file p f fs = (case fs_files fs p of None \<Rightarrow> fs | Some c \<Rightarrow> put_file p (f c) fs)"

text \<open>\<open>OpenOptions::new().read(true).write(true).create_new(true).open(p)\<close>\<close>

definition open_create_new :: "path \<Rightarrow> unit io" where
  "open_create_new p = syscall
     (\<lambda>fs. if fs_files fs p \<noteq> None \<or> dir_exists fs p then Inl ''File exists''
           else case path_parent p of
             None \<Rightarrow> Inl ''No such file or directory''
           | Some q \<Rightarrow>
               if q \<noteq> [] \<and> \<not> dir_exists fs q then Inl ''No such file or directory''
               else Inr ((), put_file p [] (fs\<lparr>fs_cursor := 0\<rparr>)))
     (all_or_nothing (\<lambda>fs. if fs_files fs p = None then put_file p [] fs else fs))"

definition resize :: "nat \<Rightarrow> bytes \<Rightarrow> bytes" where
  "resize n c = take n c @ replicate (n - length c) 0"

definition write_at :: "nat \<Rightarrow> bytes \<Rightarrow> bytes \<Rightarrow> bytes" where
  "write_at off ys c = put_at off ys (c @ replicate (off - length c) 0)"

text \<open>File offsets are signed 64-bit integers: larger lengths and positions are refused.\<close>

definition set_len :: "path \<Rightarrow> u64 \<Rightarrow> unit io" where
  "set_len p n = syscall
     (\<lambda>fs. if n \<ge> 9223372036854775808 then Inl ''Invalid argument''
           else Inr ((), update_file p (resize (unat n)) fs))
     (all_or_nothing (update_file p (resize (unat n))))"

definition seek_start :: "u64 \<Rightarrow> unit io" where
  "seek_start n = syscall
     (\<lambda>fs. if n \<ge> 9223372036854775808 then Inl ''Invalid argument''
           else Inr ((), fs\<lparr>fs_cursor := unat n\<rparr>))
     (\<lambda>_ fs. fs)"

definition write_all :: "path \<Rightarrow> bytes \<Rightarrow> unit io" where
  "write_all p ys = syscall
     (\<lambda>fs. Inr ((), update_file p (write_at (fs_cursor fs) ys)
                      (fs\<lparr>fs_cursor := fs_cursor fs + length ys\<rparr>)))
     (\<lambda>n fs. update_file p (write_at (fs_cursor fs) (take n ys)) fs)"

text \<open>\<open>file.sync_all()\<close> on the file or directory that was opened at \<open>p\<close>.\<close>

definition synced :: "path \<Rightarrow> fs \<Rightarrow> fs" where
  "synced p fs = fs\<lparr>fs_unsynced := fs_unsynced fs - {p},
     fs_replaced := Set.filter (\<lambda>e. path_parent (fst e) \<noteq> Some p) (fs_replaced fs),
     fs_unbound := Set.filter (\<lambda>q. path_parent q \<noteq> Some p) (fs_unbound fs),
     fs_new_dirs := Set.filter (\<lambda>q. path_parent q \<noteq> Some p) (fs_new_dirs fs)\<rparr>"

definition sync_all :: "path \<Rightarrow> unit io" where
  "sync_all p = syscall (\<lambda>fs. Inr ((), synced p fs)) (\<lambda>_ fs. fs)"

text \<open>
  \<open>fs::rename\<close>: the file changes its name. If the file that was at \<open>q\<close> was not synced, its name may
  still be found with anything.
\<close>

definition move_file :: "path \<Rightarrow> path \<Rightarrow> fs \<Rightarrow> fs" where
  "move_file p q fs = fs\<lparr>fs_files := (fs_files fs)(p := None, q := fs_files fs p),
     fs_unsynced := (if p \<in> fs_unsynced fs then insert q (fs_unsynced fs - {p}) else fs_unsynced fs - {q}),
     fs_replaced := insert (q, fs_files fs q) (fs_replaced fs),
     fs_unbound := insert p (if q \<in> fs_unsynced fs then insert q (fs_unbound fs) else fs_unbound fs)\<rparr>"

definition drop_file :: "path \<Rightarrow> fs \<Rightarrow> fs" where
  "drop_file p fs = fs\<lparr>fs_files := (fs_files fs)(p := None), fs_unsynced := fs_unsynced fs - {p},
     fs_unbound := insert p (fs_unbound fs)\<rparr>"

definition rename_file :: "path \<Rightarrow> path \<Rightarrow> unit io" where
  "rename_file p q = syscall
     (\<lambda>fs. if fs_files fs p = None \<or> q = [] then Inl ''No such file or directory''
           else if dir_exists fs q then Inl ''Is a directory''
           else Inr ((), move_file p q fs))
     (all_or_nothing (\<lambda>fs. if fs_files fs p = None then fs else move_file p q fs))"

definition remove_file :: "path \<Rightarrow> unit io" where
  "remove_file p = syscall
     (\<lambda>fs. if fs_files fs p = None then Inl ''No such file or directory''
           else Inr ((), drop_file p fs))
     (all_or_nothing (drop_file p))"

text \<open>\<open>File::open(p)\<close> for reading: the empty path names nothing.\<close>

definition open_read :: "path \<Rightarrow> unit io" where
  "open_read p = syscall
     (\<lambda>fs. if p = [] \<or> \<not> dir_exists fs p \<and> fs_files fs p = None
           then Inl ''No such file or directory'' else Inr ((), fs))
     (\<lambda>_ fs. fs)"

section \<open>Reasoning about sequences of calls\<close>

named_theorems io_rules \<open>proof rules of triples\<close>
named_theorems io_run \<open>evaluation when no outcome interferes\<close>

definition triple ::
    "(fs \<Rightarrow> bool) \<Rightarrow> 'a io \<Rightarrow> ('a \<Rightarrow> fs \<Rightarrow> bool) \<Rightarrow> (io_stop \<Rightarrow> fs \<Rightarrow> bool) \<Rightarrow> bool" where
  "triple P m Q E \<longleftrightarrow> (\<forall>fs sch. P fs \<longrightarrow> (case m fs sch of
     (r, fs', _) \<Rightarrow> (case r of Inl e \<Rightarrow> E e fs' | Inr x \<Rightarrow> Q x fs')))"

lemma tripleI:
  "(\<And>fs sch r fs' sch'. P fs \<Longrightarrow> m fs sch = (r, fs', sch') \<Longrightarrow>
     (case r of Inl e \<Rightarrow> E e fs' | Inr x \<Rightarrow> Q x fs')) \<Longrightarrow> triple P m Q E"
  unfolding triple_def by (auto split: prod.split)

lemma tripleD:
  "triple P m Q E \<Longrightarrow> P fs \<Longrightarrow> m fs sch = (r, fs', sch') \<Longrightarrow>
     (case r of Inl e \<Rightarrow> E e fs' | Inr x \<Rightarrow> Q x fs')"
  unfolding triple_def by (drule spec [of _ fs], drule spec [of _ sch]) (auto split: sum.splits)

lemma triple_bind [io_rules]:
  assumes "triple P m R E" and "\<And>x. triple (R x) (f x) Q E"
  shows "triple P (bindIO m f) Q E"
proof (rule tripleI)
  fix fs sch r fs' sch'
  assume P: "P fs" and run: "bindIO m f fs sch = (r, fs', sch')"
  obtain r1 fs1 sch1 where m: "m fs sch = (r1, fs1, sch1)" by (metis prod_cases3)
  show "case r of Inl e \<Rightarrow> E e fs' | Inr x \<Rightarrow> Q x fs'"
  proof (cases r1)
    case (Inl e)
    then show ?thesis using tripleD [OF assms(1) P m] run m by (auto simp: bindIO_def)
  next
    case (Inr x)
    then have "R x fs1" and "f x fs1 sch1 = (r, fs', sch')"
      using tripleD [OF assms(1) P m] run m by (simp_all add: bindIO_def)
    then show ?thesis by (rule tripleD [OF assms(2)])
  qed
qed

lemma triple_return [io_rules]: "(\<And>fs. P fs \<Longrightarrow> Q x fs) \<Longrightarrow> triple P (returnIO x) Q E"
  by (simp add: triple_def returnIO_def)

lemma triple_lift:
  "(\<And>x fs. r = Inr x \<Longrightarrow> P fs \<Longrightarrow> Q x fs) \<Longrightarrow> (\<And>e fs. r = Inl e \<Longrightarrow> P fs \<Longrightarrow> E (Failed e) fs) \<Longrightarrow>
     triple P (liftIO r) Q E"
  by (cases r) (simp_all add: triple_def liftIO_def)

lemma triple_lift_eq:
  "(\<And>e fs. P fs \<Longrightarrow> E e fs) \<Longrightarrow> triple P (liftIO r) (\<lambda>x fs. r = Inr x \<and> P fs) E"
  by (rule triple_lift) auto

lemma triple_guard: "(b \<Longrightarrow> triple P m Q E) \<Longrightarrow> triple (\<lambda>fs. b \<and> P fs) m Q E"
  by (cases b) (simp_all add: triple_def)

lemma triple_syscall:
  assumes "\<And>fs x fs'. P fs \<Longrightarrow> effect fs = Inr (x, fs') \<Longrightarrow> Q x fs'"
    and "\<And>fs msg. P fs \<Longrightarrow> effect fs = Inl msg \<Longrightarrow> E (Failed (Io msg)) fs"
    and "\<And>fs n e. P fs \<Longrightarrow> E e (progress n fs)"
  shows "triple P (syscall effect progress) Q E"
  using assms unfolding triple_def syscall_def
  by (auto split: list.splits io_outcome.splits sum.splits prod.splits)

lemma triple_conseq:
  assumes "triple P m Q E" and "\<And>fs. P' fs \<Longrightarrow> P fs" and "\<And>x fs. Q x fs \<Longrightarrow> Q' x fs"
    and "\<And>e fs. E e fs \<Longrightarrow> E' e fs"
  shows "triple P' m Q' E'"
proof (rule tripleI)
  fix fs sch r fs' sch'
  assume "P' fs" and run: "m fs sch = (r, fs', sch')"
  from tripleD [OF assms(1) assms(2) [OF this(1)] run]
  show "case r of Inl e \<Rightarrow> E' e fs' | Inr x \<Rightarrow> Q' x fs'"
    using assms(3,4) by (cases r) auto
qed

lemma triple_exists: "(\<And>c. triple (\<lambda>fs. P c fs) m Q E) \<Longrightarrow> triple (\<lambda>fs. \<exists>c. P c fs) m Q E"
  by (rule tripleI) (elim exE, rule tripleD)

lemma triple_conj:
  assumes "triple P m Q E" and "triple P' m Q' E'"
  shows "triple (\<lambda>fs. P fs \<and> P' fs) m (\<lambda>x fs. Q x fs \<and> Q' x fs) (\<lambda>e fs. E e fs \<and> E' e fs)"
proof (rule tripleI)
  fix fs sch r fs' sch'
  assume "P fs \<and> P' fs" and run: "m fs sch = (r, fs', sch')"
  then show "case r of Inl e \<Rightarrow> E e fs' \<and> E' e fs' | Inr x \<Rightarrow> Q x fs' \<and> Q' x fs'"
    using tripleD [OF assms(1) _ run] tripleD [OF assms(2) _ run] by (cases r) auto
qed

lemma bindIO_run [io_run]:
  "m fs sch = (Inr x, fs', sch') \<Longrightarrow> bindIO m f fs sch = f x fs' sch'"
  "m fs sch = (Inl e, fs', sch') \<Longrightarrow> bindIO m f fs sch = (Inl e, fs', sch')"
  by (simp_all add: bindIO_def)

lemma syscall_run [io_run]:
  "effect fs = Inr (x, fs') \<Longrightarrow> syscall effect progress fs [] = (Inr x, fs', [])"
  "effect fs = Inl msg \<Longrightarrow> syscall effect progress fs [] = (Inl (Failed (Io msg)), fs, [])"
  by (simp_all add: syscall_def)

lemma returnIO_run [io_run]: "returnIO x fs sch = (Inr x, fs, sch)"
  by (simp add: returnIO_def)

lemma liftIO_run [io_run]:
  "liftIO (Inr x) fs sch = (Inr x, fs, sch)"
  "liftIO (Inl e) fs sch = (Inl (Failed e), fs, sch)"
  by (simp_all add: liftIO_def)

lemma put_file_sel [simp]:
  "fs_files (put_file p c fs) = (fs_files fs)(p \<mapsto> c)"
  "fs_dirs (put_file p c fs) = fs_dirs fs"
  "fs_cursor (put_file p c fs) = fs_cursor fs"
  by (simp_all add: put_file_def)

lemma drop_file_sel [simp]:
  "fs_files (drop_file p fs) = (fs_files fs)(p := None)"
  "fs_dirs (drop_file p fs) = fs_dirs fs"
  by (simp_all add: drop_file_def)

lemma synced_sel [simp]:
  "fs_files (synced p fs) = fs_files fs"
  "fs_dirs (synced p fs) = fs_dirs fs"
  "fs_cursor (synced p fs) = fs_cursor fs"
  "p \<notin> fs_unsynced (synced p fs)"
  by (simp_all add: synced_def)

lemma update_file_sel [simp]:
  "q \<noteq> p \<Longrightarrow> fs_files (update_file p f fs) q = fs_files fs q"
  "fs_files fs p = Some c \<Longrightarrow> fs_files (update_file p f fs) p = Some (f c)"
  "fs_dirs (update_file p f fs) = fs_dirs fs"
  "fs_cursor (update_file p f fs) = fs_cursor fs"
  by (simp_all add: update_file_def split: option.split)

lemma move_file_sel [simp]:
  "fs_files (move_file p q fs) = (fs_files fs)(p := None, q := fs_files fs p)"
  "fs_dirs (move_file p q fs) = fs_dirs fs"
  by (simp_all add: move_file_def)

lemma add_dirs_sel [simp]:
  "fs_files (add_dirs ps fs) = fs_files fs"
  "fs_dirs (add_dirs ps fs) = set ps \<union> fs_dirs fs"
  "fs_cursor (add_dirs ps fs) = fs_cursor fs"
  by (simp_all add: add_dirs_def)

section \<open>Runs without interference\<close>

text \<open>\<open>runs P m Q\<close>: from a state with \<open>P\<close>, when no outcome interferes, \<open>m\<close> returns with \<open>Q\<close>.\<close>

definition runs :: "(fs \<Rightarrow> bool) \<Rightarrow> 'a io \<Rightarrow> ('a \<Rightarrow> fs \<Rightarrow> bool) \<Rightarrow> bool" where
  "runs P m Q \<longleftrightarrow> (\<forall>fs. P fs \<longrightarrow> (\<exists>x fs'. m fs [] = (Inr x, fs', []) \<and> Q x fs'))"

lemma runsI:
  "(\<And>fs. P fs \<Longrightarrow> \<exists>x fs'. m fs [] = (Inr x, fs', []) \<and> Q x fs') \<Longrightarrow> runs P m Q"
  by (simp add: runs_def)

lemma runsD: "runs P m Q \<Longrightarrow> P fs \<Longrightarrow> \<exists>x fs'. m fs [] = (Inr x, fs', []) \<and> Q x fs'"
  by (simp add: runs_def)

lemma runs_bind:
  assumes "runs P m R" and "\<And>x. runs (R x) (f x) Q"
  shows "runs P (bindIO m f) Q"
proof (rule runsI)
  fix fs
  assume "P fs"
  from runsD [OF assms(1) this] obtain x fs1 where "m fs [] = (Inr x, fs1, [])" "R x fs1" by blast
  with runsD [OF assms(2)] show "\<exists>y fs'. bindIO m f fs [] = (Inr y, fs', []) \<and> Q y fs'"
    by (simp add: bindIO_run)
qed

lemma runs_return: "(\<And>fs. P fs \<Longrightarrow> Q x fs) \<Longrightarrow> runs P (returnIO x) Q"
  by (rule runsI) (simp add: returnIO_run)

lemma runs_lift_bind: "r = Inr x \<Longrightarrow> runs P (f x) Q \<Longrightarrow> runs P (bindIO (liftIO r) f) Q"
  by (simp add: runs_def bindIO_def liftIO_def)

lemma runs_syscall:
  "(\<And>fs. P fs \<Longrightarrow> \<exists>x fs'. effect fs = Inr (x, fs') \<and> Q x fs') \<Longrightarrow> runs P (syscall effect progress) Q"
  by (rule runsI) (fastforce simp: syscall_def)

lemma runs_sync_all: "(\<And>fs. P fs \<Longrightarrow> P (synced p fs)) \<Longrightarrow> runs P (sync_all p) (\<lambda>_. P)"
  unfolding sync_all_def by (rule runs_syscall) simp

lemma runs_with_triple:
  assumes "runs P m Q" and "triple P' m Q' E"
  shows "runs (\<lambda>fs. P fs \<and> P' fs) m (\<lambda>x fs. Q x fs \<and> Q' x fs)"
proof (rule runsI)
  fix fs
  assume "P fs \<and> P' fs"
  moreover from this runsD [OF assms(1)] obtain x fs' where
    "m fs [] = (Inr x, fs', [])" "Q x fs'" by blast
  ultimately show "\<exists>x fs'. m fs [] = (Inr x, fs', []) \<and> Q x fs' \<and> Q' x fs'"
    using tripleD [OF assms(2)] by fastforce
qed

text \<open>\<open>stops P m e Q\<close>: when no outcome interferes, \<open>m\<close> stops with \<open>e\<close> in a state with \<open>Q\<close>.\<close>

definition stops :: "(fs \<Rightarrow> bool) \<Rightarrow> 'a io \<Rightarrow> io_stop \<Rightarrow> (fs \<Rightarrow> bool) \<Rightarrow> bool" where
  "stops P m e Q \<longleftrightarrow> (\<forall>fs. P fs \<longrightarrow> (\<exists>fs'. m fs [] = (Inl e, fs', []) \<and> Q fs'))"

lemma stops_bind:
  assumes "runs P m R" and "\<And>x. stops (R x) (f x) e Q"
  shows "stops P (bindIO m f) e Q"
  unfolding stops_def
proof (intro allI impI)
  fix fs
  assume "P fs"
  from runsD [OF assms(1) this] obtain x fs1 where "m fs [] = (Inr x, fs1, [])" "R x fs1" by blast
  then show "\<exists>fs'. bindIO m f fs [] = (Inl e, fs', []) \<and> Q fs'"
    using assms(2) [of x] by (simp add: stops_def bindIO_run)
qed

lemma stops_first:
  "(\<And>fs. P fs \<Longrightarrow> m fs [] = (Inl e, fs, []) \<and> Q fs) \<Longrightarrow> stops P (bindIO m f) e Q"
  by (simp add: stops_def bindIO_run)

end
