(* ===== verification/PleWriter.thy ===== *)
theory PleWriter
  imports PleLayout PleSource FileIo
begin

text \<open>
  The atomic sidecar writer (\<open>crates/gb10x-ple/src/writer.rs\<close>).

  \<open>prepare_sidecar\<close> is everything \<open>write_overlay\<close> computes before it touches the file system: the
  sorted index, its digest, the offsets and the two headers. \<open>publish_sidecar\<close> is the closure that
  creates the temporary file, fills it, renames it and syncs the directory; \<open>write_overlay\<close> runs
  both and removes the temporary file when the closure fails. The process id and the clock that
  name the temporary file, and the digest function, are arguments.

  \<open>sidecar_image\<close> is the content a successful run publishes, as a pure function of the source and
  the plan. \<open>published_or_old\<close> is the state every run leaves behind, whatever its calls do.
\<close>

section \<open>Preparation\<close>

record write_report =
  wr_hot_rows :: u64
  wr_index_offset :: u64
  wr_index_bytes :: u64
  wr_overlay_bytes :: u64
  wr_file_bytes :: u64

definition validate_source_plan :: "row_source \<Rightarrow> layout_plan \<Rightarrow> ple_pack_io_error + unit" where
  "validate_source_plan src plan =
     (if src_row_count src \<noteq> lp_row_count plan
      then Inl (Format ''source and layout row counts differ'')
      else if src_row_bytes src \<noteq> lp_row_bytes plan
      then Inl (Format ''source and layout row widths differ'')
      else if src_row_count src = 0 \<or> src_row_bytes src = 0
      then Inl (Format ''source geometry is empty'')
      else Inr ())"

definition overlay_storage_bytes :: "layout_plan \<Rightarrow> ple_pack_io_error + u64" where
  "overlay_storage_bytes plan =
     (if lp_placements plan = [] then Inr 0
      else ok_or
        (Option.bind (checked_add (pl_block_id (last (lp_placements plan))) 1)
           (\<lambda>blocks. checked_mul blocks (ucast (lp_block_bytes plan))))
        (Format ''hot overlay storage size overflow''))"

definition align_up :: "u64 \<Rightarrow> u64 \<Rightarrow> ple_pack_io_error + u64" where
  "align_up v alignment =
     (if alignment = 0 then Inl (Format ''zero sidecar alignment'')
      else (let remainder = v mod alignment
            in if remainder = 0 then Inr v
               else ok_or (checked_add v (alignment - remainder))
                 (Format ''sidecar alignment overflow'')))"

text \<open>\<open>block_id * block_bytes + offset_in_block\<close>, with the message of the place that computes it\<close>

definition placement_offset ::
    "layout_plan \<Rightarrow> hot_overlay_placement \<Rightarrow> string \<Rightarrow> ple_pack_io_error + u64" where
  "placement_offset plan pl msg =
     ok_or (Option.bind (checked_mul (pl_block_id pl) (ucast (lp_block_bytes plan)))
              (\<lambda>base. checked_add base (ucast (pl_offset_in_block pl))))
       (Format msg)"

fun index_entries ::
    "layout_plan \<Rightarrow> hot_overlay_placement list \<Rightarrow> ple_pack_io_error + (u32 \<times> u64) list" where
  "index_entries plan [] = Inr []"
| "index_entries plan (pl # pls) =
     bindE (placement_offset plan pl ''hot overlay offset overflow'') (\<lambda>overlay_offset.
     bindE (index_entries plan pls) (\<lambda>entries.
     Inr ((pl_logical_row pl, overlay_offset) # entries)))"

definition encode_index :: "(u32 \<times> u64) list \<Rightarrow> bytes" where
  "encode_index entries = concat (map (\<lambda>(row, off). encode_index_entry row off) entries)"

record sidecar_parts =
  sp_entries :: "(u32 \<times> u64) list"
  sp_payload :: bytes
  sp_header :: disk_header
  sp_file_bytes :: u64

definition prepare_sidecar ::
    "(bytes \<Rightarrow> bytes) \<Rightarrow> row_source \<Rightarrow> layout_plan \<Rightarrow> ple_pack_io_error + sidecar_parts" where
  "prepare_sidecar sha256 src plan =
     bindE (validate_source_plan src plan) (\<lambda>_.
     bindE (index_entries plan (lp_placements plan)) (\<lambda>unsorted.
     (let entries = sort_key fst unsorted
      in if list_ex (\<lambda>(a, b). fst a \<ge> fst b) (pairs entries)
         then Inl (Format ''hot overlay logical rows are not unique'')
         else
         bindE (ok_or (checked_mul (word_of_nat (length entries) :: usize) INDEX_ENTRY_BYTES)
                  (Format ''hot index allocation overflow'')) (\<lambda>_.
         (let payload = encode_index entries;
              ib = word_of_nat (length payload) :: u64
          in bindE (ok_or (checked_add DISK_HEADER_BYTES ib) (Format ''hot index end overflow''))
               (\<lambda>index_end.
             bindE (align_up index_end (ucast (lp_block_bytes plan))) (\<lambda>doff.
             bindE (overlay_storage_bytes plan) (\<lambda>ob.
             bindE (map_err Layout (ple_pack_header_new (src_digest src) (src_row_count src)
                      (src_row_bytes src) (lp_block_bytes plan) (sha256 payload))) (\<lambda>lg.
             bindE (disk_header_new lg (word_of_nat (length entries)) ib doff ob) (\<lambda>header.
             bindE (ok_or (checked_add doff ob) (Format ''sidecar file size overflow''))
               (\<lambda>file_bytes.
             Inr \<lparr>sp_entries = entries, sp_payload = payload, sp_header = header,
                  sp_file_bytes = file_bytes\<rparr>)))))))))))"

section \<open>The temporary file\<close>

definition temporary_path :: "path \<Rightarrow> nat \<Rightarrow> nat \<Rightarrow> path" where
  "temporary_path path pid nonce =
     (let file_name =
        (case path_file_name path of
           Some name \<Rightarrow> if utf8_valid name then name else [112, 108, 101, 112, 97, 99, 107]
         | None \<Rightarrow> [112, 108, 101, 112, 97, 99, 107])
      in with_file_name path
           ([46] @ file_name @ [46, 116, 109, 112, 45] @ decimal pid @ [45] @ decimal nonce))"

definition sync_parent_directory :: "path \<Rightarrow> unit io" where
  "sync_parent_directory path =
     (let parent = (case path_parent path of Some parent \<Rightarrow> parent | None \<Rightarrow> [CurDir])
      in bindIO (open_read parent) (\<lambda>_. sync_all parent))"

fun write_rows ::
    "path \<Rightarrow> row_source \<Rightarrow> layout_plan \<Rightarrow> u64 \<Rightarrow> hot_overlay_placement list \<Rightarrow> bytes \<Rightarrow> unit io" where
  "write_rows temp src plan doff [] row = returnIO ()"
| "write_rows temp src plan doff (pl # pls) row =
     bindIO (liftIO (src_read_exact_row src (pl_logical_row pl) row)) (\<lambda>row.
     bindIO (liftIO (placement_offset plan pl ''hot overlay write offset overflow''))
       (\<lambda>overlay_offset.
     bindIO (liftIO (ok_or (checked_add doff overlay_offset)
               (Format ''hot overlay absolute offset overflow''))) (\<lambda>absolute.
     bindIO (seek_start absolute) (\<lambda>_.
     bindIO (write_all temp row) (\<lambda>_.
     write_rows temp src plan doff pls row)))))"

definition fill_sidecar ::
    "path \<Rightarrow> row_source \<Rightarrow> layout_plan \<Rightarrow> sidecar_parts \<Rightarrow> unit io" where
  "fill_sidecar temp src plan parts =
     bindIO (set_len temp (sp_file_bytes parts)) (\<lambda>_.
     bindIO (seek_start 0) (\<lambda>_.
     bindIO (write_all temp (disk_header_encode (sp_header parts))) (\<lambda>_.
     bindIO (seek_start DISK_HEADER_BYTES) (\<lambda>_.
     bindIO (write_all temp (sp_payload parts)) (\<lambda>_.
     write_rows temp src plan (data_offset (sp_header parts)) (lp_placements plan)
       (replicate (unat (src_row_bytes src)) 0))))))"

definition publish_sidecar ::
    "path \<Rightarrow> path \<Rightarrow> row_source \<Rightarrow> layout_plan \<Rightarrow> sidecar_parts \<Rightarrow> write_report io" where
  "publish_sidecar path temp src plan parts =
     bindIO (case path_parent path of Some parent \<Rightarrow> create_dir_all parent | None \<Rightarrow> returnIO ())
       (\<lambda>_.
     bindIO (open_create_new temp) (\<lambda>_.
     bindIO (fill_sidecar temp src plan parts) (\<lambda>_.
     bindIO (sync_all temp) (\<lambda>_.
     bindIO (rename_file temp path) (\<lambda>_.
     bindIO (sync_parent_directory path) (\<lambda>_.
     returnIO
       \<lparr>wr_hot_rows = word_of_nat (length (sp_entries parts)),
        wr_index_offset = DISK_HEADER_BYTES,
        wr_index_bytes = index_bytes (sp_header parts),
        wr_overlay_bytes = overlay_bytes (sp_header parts),
        wr_file_bytes = sp_file_bytes parts\<rparr>))))))"

text \<open>Only a process that is still running cleans up.\<close>

definition write_overlay ::
    "(bytes \<Rightarrow> bytes) \<Rightarrow> path \<Rightarrow> nat \<Rightarrow> nat \<Rightarrow> row_source \<Rightarrow> layout_plan \<Rightarrow> write_report io" where
  "write_overlay sha256 path pid nonce src plan =
     bindIO (liftIO (prepare_sidecar sha256 src plan)) (\<lambda>parts fs sch.
       let temp = temporary_path path pid nonce
       in case publish_sidecar path temp src plan parts fs sch of
            (Inl (Failed e), fs', sch') \<Rightarrow>
              (case remove_file temp fs' sch' of
                 (Inl Killed, fs'', sch'') \<Rightarrow> (Inl Killed, fs'', sch'')
               | (_, fs'', sch'') \<Rightarrow> (Inl (Failed e), fs'', sch''))
          | other \<Rightarrow> other)"

section \<open>The content that is published\<close>

fun fill_rows ::
    "row_source \<Rightarrow> layout_plan \<Rightarrow> u64 \<Rightarrow> hot_overlay_placement list \<Rightarrow> bytes \<Rightarrow> bytes
      \<Rightarrow> ple_pack_io_error + bytes" where
  "fill_rows src plan doff [] row c = Inr c"
| "fill_rows src plan doff (pl # pls) row c =
     bindE (src_read_exact_row src (pl_logical_row pl) row) (\<lambda>row.
     bindE (placement_offset plan pl ''hot overlay write offset overflow'') (\<lambda>off.
     bindE (ok_or (checked_add doff off) (Format ''hot overlay absolute offset overflow''))
       (\<lambda>absolute. fill_rows src plan doff pls row (write_at (unat absolute) row c))))"

definition parts_image ::
    "row_source \<Rightarrow> layout_plan \<Rightarrow> sidecar_parts \<Rightarrow> ple_pack_io_error + bytes" where
  "parts_image src plan parts =
     fill_rows src plan (data_offset (sp_header parts)) (lp_placements plan)
       (replicate (unat (src_row_bytes src)) 0)
       (write_at 128 (sp_payload parts)
         (write_at 0 (disk_header_encode (sp_header parts)) (resize (unat (sp_file_bytes parts)) [])))"

definition sidecar_image ::
    "(bytes \<Rightarrow> bytes) \<Rightarrow> row_source \<Rightarrow> layout_plan \<Rightarrow> ple_pack_io_error + bytes" where
  "sidecar_image sha256 src plan =
     bindE (prepare_sidecar sha256 src plan) (parts_image src plan)"

section \<open>Whatever the calls do\<close>

text \<open>Only the temporary file differs from the files at the start.\<close>

definition others_kept :: "path \<Rightarrow> fs \<Rightarrow> fs \<Rightarrow> bool" where
  "others_kept temp fs0 fs \<longleftrightarrow> (\<forall>q. q \<noteq> temp \<longrightarrow> fs_files fs q = fs_files fs0 q)"

definition published_or_old ::
    "path \<Rightarrow> path \<Rightarrow> fs \<Rightarrow> ple_pack_io_error + bytes \<Rightarrow> fs \<Rightarrow> bool" where
  "published_or_old path temp fs0 img fs \<longleftrightarrow>
     (\<forall>q. q \<noteq> path \<longrightarrow> q \<noteq> temp \<longrightarrow> fs_files fs q = fs_files fs0 q) \<and>
     (fs_files fs path = fs_files fs0 path \<or> (\<exists>c. img = Inr c \<and> fs_files fs path = Some c))"

lemma utf8_valid_ascii: "list_all (\<lambda>b. b < 128) bs \<Longrightarrow> utf8_valid bs"
  by (induction bs) simp_all

lemma utf8_valid_ascii_append: "list_all (\<lambda>b. b < 128) bs \<Longrightarrow> utf8_valid (bs @ cs) = utf8_valid cs"
  by (induction bs) simp_all

lemma decimal_ascii: "list_all (\<lambda>b. b < 128) (decimal n)"
proof (induction n rule: decimal.induct)
  case (1 n)
  have "48 + n mod 10 < 128" by (simp add: less_le_trans [OF mod_less_divisor])
  then have "(word_of_nat (48 + n mod 10) :: u8) < 128"
    by (simp only: word_less_nat_alt unat_of_nat) simp
  then show ?case using 1 by (subst decimal.simps) simp
qed

lemma temporary_path_neq: "temporary_path path pid nonce \<noteq> path"
proof -
  have "utf8_valid (decimal pid @ 45 # decimal nonce)"
    using decimal_ascii by (simp add: utf8_valid_ascii_append utf8_valid_ascii)
  then show ?thesis
    unfolding temporary_path_def Let_def
    by (intro with_file_name_neq) (auto split: option.split dest: arg_cong [where f = length])
qed

text \<open>Calls on the temporary file leave the other files alone, even when interrupted.\<close>

lemma others_kept_update [simp]:
  "others_kept temp fs0 (update_file temp f fs) \<longleftrightarrow> others_kept temp fs0 fs"
  by (simp add: others_kept_def)

lemma others_kept_frame [simp]:
  "others_kept temp fs0 (put_file temp c fs) \<longleftrightarrow> others_kept temp fs0 fs"
  "others_kept temp fs0 (add_dirs ps fs) \<longleftrightarrow> others_kept temp fs0 fs"
  "others_kept temp fs0 (fs\<lparr>fs_cursor := n\<rparr>) \<longleftrightarrow> others_kept temp fs0 fs"
  "others_kept temp fs0 (synced p fs) \<longleftrightarrow> others_kept temp fs0 fs"
  by (simp_all add: others_kept_def)

lemma create_dir_all_triple:
  "triple (others_kept temp fs0) (create_dir_all p) (\<lambda>_. others_kept temp fs0)
     (\<lambda>_. others_kept temp fs0)"
  unfolding create_dir_all_def
  by (auto intro!: triple_return triple_syscall split: if_splits)

lemma make_parent_triple:
  "triple (others_kept temp fs0)
     (case path_parent path of Some parent \<Rightarrow> create_dir_all parent | None \<Rightarrow> returnIO ())
     (\<lambda>_. others_kept temp fs0) (\<lambda>_. others_kept temp fs0)"
  by (auto split: option.split intro: create_dir_all_triple triple_return)

lemma open_create_new_triple:
  "triple (others_kept temp fs0) (open_create_new temp)
     (\<lambda>_ fs. others_kept temp fs0 fs \<and> fs_files fs temp = Some []) (\<lambda>_. others_kept temp fs0)"
  unfolding open_create_new_def
  by (rule triple_syscall) (auto simp: all_or_nothing_def split: if_splits option.splits)

lemma set_len_triple:
  "triple (\<lambda>fs. others_kept temp fs0 fs \<and> fs_files fs temp = Some c) (set_len temp n)
     (\<lambda>_ fs. others_kept temp fs0 fs \<and> fs_files fs temp = Some (resize (unat n) c))
     (\<lambda>_. others_kept temp fs0)"
  unfolding set_len_def
  by (rule triple_syscall) (auto simp: all_or_nothing_def split: if_splits)

lemma seek_triple:
  "triple (\<lambda>fs. others_kept temp fs0 fs \<and> fs_files fs temp = c) (seek_start n)
     (\<lambda>_ fs. others_kept temp fs0 fs \<and> fs_files fs temp = c \<and> fs_cursor fs = unat n)
     (\<lambda>_. others_kept temp fs0)"
  unfolding seek_start_def
  by (rule triple_syscall) (auto split: if_splits)

lemma write_all_triple:
  "triple (\<lambda>fs. others_kept temp fs0 fs \<and> fs_files fs temp = Some c \<and> fs_cursor fs = n)
     (write_all temp ys)
     (\<lambda>_ fs. others_kept temp fs0 fs \<and> fs_files fs temp = Some (write_at n ys c))
     (\<lambda>_. others_kept temp fs0)"
  unfolding write_all_def by (rule triple_syscall) auto

lemma sync_all_triple:
  "(\<And>e fs. P fs \<Longrightarrow> E e fs) \<Longrightarrow> (\<And>fs. P fs \<Longrightarrow> P (synced p fs)) \<Longrightarrow> triple P (sync_all p) (\<lambda>_. P) E"
  unfolding sync_all_def by (rule triple_syscall) auto

text \<open>A seek and the write after it are one positioned write.\<close>

lemma positioned_write_triple:
  assumes "triple (\<lambda>fs. others_kept temp fs0 fs \<and> fs_files fs temp = Some (write_at (unat n) ys c)) m Q
     (\<lambda>_. others_kept temp fs0)"
  shows "triple (\<lambda>fs. others_kept temp fs0 fs \<and> fs_files fs temp = Some c)
     (bindIO (seek_start n) (\<lambda>_. bindIO (write_all temp ys) (\<lambda>_. m))) Q (\<lambda>_. others_kept temp fs0)"
  by (rule triple_bind [OF seek_triple],
      rule triple_bind [OF triple_conseq [OF write_all_triple [where n = "unat n" and c = c]]])
     (use assms in auto)

lemma write_rows_triple:
  "triple (\<lambda>fs. others_kept temp fs0 fs \<and> fs_files fs temp = Some c)
     (write_rows temp src plan doff pls row)
     (\<lambda>_ fs. others_kept temp fs0 fs \<and>
        (\<exists>c'. fill_rows src plan doff pls row c = Inr c' \<and> fs_files fs temp = Some c'))
     (\<lambda>_. others_kept temp fs0)"
proof (induction pls arbitrary: row c)
  case Nil
  show ?case by (auto intro!: triple_return)
next
  case (Cons pl pls)
  let ?E = "\<lambda>_. others_kept temp fs0"
  show ?case
    unfolding write_rows.simps
    apply (rule triple_bind [OF triple_lift_eq], blast, rule triple_guard)
    apply (rule triple_bind [OF triple_lift_eq], blast, rule triple_guard)
    apply (rule triple_bind [OF triple_lift_eq], blast, rule triple_guard)
    apply (rule positioned_write_triple)
    apply (rule triple_conseq [OF Cons.IH])
      apply (auto simp: result_simps)
    done
qed

text \<open>The rename is the only call that touches the final path.\<close>

definition published :: "path \<Rightarrow> path \<Rightarrow> fs \<Rightarrow> ple_pack_io_error + bytes \<Rightarrow> fs \<Rightarrow> bool" where
  "published path temp fs0 img fs \<longleftrightarrow>
     (\<forall>q. q \<noteq> path \<longrightarrow> q \<noteq> temp \<longrightarrow> fs_files fs q = fs_files fs0 q) \<and>
     (\<exists>c. img = Inr c \<and> fs_files fs path = Some c) \<and> fs_files fs temp = None"

lemma others_kept_safe:
  "path \<noteq> temp \<Longrightarrow> others_kept temp fs0 fs \<Longrightarrow> published_or_old path temp fs0 img fs"
  by (auto simp: others_kept_def published_or_old_def)

lemma published_safe: "published path temp fs0 img fs \<Longrightarrow> published_or_old path temp fs0 img fs"
  by (auto simp: published_def published_or_old_def)

lemma rename_triple:
  assumes "path \<noteq> temp"
  shows "triple (\<lambda>fs. others_kept temp fs0 fs \<and> (\<exists>c. img = Inr c \<and> fs_files fs temp = Some c))
    (rename_file temp path) (\<lambda>_. published path temp fs0 img)
    (\<lambda>_. published_or_old path temp fs0 img)"
  unfolding rename_file_def
  using assms
  by (intro triple_syscall)
     (auto simp: others_kept_def published_def published_or_old_def all_or_nothing_def
       split: if_splits)

lemma sync_parent_triple:
  "(\<And>e fs. P fs \<Longrightarrow> E e fs) \<Longrightarrow> (\<And>p fs. P fs \<Longrightarrow> P (synced p fs)) \<Longrightarrow>
     triple P (sync_parent_directory path) (\<lambda>_. P) E"
  unfolding sync_parent_directory_def open_read_def Let_def
  by (rule triple_bind [OF triple_syscall sync_all_triple]) (auto split: if_splits)

text \<open>Filling the temporary file: what it holds just before the rename is the image.\<close>

lemma fill_triple:
  "triple (\<lambda>fs. others_kept temp fs0 fs \<and> fs_files fs temp = Some [])
     (fill_sidecar temp src plan parts)
     (\<lambda>_ fs. others_kept temp fs0 fs \<and>
        (\<exists>c. parts_image src plan parts = Inr c \<and> fs_files fs temp = Some c))
     (\<lambda>_. others_kept temp fs0)"
  unfolding fill_sidecar_def
  apply (rule triple_bind [OF set_len_triple])
  apply (rule positioned_write_triple, rule positioned_write_triple)
  apply (rule triple_conseq [OF write_rows_triple])
    apply (simp_all add: parts_image_def DISK_HEADER_BYTES_def)
  done

lemma publish_triple:
  assumes "path \<noteq> temp"
  shows "triple (others_kept temp fs0) (publish_sidecar path temp src plan parts)
     (\<lambda>_. published path temp fs0 (parts_image src plan parts))
     (\<lambda>_. published_or_old path temp fs0 (parts_image src plan parts))"
proof -
  let ?img = "parts_image src plan parts"
  have safe: "triple P m Q (\<lambda>_. published_or_old path temp fs0 ?img)"
    if "triple P m Q (\<lambda>_. others_kept temp fs0)" for P Q and m :: "unit io"
    by (rule triple_conseq [OF that]) (auto intro: others_kept_safe [OF assms])
  show ?thesis
    unfolding publish_sidecar_def
    apply (rule triple_bind [OF safe [OF make_parent_triple]])
    apply (rule triple_bind [OF safe [OF open_create_new_triple]])
    apply (rule triple_bind [OF safe [OF fill_triple]])
    apply (rule triple_bind [OF sync_all_triple])
      apply (blast intro: others_kept_safe [OF assms])
     apply simp
    apply (rule triple_bind [OF rename_triple [OF assms]])
    apply (rule triple_bind [OF sync_parent_triple])
      apply (rule published_safe, assumption)
     apply (simp add: published_def)
    apply (rule triple_return, assumption)
    done
qed

lemma remove_temp_triple:
  "triple (published_or_old path temp fs0 img) (remove_file temp) (\<lambda>_. published_or_old path temp fs0 img)
     (\<lambda>_. published_or_old path temp fs0 img)" if "path \<noteq> temp"
  using that unfolding remove_file_def
  by (intro triple_syscall) (auto simp: published_or_old_def all_or_nothing_def split: if_splits)

text \<open>The ways a run can go, and what holds after every one of them.\<close>

lemma write_overlay_cases [consumes 1, case_names refused written stopped]:
  assumes "write_overlay sha256 path pid nonce src plan fs sch = (r, fs', sch')"
  obtains e where "prepare_sidecar sha256 src plan = Inl e" and "r = Inl (Failed e)" and "fs' = fs"
  | parts report where "prepare_sidecar sha256 src plan = Inr parts" and "r = Inr report"
      and "publish_sidecar path (temporary_path path pid nonce) src plan parts fs sch = (Inr report, fs', sch')"
  | parts e e1 fs1 sch1 where "prepare_sidecar sha256 src plan = Inr parts" and "r = Inl e"
      and "publish_sidecar path (temporary_path path pid nonce) src plan parts fs sch = (Inl e1, fs1, sch1)"
      and "fs' = fs1 \<or> (\<exists>r2. remove_file (temporary_path path pid nonce) fs1 sch1 = (r2, fs', sch'))"
proof (cases "prepare_sidecar sha256 src plan")
  case (Inl e)
  then show ?thesis using assms that(1) by (simp add: write_overlay_def bindIO_def liftIO_def)
next
  case (Inr parts)
  let ?temp = "temporary_path path pid nonce"
  obtain r1 fs1 sch1 where pub: "publish_sidecar path ?temp src plan parts fs sch = (r1, fs1, sch1)"
    by (metis prod_cases3)
  obtain r2 fs2 sch2 where rem: "remove_file ?temp fs1 sch1 = (r2, fs2, sch2)"
    by (metis prod_cases3)
  show ?thesis
    using assms that(2,3) Inr pub rem
    by (cases r1) (auto simp: write_overlay_def bindIO_def liftIO_def Let_def
        split: sum.splits io_stop.splits)
qed

lemma write_overlay_triple:
  assumes "write_overlay sha256 path pid nonce src plan fs sch = (r, fs', sch')"
    and "\<And>parts. prepare_sidecar sha256 src plan = Inr parts \<Longrightarrow>
      triple P (publish_sidecar path (temporary_path path pid nonce) src plan parts) (\<lambda>_. Q) (\<lambda>_. E)"
    and "triple E (remove_file (temporary_path path pid nonce)) (\<lambda>_. E) (\<lambda>_. E)"
    and "P fs" and "P fs \<Longrightarrow> E fs" and "\<And>fs. Q fs \<Longrightarrow> E fs"
  shows "E fs' \<and> (\<forall>report. r = Inr report \<longrightarrow> Q fs')"
  using assms(1)
proof (cases rule: write_overlay_cases)
  case (stopped parts e e1 fs1 sch1)
  then have "E fs1" using tripleD [OF assms(2,4)] by fastforce
  then have "E fs'" using stopped(4) tripleD [OF assms(3)] by (fastforce split: sum.splits)
  then show ?thesis using stopped(2) by simp
next
  case (written parts report)
  then have "Q fs'" using tripleD [OF assms(2,4)] by fastforce
  then show ?thesis using assms(6) by simp
qed (use assms(4,5) in simp)

lemma write_overlay_outcomes:
  assumes "write_overlay sha256 path pid nonce src plan fs sch = (r, fs', sch')"
  shows "published_or_old path (temporary_path path pid nonce) fs (sidecar_image sha256 src plan) fs'"
    and "r = Inr report \<Longrightarrow>
      published path (temporary_path path pid nonce) fs (sidecar_image sha256 src plan) fs'"
proof -
  let ?temp = "temporary_path path pid nonce"
  let ?img = "sidecar_image sha256 src plan"
  have neq: "path \<noteq> ?temp" using temporary_path_neq [of path pid nonce] by simp
  have "triple (others_kept ?temp fs) (publish_sidecar path ?temp src plan parts)
      (\<lambda>_. published path ?temp fs ?img) (\<lambda>_. published_or_old path ?temp fs ?img)"
    if "prepare_sidecar sha256 src plan = Inr parts" for parts
    using publish_triple [OF neq, of fs src plan parts] that by (simp add: sidecar_image_def)
  from write_overlay_triple [OF assms this remove_temp_triple [OF neq]]
  have "published_or_old path ?temp fs ?img fs' \<and> (\<forall>report. r = Inr report \<longrightarrow> published path ?temp fs ?img fs')"
    using others_kept_safe [OF neq] published_safe by (simp add: others_kept_def)
  then show "published_or_old path ?temp fs ?img fs'"
    and "r = Inr report \<Longrightarrow> published path ?temp fs ?img fs'"
    by simp_all
qed

section \<open>Properties\<close>

text \<open>
  C3. Publication is atomic. Whatever the source answers and whatever the file system does (any
  call may fail or be the last one of a killed process, at any point), the destination holds
  either what it held before or the complete image of the plan, and no file but the destination
  and the temporary file changes. When the writer returns a report, the destination holds the
  complete image and the temporary file is gone.
\<close>

theorem write_overlay_atomic:
  "case write_overlay sha256 path pid nonce src plan fs sch of (r, fs', sch') \<Rightarrow>
     published_or_old path (temporary_path path pid nonce) fs (sidecar_image sha256 src plan) fs' \<and>
     (case r of
        Inr report \<Rightarrow>
          published path (temporary_path path pid nonce) fs (sidecar_image sha256 src plan) fs'
      | Inl _ \<Rightarrow> True)"
  using write_overlay_outcomes [of sha256 path pid nonce src plan fs sch]
  by (auto split: prod.split sum.split)

text \<open>
  A plan for another source is refused before the file system is touched: when the row count
  or the row width of the source differs from the plan's, or the source is empty, the writer
  fails with a format error and makes no call at all.
\<close>

theorem write_overlay_refuses_other_source:
  assumes "src_row_count src \<noteq> lp_row_count plan \<or> src_row_bytes src \<noteq> lp_row_bytes plan \<or>
    src_row_count src = 0 \<or> src_row_bytes src = 0"
  shows "\<exists>msg. write_overlay sha256 path pid nonce src plan fs sch = (Inl (Failed (Format msg)), fs, sch)"
proof -
  have "\<exists>msg. prepare_sidecar sha256 src plan = Inl (Format msg)"
    using assms by (simp add: prepare_sidecar_def validate_source_plan_def)
  then show ?thesis by (auto simp: write_overlay_def bindIO_def liftIO_def)
qed

theorem write_overlay_refuses_other_source_witness:
  "\<exists>msg. write_overlay test_sha256 [RootDir, Normal [97]] 1 2 (raw_as_source test_source)
      (layout_reference 4 2 4 [[2, 0]]) empty_fs [] = (Inl (Failed (Format msg)), empty_fs, [])"
  by (rule write_overlay_refuses_other_source)
     (simp add: raw_as_source_def test_source_def layout_reference_def Let_def)

end
