(* ===== verification/PleSidecar.thy ===== *)
theory PleSidecar
  imports PleWriter "HOL-Library.Multiset"
begin

text \<open>
  What a sidecar contains: the geometry of the file a plan leads to (\<open>sidecar_data_offset\<close>,
  \<open>overlay_region_bytes\<close>, \<open>sidecar_bytes\<close>, as natural numbers), the preparation step in closed
  form, and the content of the image, proved for every source that keeps the contract
  \<open>exact_row_source\<close>: the header, the index, and each hot row at its place.
\<close>

section \<open>Geometry\<close>

definition aligned_up :: "nat \<Rightarrow> nat \<Rightarrow> nat" where
  "aligned_up v a = (v + (a - 1)) div a * a"

lemma aligned_up_bounds:
  assumes "0 < a"
  shows "a dvd aligned_up v a" and "v \<le> aligned_up v a" and "aligned_up v a < v + a"
proof -
  show "a dvd aligned_up v a" by (simp add: aligned_up_def)
  have "(v + (a - 1)) div a * a + (v + (a - 1)) mod a = v + (a - 1)" by (rule div_mult_mod_eq)
  moreover have "(v + (a - 1)) mod a < a" using assms by simp
  ultimately show "v \<le> aligned_up v a" and "aligned_up v a < v + a"
    using assms unfolding aligned_up_def by linarith+
qed

lemma aligned_up_unique:
  fixes v r a :: nat
  assumes "0 < a" and "a dvd r" and "v \<le> r" and "r < v + a"
  shows "r = aligned_up v a"
proof -
  from aligned_up_bounds [OF assms(1), of v] obtain k where k: "aligned_up v a = a * k" by auto
  from assms(2) obtain m where m: "r = a * m" by auto
  have "a * m < a * Suc k" and "a * k < a * Suc m"
    using aligned_up_bounds(2,3) [OF assms(1), of v] assms(3,4) k m by simp_all
  then have "m < Suc k" and "k < Suc m" using mult_less_cancel1 by blast+
  then have "m = k" by simp
  then show ?thesis by (simp add: k m)
qed

lemma align_up_ok_iff:
  "align_up v a = Inr r \<longleftrightarrow>
     a \<noteq> 0 \<and> unat a dvd unat r \<and> unat v \<le> unat r \<and> unat r < unat v + unat a"
proof (cases "a = 0")
  case True
  then show ?thesis by (simp add: align_up_def)
next
  case False
  then have a: "0 < unat a" by (simp add: unat_gt_0)
  have div: "unat v = unat v div unat a * unat a + unat v mod unat a"
    by (rule div_mult_mod_eq [symmetric])
  have lt: "unat v mod unat a < unat a" using a by simp
  show ?thesis
  proof (cases "v mod a = 0")
    case True
    then have "unat v mod unat a = 0" by (metis unat_0 unat_mod)
    then have dvd: "unat a dvd unat v" by (simp add: dvd_eq_mod_eq_0)
    have "unat r = unat v" if "unat a dvd unat r" "unat v \<le> unat r" "unat r < unat v + unat a"
      using aligned_up_unique [OF a that] aligned_up_unique [OF a dvd] a by simp
    then show ?thesis
      using True False dvd a by (auto simp: align_up_def Let_def word_unat_eq_iff)
  next
    case rem: False
    have "unat v mod unat a \<noteq> 0" using rem by (metis unat_eq_zero unat_mod)
    define up where "up = unat v + (unat a - unat v mod unat a)"
    have mult: "up = Suc (unat v div unat a) * unat a"
      using div lt unfolding up_def mult_Suc by linarith
    have "unat a dvd up" unfolding mult by simp
    moreover have "unat v \<le> up" "up < unat v + unat a"
      using \<open>unat v mod unat a \<noteq> 0\<close> lt unfolding up_def by linarith+
    ultimately have up: "unat a dvd up" "unat v \<le> up" "up < unat v + unat a" by simp_all
    have sub: "unat (a - v mod a) = unat a - unat v mod unat a"
      using lt by (simp add: unat_sub_exact unat_mod)
    have "align_up v a = Inr r \<longleftrightarrow> up < 18446744073709551616 \<and> r = v + (a - v mod a)"
      using False rem by (auto simp: align_up_def Let_def result_simps sub up_def)
    also have "\<dots> \<longleftrightarrow> unat r = up"
    proof
      assume "unat r = up"
      moreover from this have "up < 18446744073709551616" using unat_u64_lt [of r] by simp
      ultimately show "up < 18446744073709551616 \<and> r = v + (a - v mod a)"
        using unat_add_exact [of v "a - v mod a"] by (simp add: sub up_def word_unat_eq_iff)
    qed (use unat_add_exact [of v "a - v mod a"] in \<open>simp add: sub up_def\<close>)
    also have "\<dots> \<longleftrightarrow> a \<noteq> 0 \<and> unat a dvd unat r \<and> unat v \<le> unat r \<and> unat r < unat v + unat a"
      using False up aligned_up_unique [OF a] by metis
    finally show ?thesis .
  qed
qed

lemma align_up_eq:
  assumes "a \<noteq> 0" and "aligned_up (unat v) (unat a) < 2 ^ 64"
  shows "align_up v a = Inr (word_of_nat (aligned_up (unat v) (unat a)))"
  unfolding align_up_ok_iff
  using assms aligned_up_bounds [of "unat a" "unat v"] by (simp add: unat_gt_0 unat_of_nat_u64)

definition sidecar_data_offset :: "layout_plan \<Rightarrow> nat" where
  "sidecar_data_offset plan =
     aligned_up (128 + 12 * length (lp_placements plan)) (unat (lp_block_bytes plan))"

definition overlay_region_bytes :: "layout_plan \<Rightarrow> nat" where
  "overlay_region_bytes plan =
     (let n = length (lp_placements plan);
          rpb = unat (lp_block_bytes plan) div unat (lp_row_bytes plan)
      in if n = 0 then 0 else Suc ((n - 1) div rpb) * unat (lp_block_bytes plan))"

definition sidecar_bytes :: "layout_plan \<Rightarrow> nat" where
  "sidecar_bytes plan = sidecar_data_offset plan + overlay_region_bytes plan"

lemma placements_count: "wf_layout p \<Longrightarrow> length (lp_placements p) \<le> 4294967296"
  using length_placements [of p] length_hot_order [of p] by simp

lemma block_bytes_bounds:
  "wf_layout p \<Longrightarrow> 0 < unat (lp_block_bytes p)" "unat (lp_block_bytes p) < 4294967296"
  using wf_layout_bytes [of p] by simp_all

lemma overlay_region_lt:
  assumes wf: "wf_layout p"
  shows "overlay_region_bytes p < 18446744073709551616"
proof -
  let ?n = "length (lp_placements p)"
  let ?rpb = "unat (lp_block_bytes p) div unat (lp_row_bytes p)"
  have "Suc ((?n - 1) div ?rpb) \<le> 4294967296" if "?n \<noteq> 0"
    using that placements_count [OF wf] div_le_dividend [of "?n - 1" ?rpb] by linarith
  moreover have "unat (lp_block_bytes p) \<le> 4294967295" using block_bytes_bounds(2) [of p] by linarith
  ultimately have "?n \<noteq> 0 \<Longrightarrow>
      Suc ((?n - 1) div ?rpb) * unat (lp_block_bytes p) \<le> 4294967296 * 4294967295"
    by (intro mult_le_mono) simp_all
  then show ?thesis by (auto simp: overlay_region_bytes_def Let_def)
qed

lemma data_offset_facts:
  assumes wf: "wf_layout p"
  shows "128 + 12 * length (lp_placements p) \<le> sidecar_data_offset p"
  "sidecar_data_offset p < 18446744073709551616"
  "unat (lp_block_bytes p) dvd sidecar_data_offset p"
  using aligned_up_bounds [OF block_bytes_bounds(1) [OF wf], of "128 + 12 * length (lp_placements p)"]
    placements_count [OF wf] block_bytes_bounds(2) [of p]
  unfolding sidecar_data_offset_def by (simp, linarith, simp)

lemma placement_end:
  assumes wf: "wf_layout p" and pl: "pl \<in> set (lp_placements p)"
  shows "placement_position p pl + unat (lp_row_bytes p) \<le> overlay_region_bytes p"
proof -
  let ?bb = "unat (lp_block_bytes p)" and ?rb = "unat (lp_row_bytes p)"
  let ?n = "length (lp_placements p)"
  obtain i where i: "i < ?n" "pl = lp_placements p ! i"
    using pl by (metis in_set_conv_nth)
  have "placement_position p pl + ?rb \<le> Suc (i div (?bb div ?rb)) * ?bb"
    using slot_position_block(1) [of ?rb ?bb i] wf_layout_bytes [OF wf] placement_nth(3) [OF wf i(1)]
    by (simp add: i(2))
  also have "\<dots> \<le> Suc ((?n - 1) div (?bb div ?rb)) * ?bb"
    using i(1) by (intro mult_le_mono1) (simp add: div_le_mono)
  finally show ?thesis using i(1) by (auto simp: overlay_region_bytes_def Let_def)
qed

lemma placement_offset_eq:
  assumes wf: "wf_layout p" and pl: "pl \<in> set (lp_placements p)"
  shows "placement_offset p pl msg = Inr (word_of_nat (placement_position p pl))"
proof -
  have lt: "placement_position p pl < 18446744073709551616"
    using placement_end [OF wf pl] overlay_region_lt [OF wf] by linarith
  then have "unat (pl_block_id pl) * unat (lp_block_bytes p) < 18446744073709551616"
    unfolding placement_position_def by linarith
  moreover from this have mul: "unat (pl_block_id pl * ucast (lp_block_bytes p))
      = unat (pl_block_id pl) * unat (lp_block_bytes p)"
    using unat_mult_exact [of "pl_block_id pl" "ucast (lp_block_bytes p)"] by simp
  moreover have "pl_block_id pl * ucast (lp_block_bytes p) + ucast (pl_offset_in_block pl)
      = word_of_nat (placement_position p pl)"
    using lt unat_add_exact [of "pl_block_id pl * ucast (lp_block_bytes p)" "ucast (pl_offset_in_block pl)"]
    by (intro eq_word_of_nat) (simp add: mul placement_position_def)
  ultimately show ?thesis
    using lt by (simp add: placement_offset_def checked_mul_def checked_add_def placement_position_def)
qed

lemma overlay_storage_eq:
  assumes wf: "wf_layout p"
  shows "overlay_storage_bytes p = Inr (word_of_nat (overlay_region_bytes p))"
proof (cases "lp_placements p = []")
  case True
  then show ?thesis by (simp add: overlay_storage_bytes_def overlay_region_bytes_def)
next
  case False
  let ?n = "length (lp_placements p)" and ?bb = "unat (lp_block_bytes p)"
  let ?blk = "pl_block_id (last (lp_placements p))"
  have n: "?n - 1 < ?n" using False by (cases "lp_placements p") simp_all
  have blk: "unat ?blk = (?n - 1) div (?bb div unat (lp_row_bytes p))"
    using placement_nth(2) [OF wf n] False by (simp add: last_conv_nth)
  then have le: "unat ?blk < 4294967296"
    using n placements_count [OF wf] div_le_dividend [of "?n - 1" "?bb div unat (lp_row_bytes p)"] by linarith
  then have suc: "unat (?blk + 1) = Suc (unat ?blk)"
    using unat_add_exact [of ?blk 1] by simp
  have region: "overlay_region_bytes p = Suc (unat ?blk) * ?bb"
    using False by (simp add: overlay_region_bytes_def blk Let_def)
  then have lt: "Suc (unat ?blk) * ?bb < 18446744073709551616" using overlay_region_lt [OF wf] by simp
  have "(?blk + 1) * ucast (lp_block_bytes p) = word_of_nat (Suc (unat ?blk) * ?bb)"
    using lt unat_mult_exact [of "?blk + 1" "ucast (lp_block_bytes p)"]
    by (intro eq_word_of_nat) (simp only: suc unat_u32_u64, simp)
  moreover have "checked_add ?blk 1 = Some (?blk + 1)"
    using le by (simp add: checked_add_def)
  moreover have "checked_mul (?blk + 1) (ucast (lp_block_bytes p))
      = Some ((?blk + 1) * ucast (lp_block_bytes p))"
    using lt by (simp only: checked_mul_def suc unat_u32_u64) simp
  ultimately show ?thesis
    using False by (simp only: overlay_storage_bytes_def region) simp
qed

section \<open>The index\<close>

definition plan_index :: "layout_plan \<Rightarrow> (u32 \<times> u64) list" where
  "plan_index plan = sort_key fst
     (map (\<lambda>pl. (pl_logical_row pl, word_of_nat (placement_position plan pl))) (lp_placements plan))"

lemma length_plan_index [simp]: "length (plan_index plan) = length (lp_placements plan)"
  by (simp add: plan_index_def)

lemma set_plan_index:
  "set (plan_index plan)
     = (\<lambda>pl. (pl_logical_row pl, word_of_nat (placement_position plan pl))) ` set (lp_placements plan)"
  by (simp add: plan_index_def)

lemma index_entries_eq:
  assumes "wf_layout plan"
  shows "set pls \<subseteq> set (lp_placements plan) \<Longrightarrow> index_entries plan pls
    = Inr (map (\<lambda>pl. (pl_logical_row pl, word_of_nat (placement_position plan pl))) pls)"
  by (induction pls) (simp_all add: placement_offset_eq [OF assms])

lemma plan_index_sorted:
  assumes "wf_layout plan"
  shows "sorted_wrt (<) (map fst (plan_index plan))"
proof -
  have "map fst (plan_index plan) = sort (map pl_logical_row (lp_placements plan))"
    by (rule properties_for_sort [symmetric])
       (simp_all add: plan_index_def image_mset.compositionality comp_def)
  then show ?thesis
    using assms placement_rows [OF assms] by (simp add: strict_sorted_iff wf_layout_def)
qed

lemma pairs_map: "pairs (map f xs) = map (map_prod f f) (pairs xs)"
  by (simp add: pairs_def map_tl [symmetric] zip_map_map case_prod_unfold map_prod_def)

lemma plan_index_unique:
  "wf_layout plan \<Longrightarrow> \<not> list_ex (\<lambda>(a, b). fst b \<le> fst a) (pairs (plan_index plan))"
  using plan_index_sorted [of plan]
  by (fastforce simp: strict_sorted_iff_pairs pairs_map list_ex_iff)

lemma length_encode_index: "length (encode_index es) = 12 * length es"
  by (induction es) (auto simp: encode_index_def encode_index_entry_eq)

text \<open>Index sizes do not wrap.\<close>

lemma unat_index_size:
  "n \<le> 4294967296 \<Longrightarrow> unat (word_of_nat (12 * n) :: u64) = 12 * n"
  "n \<le> 4294967296 \<Longrightarrow> unat (word_of_nat (128 + 12 * n) :: u64) = 128 + 12 * n"
  by (simp_all only: unat_of_nat_u64)

definition sidecar_header :: "(bytes \<Rightarrow> bytes) \<Rightarrow> row_source \<Rightarrow> layout_plan \<Rightarrow> disk_header" where
  "sidecar_header sha256 src plan =
     \<lparr>logical = \<lparr>hd_magic = PLEPACK_MAGIC, hd_version = PLEPACK_VERSION,
        hd_source_digest = src_digest src, hd_row_count = src_row_count src,
        hd_row_bytes = src_row_bytes src, hd_block_bytes = lp_block_bytes plan,
        hd_index_digest = sha256 (encode_index (plan_index plan))\<rparr>,
      hot_row_count = word_of_nat (length (lp_placements plan)),
      index_bytes = word_of_nat (12 * length (lp_placements plan)),
      data_offset = word_of_nat (sidecar_data_offset plan),
      overlay_bytes = word_of_nat (overlay_region_bytes plan)\<rparr>"

definition plan_matches :: "row_source \<Rightarrow> layout_plan \<Rightarrow> bool" where
  "plan_matches src plan \<longleftrightarrow>
     wf_layout plan \<and> src_row_count src = lp_row_count plan \<and>
     src_row_bytes src = lp_row_bytes plan \<and> length (src_digest src) = 32"

lemma overlay_region_dvd: "unat (lp_block_bytes p) dvd overlay_region_bytes p"
  by (simp add: overlay_region_bytes_def Let_def del: mult_Suc)

lemma sidecar_header_wf:
  assumes "plan_matches src plan" and "\<And>x. length (sha256 x) = 32"
  shows "wf_disk_header (sidecar_header sha256 src plan)"
proof -
  have wf: "wf_layout plan" using assms(1) by (simp add: plan_matches_def)
  have n: "length (lp_placements plan) \<le> 4294967296" by (rule placements_count [OF wf])
  then have words: "unat (word_of_nat (length (lp_placements plan)) :: u64) = length (lp_placements plan)"
    "unat (word_of_nat (sidecar_data_offset plan) :: u64) = sidecar_data_offset plan"
    "unat (word_of_nat (overlay_region_bytes plan) :: u64) = overlay_region_bytes plan"
    using data_offset_facts(2) [OF wf] overlay_region_lt [OF wf] by (simp_all add: unat_of_nat_u64)
  have "wf_header (logical (sidecar_header sha256 src plan))"
    using assms wf by (simp add: sidecar_header_def wf_header_def plan_matches_def wf_layout_def)
  then show ?thesis
    using data_offset_facts [OF wf] overlay_region_dvd [of plan]
    unfolding wf_disk_header_def
    by (simp only: sidecar_header_def disk_header.simps ple_pack_header.simps
        unat_index_size [OF n] words)
qed

lemma prepare_sidecar_eq:
  assumes "plan_matches src plan" and "\<And>x. length (sha256 x) = 32"
  shows "prepare_sidecar sha256 src plan =
    (if sidecar_bytes plan < 2 ^ 64
     then Inr \<lparr>sp_entries = plan_index plan, sp_payload = encode_index (plan_index plan),
               sp_header = sidecar_header sha256 src plan,
               sp_file_bytes = word_of_nat (sidecar_bytes plan)\<rparr>
     else Inl (Format ''sidecar file size overflow''))"
proof -
  have wf: "wf_layout plan" using assms(1) by (simp add: plan_matches_def)
  let ?n = "length (lp_placements plan)"
  have n: "?n \<le> 4294967296" by (rule placements_count [OF wf])
  have valid: "validate_source_plan src plan = Inr ()"
    using assms(1) by (simp add: validate_source_plan_def plan_matches_def wf_layout_def)
  have entries: "index_entries plan (lp_placements plan) =
      Inr (map (\<lambda>pl. (pl_logical_row pl, word_of_nat (placement_position plan pl))) (lp_placements plan))"
    by (rule index_entries_eq [OF wf order_refl])
  have alloc: "checked_mul (word_of_nat ?n :: usize) INDEX_ENTRY_BYTES
      = Some (word_of_nat ?n * INDEX_ENTRY_BYTES)"
    using n by (simp add: checked_mul_def INDEX_ENTRY_BYTES_def unat_of_nat_u64)
  have ie: "checked_add DISK_HEADER_BYTES (word_of_nat (12 * ?n)) = Some (word_of_nat (128 + 12 * ?n))"
    using n by (simp add: checked_add_def DISK_HEADER_BYTES_def unat_index_size [OF n] del: of_nat_mult)
  have al: "align_up (word_of_nat (128 + 12 * ?n)) (ucast (lp_block_bytes plan))
      = Inr (word_of_nat (sidecar_data_offset plan))"
    using align_up_eq [of "ucast (lp_block_bytes plan)" "word_of_nat (128 + 12 * ?n)"] n
      data_offset_facts(2) [OF wf] block_bytes_bounds(1) [OF wf]
    by (simp add: sidecar_data_offset_def unat_of_nat_u64 unat_gt_0 del: of_nat_add of_nat_mult)
  have hdr: "ple_pack_header_new (src_digest src) (src_row_count src) (src_row_bytes src)
      (lp_block_bytes plan) (sha256 (encode_index (plan_index plan)))
      = Inr (logical (sidecar_header sha256 src plan))"
    using sidecar_header_wf [of src plan sha256, OF assms] assms
    by (subst ple_pack_header_new_ok_iff)
       (simp_all add: plan_matches_def sidecar_header_def wf_disk_header_def)
  have disk: "disk_header_new (logical (sidecar_header sha256 src plan)) (word_of_nat ?n)
      (word_of_nat (12 * ?n)) (word_of_nat (sidecar_data_offset plan))
      (word_of_nat (overlay_region_bytes plan)) = Inr (sidecar_header sha256 src plan)"
    using sidecar_header_wf [of src plan sha256, OF assms]
    by (subst disk_header_new_ok_iff) (simp_all add: wf_disk_header_def sidecar_header_def)
  have size: "ok_or (checked_add (word_of_nat (sidecar_data_offset plan) :: u64)
        (word_of_nat (overlay_region_bytes plan))) (Format ''sidecar file size overflow'')
      = (if sidecar_bytes plan < 2 ^ 64 then Inr (word_of_nat (sidecar_bytes plan))
         else Inl (Format ''sidecar file size overflow''))"
    using data_offset_facts(2) [OF wf] overlay_region_lt [OF wf]
    by (simp add: checked_add_def sidecar_bytes_def unat_of_nat_u64)
  show ?thesis
    unfolding prepare_sidecar_def valid entries bindE_simps Let_def
    by (simp only: plan_index_def [symmetric] plan_index_unique [OF wf] if_False length_plan_index
        alloc ok_or_simps bindE_simps length_encode_index ie al overlay_storage_eq [OF wf] hdr
        map_err_simps disk size) simp
qed

section \<open>The image\<close>

lemma write_at_inside: "off \<le> length c \<Longrightarrow> write_at off ys c = put_at off ys c"
  by (simp add: write_at_def)

lemma field_put_at_same:
  "off + length ys \<le> length c \<Longrightarrow> n = length ys \<Longrightarrow> field off n (put_at off ys c) = ys"
  by (simp add: field_def put_at_same)

lemma field_put_at_other:
  "off + length ys \<le> length c \<Longrightarrow> a + n \<le> off \<or> off + length ys \<le> a \<Longrightarrow>
     field a n (put_at off ys c) = field a n c"
  by (simp add: field_def put_at_other)

text \<open>Where a placement lies in the file.\<close>

definition row_position :: "layout_plan \<Rightarrow> hot_overlay_placement \<Rightarrow> nat" where
  "row_position plan pl = sidecar_data_offset plan + placement_position plan pl"

lemma row_position_end:
  "wf_layout plan \<Longrightarrow> pl \<in> set (lp_placements plan) \<Longrightarrow>
     row_position plan pl + unat (lp_row_bytes plan) \<le> sidecar_bytes plan"
  using placement_end [of plan pl] by (simp add: row_position_def sidecar_bytes_def)

lemma write_position_eq:
  assumes "wf_layout plan" and "pl \<in> set (lp_placements plan)" and "sidecar_bytes plan < 2 ^ 64"
  shows "checked_add (word_of_nat (sidecar_data_offset plan) :: u64)
      (word_of_nat (placement_position plan pl)) = Some (word_of_nat (row_position plan pl))"
    and "unat (word_of_nat (row_position plan pl) :: u64) = row_position plan pl"
proof -
  have lt: "row_position plan pl < 18446744073709551616"
    using row_position_end [OF assms(1,2)] assms(3) by simp
  then show "unat (word_of_nat (row_position plan pl) :: u64) = row_position plan pl"
    by (rule unat_of_nat_u64)
  show "checked_add (word_of_nat (sidecar_data_offset plan) :: u64)
      (word_of_nat (placement_position plan pl)) = Some (word_of_nat (row_position plan pl))"
    using lt by (simp add: checked_add_def row_position_def unat_of_nat_u64)
qed

lemma field_nth: "i < length c \<Longrightarrow> field i 1 c = [c ! i]"
  by (simp add: field_def Cons_nth_drop_Suc [symmetric])

lemma field_replicate: "a + n \<le> k \<Longrightarrow> field a n (replicate k x) = replicate n x"
  by (simp add: field_def)

text \<open>What an image has to contain: header, index, rows at their places, zeros between them.\<close>

definition image_holds ::
    "(bytes \<Rightarrow> bytes) \<Rightarrow> row_source \<Rightarrow> (u32 \<Rightarrow> bytes) \<Rightarrow> layout_plan \<Rightarrow> bytes \<Rightarrow> bool" where
  "image_holds sha256 src rows plan img \<longleftrightarrow>
     length img = sidecar_bytes plan \<and>
     take 128 img = disk_header_encode (sidecar_header sha256 src plan) \<and>
     field 128 (12 * length (lp_placements plan)) img = encode_index (plan_index plan) \<and>
     (\<forall>pl \<in> set (lp_placements plan).
        field (row_position plan pl) (unat (lp_row_bytes plan)) img = rows (pl_logical_row pl)) \<and>
     (\<forall>i. 128 + 12 * length (lp_placements plan) \<le> i \<longrightarrow> i < sidecar_bytes plan \<longrightarrow>
        (\<forall>pl \<in> set (lp_placements plan). i < row_position plan pl \<or>
           row_position plan pl + unat (lp_row_bytes plan) \<le> i) \<longrightarrow> img ! i = 0)"

lemma length_header_encode:
  "plan_matches src plan \<Longrightarrow> (\<And>x. length (sha256 x) = 32) \<Longrightarrow>
     length (disk_header_encode (sidecar_header sha256 src plan)) = 128"
  using encode_eq_fields [of "sidecar_header sha256 src plan"]
    length_header_fields [of "sidecar_header sha256 src plan"]
  by (simp add: plan_matches_def sidecar_header_def)

context exact_row_source
begin

lemma fill_rows_content:
  assumes "invar s" and "plan_matches (as_source s) plan" and "sidecar_bytes plan < 2 ^ 64"
  shows "set pls \<subseteq> set (lp_placements plan) \<Longrightarrow>
    sorted_wrt (\<lambda>a b. placement_position plan a + unat (lp_row_bytes plan)
      \<le> placement_position plan b) pls \<Longrightarrow>
    length row = unat (lp_row_bytes plan) \<Longrightarrow> sidecar_bytes plan \<le> length c \<Longrightarrow>
    \<exists>img. fill_rows (as_source s) plan (word_of_nat (sidecar_data_offset plan)) pls row c = Inr img \<and>
      length img = length c \<and>
      (\<forall>pl \<in> set pls. field (row_position plan pl) (unat (lp_row_bytes plan)) img
         = row_data s (pl_logical_row pl)) \<and>
      (\<forall>a n. (\<forall>pl \<in> set pls. a + n \<le> row_position plan pl \<or>
           row_position plan pl + unat (lp_row_bytes plan) \<le> a) \<longrightarrow> field a n img = field a n c)"
proof (induction pls arbitrary: row c)
  case Nil
  then show ?case by simp
next
  case (Cons pl pls)
  let ?rb = "unat (lp_row_bytes plan)"
  let ?data = "row_data s (pl_logical_row pl)"
  let ?c = "put_at (row_position plan pl) ?data c"
  have wf: "wf_layout plan" and src: "src_row_count (as_source s) = lp_row_count plan"
    "src_row_bytes (as_source s) = lp_row_bytes plan"
    using assms(2) by (simp_all add: plan_matches_def)
  have pl: "pl \<in> set (lp_placements plan)" using Cons.prems(1) by simp
  then have row: "ucast (pl_logical_row pl) < src_row_count (as_source s)"
    using placement_row_inside [OF wf] src(1) by simp
  have data: "length ?data = ?rb" using row_data_length [OF assms(1) row] src by simp
  have fits: "row_position plan pl + ?rb \<le> length c"
    using row_position_end [OF wf pl] Cons.prems(4) by simp
  have step: "fill_rows (as_source s) plan (word_of_nat (sidecar_data_offset plan)) (pl # pls) row c
      = fill_rows (as_source s) plan (word_of_nat (sidecar_data_offset plan)) pls ?data ?c"
    using read_row [OF assms(1) row, of row] Cons.prems(3) src fits
    by (simp add: placement_offset_eq [OF wf pl] write_position_eq [OF wf pl assms(3)]
        write_at_inside)
  have "sidecar_bytes plan \<le> length ?c" using Cons.prems(4) fits data by simp
  with Cons.IH [of ?data ?c] Cons.prems data obtain img where
    img: "fill_rows (as_source s) plan (word_of_nat (sidecar_data_offset plan)) pls ?data ?c = Inr img"
      "length img = length ?c"
      "\<forall>pl \<in> set pls. field (row_position plan pl) ?rb img = row_data s (pl_logical_row pl)"
      "\<And>a n. (\<forall>pl \<in> set pls. a + n \<le> row_position plan pl \<or> row_position plan pl + ?rb \<le> a) \<Longrightarrow>
         field a n img = field a n ?c"
    by auto
  have later: "\<forall>pl' \<in> set pls. row_position plan pl + ?rb \<le> row_position plan pl'"
    using Cons.prems(2) by (simp add: row_position_def)
  have "field (row_position plan pl) ?rb img = ?data"
    using img(4) [of "row_position plan pl" ?rb] later field_put_at_same [of _ ?data c] fits data
    by simp
  moreover have "field a n img = field a n c"
    if "\<forall>pl' \<in> set (pl # pls). a + n \<le> row_position plan pl' \<or> row_position plan pl' + ?rb \<le> a" for a n
    using img(4) [of a n] that field_put_at_other [of _ ?data c a n] fits data by simp
  ultimately show ?case
    using img(1-3) data fits unfolding step by simp
qed

lemma sidecar_image_holds:
  assumes "invar s" and "plan_matches (as_source s) plan" and "sidecar_bytes plan < 2 ^ 64"
    and "\<And>x. length (sha256 x) = 32"
  shows "\<exists>img. sidecar_image sha256 (as_source s) plan = Inr img \<and>
    image_holds sha256 (as_source s) (row_data s) plan img"
proof -
  let ?n = "length (lp_placements plan)" and ?rb = "unat (lp_row_bytes plan)"
  let ?hdr = "disk_header_encode (sidecar_header sha256 (as_source s) plan)"
  let ?idx = "encode_index (plan_index plan)"
  let ?zeros = "replicate (sidecar_bytes plan) 0 :: bytes"
  let ?c0 = "put_at 128 ?idx (put_at 0 ?hdr ?zeros)"
  have wf: "wf_layout plan" and rb: "src_row_bytes (as_source s) = lp_row_bytes plan"
    using assms(2) by (simp_all add: plan_matches_def)
  have hdr: "length ?hdr = 128" by (rule length_header_encode [OF assms(2,4)])
  have idx: "length ?idx = 12 * ?n" by (simp add: length_encode_index)
  have doff: "128 + 12 * ?n \<le> sidecar_data_offset plan" by (rule data_offset_facts(1) [OF wf])
  then have size: "128 + 12 * ?n \<le> sidecar_bytes plan" by (simp add: sidecar_bytes_def)
  have c0: "length ?c0 = sidecar_bytes plan" using size hdr idx by simp
  have low: "128 + 12 * ?n \<le> row_position plan pl" "128 \<le> row_position plan pl" for pl
    using doff by (simp_all add: row_position_def)
  from fill_rows_content [OF assms(1-3) order_refl placements_ordered [OF wf], of "replicate ?rb 0" ?c0]
  obtain img where img: "fill_rows (as_source s) plan (word_of_nat (sidecar_data_offset plan))
        (lp_placements plan) (replicate ?rb 0) ?c0 = Inr img"
      "length img = sidecar_bytes plan"
      "\<forall>pl \<in> set (lp_placements plan). field (row_position plan pl) ?rb img
         = row_data s (pl_logical_row pl)"
      "\<And>a n. (\<forall>pl \<in> set (lp_placements plan). a + n \<le> row_position plan pl \<or>
           row_position plan pl + ?rb \<le> a) \<Longrightarrow> field a n img = field a n ?c0"
    using c0 by auto
  have "field 0 128 img = ?hdr"
    using img(4) [of 0 128] low size hdr idx
    by (simp add: field_put_at_other field_put_at_same)
  moreover have "field 128 (12 * ?n) img = ?idx"
    using img(4) [of 128 "12 * ?n"] low size hdr idx
    by (simp add: field_put_at_same)
  moreover have "img ! i = 0" if "128 + 12 * ?n \<le> i" "i < sidecar_bytes plan"
      "\<forall>pl \<in> set (lp_placements plan). i < row_position plan pl \<or> row_position plan pl + ?rb \<le> i" for i
  proof -
    have "field i 1 img = field i 1 ?c0"
      using that(3) by (intro img(4)) (simp add: Suc_le_eq)
    also have "\<dots> = [0]"
      using that(1,2) size hdr idx by (simp add: field_put_at_other field_replicate)
    finally show ?thesis using that(2) img(2) field_nth [of i img] by simp
  qed
  ultimately have "image_holds sha256 (as_source s) (row_data s) plan img"
    using img(2,3) by (simp add: image_holds_def take_field)
  moreover have "sidecar_image sha256 (as_source s) plan = Inr img"
    using img(1) assms(3) rb hdr size
    by (simp add: sidecar_image_def prepare_sidecar_eq [OF assms(2,4)] parts_image_def
        write_at_inside resize_def unat_of_nat_u64 sidecar_header_def)
  ultimately show ?thesis by blast
qed

end

section \<open>Runs that succeed\<close>

text \<open>The temporary file is open and the directories are the given ones.\<close>

definition temp_open :: "path \<Rightarrow> path set \<Rightarrow> fs \<Rightarrow> bool" where
  "temp_open temp dirs fs \<longleftrightarrow> fs_files fs temp \<noteq> None \<and> fs_dirs fs = dirs"

lemma temp_open_update [simp]: "temp_open temp dirs (update_file temp f fs) = temp_open temp dirs fs"
  by (auto simp: temp_open_def update_file_def split: option.split)

lemma temp_open_synced [simp]: "temp_open temp dirs (synced p fs) = temp_open temp dirs fs"
  by (simp add: temp_open_def)

lemma temp_open_cursor [simp]: "temp_open temp dirs (fs\<lparr>fs_cursor := n\<rparr>) = temp_open temp dirs fs"
  by (simp add: temp_open_def)

lemma positioned_write_runs:
  assumes "unat n < 2 ^ 63" and "runs (temp_open temp dirs) m Q"
  shows "runs (temp_open temp dirs)
    (bindIO (seek_start n) (\<lambda>_. bindIO (write_all temp ys) (\<lambda>_. m))) Q"
proof -
  have "\<not> n \<ge> 9223372036854775808" using assms(1) by (simp add: word_le_nat_alt)
  then have "runs (temp_open temp dirs) (seek_start n) (\<lambda>_. temp_open temp dirs)"
    unfolding seek_start_def by (intro runs_syscall) simp
  moreover have "runs (temp_open temp dirs) (write_all temp ys) (\<lambda>_. temp_open temp dirs)"
    unfolding write_all_def by (intro runs_syscall) simp
  ultimately show ?thesis using assms(2) by (intro runs_bind)
qed

lemma write_rows_runs:
  assumes "wf_layout plan" and "sidecar_bytes plan < 2 ^ 63"
  shows "set pls \<subseteq> set (lp_placements plan) \<Longrightarrow>
    fill_rows src plan (word_of_nat (sidecar_data_offset plan)) pls row c = Inr c' \<Longrightarrow>
    runs (temp_open temp dirs)
      (write_rows temp src plan (word_of_nat (sidecar_data_offset plan)) pls row)
      (\<lambda>_. temp_open temp dirs)"
proof (induction pls arbitrary: row c)
  case Nil
  show ?case by (simp add: runs_return)
next
  case (Cons pl pls)
  have pl: "pl \<in> set (lp_placements plan)" using Cons.prems(1) by simp
  have size: "sidecar_bytes plan < 2 ^ 64" using assms(2) by simp
  note eqs = placement_offset_eq [OF assms(1) pl] write_position_eq [OF assms(1) pl size]
  obtain row' where row': "src_read_exact_row src (pl_logical_row pl) row = Inr row'"
    "fill_rows src plan (word_of_nat (sidecar_data_offset plan)) pls row'
       (write_at (row_position plan pl) row' c) = Inr c'"
    using Cons.prems(2) by (auto simp: result_simps eqs)
  have "runs (temp_open temp dirs)
      (write_rows temp src plan (word_of_nat (sidecar_data_offset plan)) pls row')
      (\<lambda>_. temp_open temp dirs)"
    using Cons.IH [of row'] Cons.prems(1) row'(2) by simp
  moreover have "unat (word_of_nat (row_position plan pl) :: u64) < 2 ^ 63"
    using row_position_end [OF assms(1) pl] assms(2) eqs(3) by simp
  ultimately have "runs (temp_open temp dirs)
      (bindIO (seek_start (word_of_nat (row_position plan pl))) (\<lambda>_.
       bindIO (write_all temp row') (\<lambda>_.
       write_rows temp src plan (word_of_nat (sidecar_data_offset plan)) pls row')))
      (\<lambda>_. temp_open temp dirs)" by (intro positioned_write_runs)
  then show ?case
    unfolding write_rows.simps
    by - (rule runs_lift_bind [OF row'(1)], rule runs_lift_bind [OF eqs(1)], rule runs_lift_bind,
      simp_all only: eqs(2) ok_or_simps)
qed

lemma fill_sidecar_runs:
  assumes "plan_matches src plan" and "\<And>x. length (sha256 x) = 32" and "sidecar_bytes plan < 2 ^ 63"
    and "sidecar_image sha256 src plan = Inr img" and "prepare_sidecar sha256 src plan = Inr parts"
  shows "runs (temp_open temp dirs) (fill_sidecar temp src plan parts) (\<lambda>_. temp_open temp dirs)"
proof -
  have wf: "wf_layout plan" using assms(1) by (simp add: plan_matches_def)
  have parts: "data_offset (sp_header parts) = word_of_nat (sidecar_data_offset plan)"
    "unat (sp_file_bytes parts) = sidecar_bytes plan"
    using assms(3,5) unfolding prepare_sidecar_eq [of src plan sha256, OF assms(1,2)]
    by (auto simp: sidecar_header_def unat_of_nat_u64 split: if_splits)
  obtain c where "fill_rows src plan (word_of_nat (sidecar_data_offset plan)) (lp_placements plan)
      (replicate (unat (src_row_bytes src)) 0) c = Inr img"
    using assms(4,5) by (auto simp: sidecar_image_def parts_image_def parts(1))
  from write_rows_runs [OF wf assms(3) order_refl this]
  have rows: "runs (temp_open temp dirs) (write_rows temp src plan (data_offset (sp_header parts))
      (lp_placements plan) (replicate (unat (src_row_bytes src)) 0)) (\<lambda>_. temp_open temp dirs)"
    by (simp only: parts(1))
  have "\<not> sp_file_bytes parts \<ge> 9223372036854775808"
    using assms(3) parts(2) by (simp add: word_le_nat_alt)
  then have len: "runs (temp_open temp dirs) (set_len temp (sp_file_bytes parts))
      (\<lambda>_. temp_open temp dirs)"
    unfolding set_len_def by (intro runs_syscall) simp
  show ?thesis
    unfolding fill_sidecar_def
    by (rule runs_bind [OF len], rule positioned_write_runs, simp, rule positioned_write_runs)
       (use rows in \<open>simp_all add: DISK_HEADER_BYTES_def\<close>)
qed

text \<open>
  A destination the writer can publish to: a file name in a named directory, nothing but
  directories on the way to it, no directory in its place, and the temporary name free.
\<close>

definition publishable :: "path \<Rightarrow> path \<Rightarrow> fs \<Rightarrow> bool" where
  "publishable path temp fs \<longleftrightarrow>
     path_file_name path \<noteq> None \<and> butlast path \<noteq> [] \<and>
     list_all (\<lambda>q. fs_files fs q = None) (path_prefixes (butlast path)) \<and>
     fs_files fs temp = None \<and> temp \<notin> fs_dirs fs \<and> path \<notin> fs_dirs fs"

lemma file_name_parent: "path_file_name p \<noteq> None \<Longrightarrow> path_parent p = Some (butlast p)"
  by (auto simp: path_file_name_def path_parent_def split: if_splits)

lemma file_name_not_special: "path_file_name p \<noteq> None \<Longrightarrow> p \<noteq> [] \<and> p \<noteq> [CurDir] \<and> p \<noteq> [RootDir]"
  by (auto simp: path_file_name_def)

lemma with_file_name_file_name: "path_file_name (with_file_name p name) \<noteq> None"
  by (simp add: with_file_name_def path_file_name_def)

lemma path_prefixes_length: "q \<in> set (path_prefixes p) \<Longrightarrow> length q \<le> length p"
  by (auto simp: path_prefixes_def)

lemma self_in_path_prefixes: "p \<noteq> [] \<Longrightarrow> p \<in> set (path_prefixes p)"
  by (auto simp: path_prefixes_def image_iff intro!: bexI [of _ "length p - 1"])

lemma file_not_in_parent_prefixes:
  "path_file_name p \<noteq> None \<Longrightarrow> p \<notin> set (path_prefixes (butlast p))"
  using path_prefixes_length [of p "butlast p"] file_name_not_special [of p]
  by (cases p rule: rev_cases) auto

definition written_report :: "sidecar_parts \<Rightarrow> write_report" where
  "written_report parts =
     \<lparr>wr_hot_rows = word_of_nat (length (sp_entries parts)), wr_index_offset = DISK_HEADER_BYTES,
      wr_index_bytes = index_bytes (sp_header parts),
      wr_overlay_bytes = overlay_bytes (sp_header parts), wr_file_bytes = sp_file_bytes parts\<rparr>"

lemma publish_runs:
  assumes "plan_matches src plan" and "\<And>x. length (sha256 x) = 32" and "sidecar_bytes plan < 2 ^ 63"
    and "sidecar_image sha256 src plan = Inr img" and "prepare_sidecar sha256 src plan = Inr parts"
    and temp: "temp = temporary_path path pid nonce" and "publishable path temp fs"
  shows "\<exists>fs'. publish_sidecar path temp src plan parts fs [] = (Inr (written_report parts), fs', [])"
proof -
  let ?dir = "butlast path"
  let ?dirs = "set (path_prefixes ?dir) \<union> fs_dirs fs"
  have path: "path_file_name path \<noteq> None" "?dir \<noteq> []" "path \<noteq> []"
    using assms(7) file_name_not_special [of path] by (auto simp: publishable_def)
  have names: "path_file_name temp \<noteq> None" "butlast temp = ?dir" "path_parent temp = Some ?dir"
    "path_parent path = Some ?dir"
    using path(1) with_file_name_file_name file_name_parent [of path] file_name_parent [of temp]
    by (auto simp: temp temporary_path_def Let_def with_file_name_def)
  have free: "path \<notin> ?dirs" "temp \<notin> ?dirs"
    using assms(7) file_not_in_parent_prefixes [OF path(1)]
      file_not_in_parent_prefixes [OF names(1)] names(2)
    by (simp_all add: publishable_def)
  have dir: "?dir \<in> ?dirs" using self_in_path_prefixes [OF path(2)] by simp
  let ?start = "\<lambda>fs'. fs' = fs"
  let ?ready = "\<lambda>fs'. fs_files fs' temp = None \<and> fs_dirs fs' = ?dirs"
  have "\<not> list_ex (\<lambda>q. \<exists>y. fs_files fs q = Some y) (path_prefixes ?dir)"
    using assms(7) by (auto simp: publishable_def list_ex_iff list_all_iff)
  then have mk: "runs ?start (create_dir_all ?dir) (\<lambda>_. ?ready)"
    unfolding create_dir_all_def using path(2) assms(7)
    by (auto intro!: runs_syscall simp: publishable_def)
  have new: "runs ?ready (open_create_new temp) (\<lambda>_. temp_open temp ?dirs)"
    unfolding open_create_new_def
    using names free(2) dir file_name_not_special [OF names(1)]
    by (intro runs_syscall) (auto simp: dir_exists_def temp_open_def)
  have sync: "runs (temp_open temp ?dirs) (sync_all temp) (\<lambda>_. temp_open temp ?dirs)"
    by (intro runs_sync_all) simp
  have mv: "runs (temp_open temp ?dirs) (rename_file temp path) (\<lambda>_ fs'. fs_dirs fs' = ?dirs)"
    unfolding rename_file_def
    using path free(1) file_name_not_special [OF path(1)]
    by (intro runs_syscall) (auto simp: dir_exists_def temp_open_def)
  have parent: "runs (\<lambda>fs'. fs_dirs fs' = ?dirs) (sync_parent_directory path) (\<lambda>_ _. True)"
    unfolding sync_parent_directory_def open_read_def Let_def
    by (rule runs_bind [OF runs_syscall, where R = "\<lambda>_ _. True"])
       (use names(4) path(2) dir in \<open>auto simp: dir_exists_def intro: runs_sync_all\<close>)
  have "runs ?start (publish_sidecar path temp src plan parts) (\<lambda>rep _. rep = written_report parts)"
    unfolding publish_sidecar_def names(4) option.case
    by (rule runs_bind [OF mk], rule runs_bind [OF new],
        rule runs_bind [OF fill_sidecar_runs [OF assms(1-5)]], rule runs_bind [OF sync],
        rule runs_bind [OF mv], rule runs_bind [OF parent], rule runs_return)
       (simp add: written_report_def)
  from runsD [OF this refl] show ?thesis by blast
qed

lemma write_overlay_runs:
  assumes "plan_matches src plan" and "\<And>x. length (sha256 x) = 32" and "sidecar_bytes plan < 2 ^ 63"
    and "sidecar_image sha256 src plan = Inr img" and "prepare_sidecar sha256 src plan = Inr parts"
    and "publishable path (temporary_path path pid nonce) fs"
  shows "\<exists>fs'. write_overlay sha256 path pid nonce src plan fs [] = (Inr (written_report parts), fs', [])
    \<and> published path (temporary_path path pid nonce) fs (Inr img) fs'"
proof -
  from publish_runs [OF assms(1-5) refl assms(6)] obtain fs' where
    "publish_sidecar path (temporary_path path pid nonce) src plan parts fs []
       = (Inr (written_report parts), fs', [])" by blast
  then have run: "write_overlay sha256 path pid nonce src plan fs []
      = (Inr (written_report parts), fs', [])"
    using assms(5) by (simp add: write_overlay_def bindIO_def liftIO_def)
  from write_overlay_outcomes(2) [OF this refl] show ?thesis
    using run assms(4) by simp
qed

section \<open>A bare file name\<close>

text \<open>
  The parent of a bare file name is the empty path. Nothing has to be created for it and the
  rename goes through, but it cannot be opened for the last sync.
\<close>

definition bare_publishable :: "path \<Rightarrow> path \<Rightarrow> fs \<Rightarrow> bool" where
  "bare_publishable path temp fs \<longleftrightarrow>
     length path = 1 \<and> path_file_name path \<noteq> None \<and>
     fs_files fs temp = None \<and> temp \<notin> fs_dirs fs \<and> path \<notin> fs_dirs fs"

lemma publish_bare_stops:
  assumes "plan_matches src plan" and "\<And>x. length (sha256 x) = 32" and "sidecar_bytes plan < 2 ^ 63"
    and "sidecar_image sha256 src plan = Inr img" and "prepare_sidecar sha256 src plan = Inr parts"
    and temp: "temp = temporary_path path pid nonce" and "bare_publishable path temp fs"
  shows "\<exists>fs'. publish_sidecar path temp src plan parts fs []
      = (Inl (Failed (Io ''No such file or directory'')), fs', []) \<and>
    fs_files fs' path = Some img \<and> fs_files fs' temp = None"
proof -
  let ?e = "Failed (Io ''No such file or directory'')"
  have path: "path_file_name path \<noteq> None" "butlast path = []" "path \<noteq> []"
    using assms(7) by (auto simp: bare_publishable_def length_Suc_conv)
  have names: "path_file_name temp \<noteq> None" "path_parent temp = Some []" "path_parent path = Some []"
    using path with_file_name_file_name file_name_parent [of path] file_name_parent [of temp]
    by (auto simp: temp temporary_path_def Let_def with_file_name_def)
  have free: "\<not> dir_exists fs path" "\<not> dir_exists fs temp" "fs_files fs temp = None"
    using assms(7) file_name_not_special [OF path(1)] file_name_not_special [OF names(1)]
    by (auto simp: bare_publishable_def dir_exists_def)
  have neq: "path \<noteq> temp" using temporary_path_neq [of path pid nonce] by (simp add: temp)
  have img: "parts_image src plan parts = Inr img"
    using assms(4,5) by (simp add: sidecar_image_def)
  let ?start = "\<lambda>fs'. fs' = fs"
  let ?filled = "\<lambda>fs'. temp_open temp (fs_dirs fs) fs' \<and> fs_files fs' temp = Some img"
  let ?moved = "\<lambda>fs'. fs_files fs' path = Some img \<and> fs_files fs' temp = None"
  have new: "runs ?start (open_create_new temp)
      (\<lambda>_ fs'. temp_open temp (fs_dirs fs) fs' \<and> others_kept temp fs fs' \<and> fs_files fs' temp = Some [])"
    unfolding open_create_new_def using names(2) free(2,3)
    by (intro runs_syscall) (simp add: temp_open_def others_kept_def)
  have fill: "runs (\<lambda>fs'. temp_open temp (fs_dirs fs) fs' \<and> others_kept temp fs fs' \<and>
      fs_files fs' temp = Some []) (fill_sidecar temp src plan parts) (\<lambda>_. ?filled)"
    using runs_with_triple [OF fill_sidecar_runs [of src plan sha256, OF assms(1-5)] fill_triple] img
    by (fastforce simp: runs_def)
  have sync: "runs ?filled (sync_all temp) (\<lambda>_. ?filled)"
    by (intro runs_sync_all) simp
  have mv: "runs ?filled (rename_file temp path) (\<lambda>_. ?moved)"
    unfolding rename_file_def using path(3) free(1) neq
    by (intro runs_syscall) (auto simp: dir_exists_def temp_open_def)
  have last: "stops ?moved (bindIO (sync_parent_directory path) f) ?e ?moved"
    for f :: "unit \<Rightarrow> write_report io"
    unfolding sync_parent_directory_def names(3) option.case open_read_def Let_def
    by (rule stops_first) (simp add: bindIO_def syscall_def)
  have "stops ?start (publish_sidecar path temp src plan parts) ?e ?moved"
    unfolding publish_sidecar_def names(3) option.case
    by (rule stops_bind [where R = "\<lambda>_. ?start"], simp add: create_dir_all_def runs_return,
        rule stops_bind [OF new], rule stops_bind [OF fill], rule stops_bind [OF sync],
        rule stops_bind [OF mv], rule last)
  then show ?thesis by (simp add: stops_def)
qed

section \<open>Properties\<close>

lemma planned_matches:
  assumes "wf_raw_source s" and "plan_exact_layout (raw_row_count s) (raw_row_bytes s) bb trace = Inr plan"
  shows "plan_matches (raw_as_source s) plan"
  using assms plan_exact_layout_wf [OF assms(2)]
  by (simp add: plan_matches_def plan_exact_layout_iff layout_reference_def Let_def raw_as_source_def
      wf_raw_source_def)

text \<open>
  Alignment is exact: the result is the least multiple of the alignment that is not below
  the value, and the function fails exactly when the alignment is zero or that multiple does not
  fit 64 bits.
\<close>

theorem align_up_exact:
  "align_up v alignment = Inr r \<longleftrightarrow>
     alignment \<noteq> 0 \<and> unat alignment dvd unat r \<and> unat v \<le> unat r \<and> unat r < unat v + unat alignment"
  by (rule align_up_ok_iff)

text \<open>
  C33. The image of a planned overlay is exactly its header, its index, each hot row of the
  source at its planned place, and zeros between them; the writer's arithmetic can only refuse
  a plan whose sidecar would not fit 64-bit offsets.
\<close>

theorem sidecar_image_exact:
  assumes "wf_raw_source s" and "\<And>x. length (sha256 x) = 32"
    and "plan_exact_layout (raw_row_count s) (raw_row_bytes s) block_bytes trace = Inr plan"
  shows "if sidecar_bytes plan < 2 ^ 64
    then \<exists>img. sidecar_image sha256 (raw_as_source s) plan = Inr img \<and>
      image_holds sha256 (raw_as_source s) (raw_row s) plan img
    else sidecar_image sha256 (raw_as_source s) plan = Inl (Format ''sidecar file size overflow'')"
proof -
  note matches = planned_matches [OF assms(1,3)]
  show ?thesis
    using raw.sidecar_image_holds [where ?sha256.0 = sha256, OF assms(1) matches _ assms(2)]
      prepare_sidecar_eq [of "raw_as_source s" plan sha256, OF matches assms(2)]
    by (auto simp: sidecar_image_def)
qed

definition test_overlay_plan :: layout_plan where
  "test_overlay_plan = layout_reference 3 2 4 [[2, 0]]"

lemma test_source_wf: "wf_raw_source test_source"
  by (rule raw_source_open_wf [OF length_test_file length_test_sha256 test_source_open])

lemma test_overlay_planned:
  "plan_exact_layout (raw_row_count test_source) (raw_row_bytes test_source) 4 [[2, 0]]
    = Inr test_overlay_plan"
  unfolding test_overlay_plan_def test_source_def raw_source.simps
  by (rule plan_ok) simp_all

lemma test_overlay_size: "sidecar_bytes test_overlay_plan = 156"
  by (simp add: test_overlay_plan_def sidecar_bytes_def sidecar_data_offset_def aligned_up_def
      overlay_region_bytes_def layout_reference_def Let_def sort_dedup_def first_seen_def
      word_le_nat_alt)

theorem sidecar_image_exact_witness:
  "\<exists>img. sidecar_image test_sha256 (raw_as_source test_source) test_overlay_plan = Inr img \<and>
     length img = 156"
  using sidecar_image_exact [where ?sha256.0 = test_sha256, OF test_source_wf length_test_sha256 test_overlay_planned]
  by (auto simp: test_overlay_size image_holds_def)

lemma planned_overlay_runs:
  assumes "wf_raw_source s" and "\<And>x. length (sha256 x) = 32"
    and "plan_exact_layout (raw_row_count s) (raw_row_bytes s) block_bytes trace = Inr plan"
    and "sidecar_bytes plan < 2 ^ 63"
    and "publishable path (temporary_path path pid nonce) fs"
  shows "\<exists>fs' img. write_overlay sha256 path pid nonce (raw_as_source s) plan fs [] =
      (Inr \<lparr>wr_hot_rows = word_of_nat (length (lp_placements plan)), wr_index_offset = 128,
            wr_index_bytes = word_of_nat (12 * length (lp_placements plan)),
            wr_overlay_bytes = word_of_nat (overlay_region_bytes plan),
            wr_file_bytes = word_of_nat (sidecar_bytes plan)\<rparr>, fs', []) \<and>
    sidecar_image sha256 (raw_as_source s) plan = Inr img \<and>
    published path (temporary_path path pid nonce) fs (Inr img) fs'"
proof -
  note matches = planned_matches [OF assms(1,3)]
  have size: "sidecar_bytes plan < 2 ^ 64" using assms(4) by simp
  obtain img where img: "sidecar_image sha256 (raw_as_source s) plan = Inr img"
    using raw.sidecar_image_holds [where ?sha256.0 = sha256, OF assms(1) matches size assms(2)] by blast
  have parts: "prepare_sidecar sha256 (raw_as_source s) plan = Inr
      \<lparr>sp_entries = plan_index plan, sp_payload = encode_index (plan_index plan),
       sp_header = sidecar_header sha256 (raw_as_source s) plan,
       sp_file_bytes = word_of_nat (sidecar_bytes plan)\<rparr>" (is "_ = Inr ?parts")
    using prepare_sidecar_eq [of "raw_as_source s" plan sha256, OF matches assms(2)] size by simp
  have "written_report ?parts =
      \<lparr>wr_hot_rows = word_of_nat (length (lp_placements plan)), wr_index_offset = 128,
       wr_index_bytes = word_of_nat (12 * length (lp_placements plan)),
       wr_overlay_bytes = word_of_nat (overlay_region_bytes plan),
       wr_file_bytes = word_of_nat (sidecar_bytes plan)\<rparr>"
    by (simp only: written_report_def sidecar_parts.simps sidecar_header_def disk_header.simps
        length_plan_index DISK_HEADER_BYTES_def)
  then show ?thesis
    using write_overlay_runs [OF matches assms(2,4) img parts assms(5)] img by auto
qed

text \<open>
  C34. A planned overlay whose file is below \<open>2^63\<close> bytes is always published when no call is
  interfered with and the destination is a free name in a named directory: the report gives the
  counts and sizes of the plan, and the destination holds the image.
\<close>

theorem write_overlay_succeeds:
  assumes "wf_raw_source s" and "\<And>x. length (sha256 x) = 32"
    and "plan_exact_layout (raw_row_count s) (raw_row_bytes s) block_bytes trace = Inr plan"
    and "sidecar_bytes plan < 2 ^ 63"
    and "publishable path (temporary_path path pid nonce) fs"
  shows "\<exists>fs' img. write_overlay sha256 path pid nonce (raw_as_source s) plan fs [] =
      (Inr \<lparr>wr_hot_rows = word_of_nat (length (lp_placements plan)), wr_index_offset = 128,
            wr_index_bytes = word_of_nat (12 * length (lp_placements plan)),
            wr_overlay_bytes = word_of_nat (overlay_region_bytes plan),
            wr_file_bytes = word_of_nat (sidecar_bytes plan)\<rparr>, fs', []) \<and>
    sidecar_image sha256 (raw_as_source s) plan = Inr img \<and>
    published path (temporary_path path pid nonce) fs (Inr img) fs'"
  by (rule planned_overlay_runs [OF assms])

definition test_path :: path where
  "test_path = [RootDir, Normal [112], Normal [97]]"

lemma test_publishable: "publishable test_path (temporary_path test_path pid nonce) empty_fs"
  by (simp add: publishable_def test_path_def empty_fs_def path_file_name_def list_all_iff)

lemma test_overlay_runs:
  assumes "publishable test_path (temporary_path test_path pid nonce) fs"
  obtains fs' report where "write_overlay test_sha256 test_path pid nonce (raw_as_source test_source)
      test_overlay_plan fs [] = (Inr report, fs', [])"
  using planned_overlay_runs [where ?sha256.0 = test_sha256, OF test_source_wf length_test_sha256
      test_overlay_planned _ assms]
  by (auto simp: test_overlay_size)

theorem write_overlay_succeeds_witness:
  "\<exists>fs' report. write_overlay test_sha256 test_path 7 9 (raw_as_source test_source)
      test_overlay_plan empty_fs [] = (Inr report, fs', []) \<and> wr_file_bytes report = 156"
  using write_overlay_succeeds [where ?sha256.0 = test_sha256, OF test_source_wf length_test_sha256 test_overlay_planned _
      test_publishable [of 7 9]]
  by (auto simp: test_overlay_size)

text \<open>
  C39. Publishing to a bare file name reports a failure for a sidecar that has been published: the
  parent of the name is the empty path, so the sync of the directory cannot open it, and the
  writer returns \<open>No such file or directory\<close> although the complete image is in place.
\<close>

theorem bare_name_fails_after_publishing:
  assumes "wf_raw_source s" and "\<And>x. length (sha256 x) = 32"
    and "plan_exact_layout (raw_row_count s) (raw_row_bytes s) block_bytes trace = Inr plan"
    and "sidecar_bytes plan < 2 ^ 63"
    and "bare_publishable path (temporary_path path pid nonce) fs"
  shows "\<exists>fs' img. write_overlay sha256 path pid nonce (raw_as_source s) plan fs [] =
      (Inl (Failed (Io ''No such file or directory'')), fs', []) \<and>
    sidecar_image sha256 (raw_as_source s) plan = Inr img \<and> fs_files fs' path = Some img"
proof -
  note matches = planned_matches [OF assms(1,3)]
  have size: "sidecar_bytes plan < 2 ^ 64" using assms(4) by simp
  obtain img where img: "sidecar_image sha256 (raw_as_source s) plan = Inr img"
    using raw.sidecar_image_holds [where ?sha256.0 = sha256, OF assms(1) matches size assms(2)] by blast
  obtain parts where parts: "prepare_sidecar sha256 (raw_as_source s) plan = Inr parts"
    using prepare_sidecar_eq [of "raw_as_source s" plan sha256, OF matches assms(2)] size by simp
  from publish_bare_stops [OF matches assms(2,4) img parts refl assms(5)] obtain fs' where
    "publish_sidecar path (temporary_path path pid nonce) (raw_as_source s) plan parts fs []
       = (Inl (Failed (Io ''No such file or directory'')), fs', [])"
    "fs_files fs' path = Some img" "fs_files fs' (temporary_path path pid nonce) = None" by blast
  then show ?thesis
    using parts img
    by (simp add: write_overlay_def bindIO_def liftIO_def Let_def remove_file_def syscall_def)
qed

theorem bare_name_fails_after_publishing_witness:
  "\<exists>fs' img. write_overlay test_sha256 [Normal [97]] 7 9 (raw_as_source test_source)
      test_overlay_plan empty_fs [] = (Inl (Failed (Io ''No such file or directory'')), fs', []) \<and>
    fs_files fs' [Normal [97]] = Some img"
proof -
  have "bare_publishable [Normal [97]] (temporary_path [Normal [97]] 7 9) empty_fs"
    by (simp add: bare_publishable_def empty_fs_def path_file_name_def)
  from bare_name_fails_after_publishing [where ?sha256.0 = test_sha256, OF test_source_wf length_test_sha256 test_overlay_planned
      _ this]
  show ?thesis by (auto simp: test_overlay_size)
qed

end
