(* ===== verification/PleReader.thy ===== *)
theory PleReader
  imports PleSource
begin

text \<open>
  The sidecar reader (\<open>crates/gb10x-ple/src/reader.rs\<close>): opening and validating a mapped sidecar,
  the binary search in its index, reads that prefer the overlay and fall back to the cold source,
  and the byte-for-byte verification of the overlay.

  Results are of type \<open>fault\<close> where the code indexes with a range, takes a remainder or copies
  between slices, which could panic. \<open>reader_index\<close> is the decoded index as a list of pairs and
  \<open>wf_reader\<close> what \<open>open\<close> establishes; the search is then the lookup in that list.
\<close>

section \<open>Opening\<close>

record reader =
  rd_mmap :: bytes
  rd_source :: row_source
  rd_header :: ple_pack_header
  rd_hot_row_count :: usize
  rd_index_offset :: usize
  rd_data_offset :: usize
  rd_overlay_bytes :: u64

text \<open>One turn of the loop of \<open>validate_index\<close>; its value is the new \<open>previous_row\<close>.\<close>

definition validate_entry ::
    "bytes \<Rightarrow> disk_header \<Rightarrow> u32 option \<Rightarrow> usize \<Rightarrow> ple_pack_io_error fault + u32 option" where
  "validate_entry index disk previous_row ordinal =
     bindE (ok_or (checked_mul ordinal INDEX_ENTRY_BYTES)
              (Err (Format ''hot index scan offset overflow''))) (\<lambda>start.
     bindE (ok_or (checked_add start INDEX_ENTRY_BYTES)
              (Err (Format ''hot index scan end overflow''))) (\<lambda>end.
     bindE (index_range index (unat start) (unat end)) (\<lambda>entry.
     bindE (map_err Err (decode_index_entry entry)) (\<lambda>(logical_row, overlay_offset).
     if ucast logical_row \<ge> hd_row_count (logical disk)
     then Inl (Err (Format ''hot index contains logical row outside source''))
     else if (case previous_row of None \<Rightarrow> False | Some previous \<Rightarrow> previous \<ge> logical_row)
     then Inl (Err (Format ''hot index logical rows are not strictly sorted''))
     else
     bindE (ok_or (checked_add overlay_offset (ucast (hd_row_bytes (logical disk))))
              (Err (Format ''hot index row end overflow''))) (\<lambda>row_end.
     if row_end > overlay_bytes disk
     then Inl (Err (Format ''hot index row exceeds overlay data region''))
     else
     bindE (rem_or_panic overlay_offset (ucast (hd_block_bytes (logical disk)))) (\<lambda>in_block.
     bindE (ok_or (checked_add in_block (ucast (hd_row_bytes (logical disk))))
              (Err (Format ''hot index block boundary overflow''))) (\<lambda>in_block_end.
     if in_block_end > ucast (hd_block_bytes (logical disk))
     then Inl (Err (Format ''hot index row crosses overlay block boundary''))
     else Inr (Some logical_row))))))))"

fun validate_entries ::
    "bytes \<Rightarrow> disk_header \<Rightarrow> u32 option \<Rightarrow> nat list \<Rightarrow> ple_pack_io_error fault + unit" where
  "validate_entries index disk previous_row [] = Inr ()"
| "validate_entries index disk previous_row (i # ordinals) =
     bindE (validate_entry index disk previous_row (word_of_nat i))
       (\<lambda>previous_row. validate_entries index disk previous_row ordinals)"

definition validate_index ::
    "bytes \<Rightarrow> usize \<Rightarrow> disk_header \<Rightarrow> ple_pack_io_error fault + unit" where
  "validate_index index hot disk =
     bindE (ok_or (checked_mul hot INDEX_ENTRY_BYTES)
              (Err (Format ''hot index validation size overflow''))) (\<lambda>expected_bytes.
     if length index \<noteq> unat expected_bytes
     then Inl (Err (Format ''hot index length does not match row count''))
     else validate_entries index disk None [0..<unat hot])"

definition reader_open ::
    "(bytes \<Rightarrow> bytes) \<Rightarrow> file_env \<Rightarrow> row_source \<Rightarrow> ple_pack_io_error fault + reader" where
  "reader_open sha256 file src =
     bindE (map_err (Err \<circ> Io) (fe_open file)) (\<lambda>_.
     bindE (map_err (Err \<circ> Io) (fe_map file)) (\<lambda>mmap.
     bindE (disk_header_decode mmap) (\<lambda>disk.
     if hd_source_digest (logical disk) \<noteq> src_digest src then Inl (Err SourceDigestMismatch)
     else if hd_row_count (logical disk) \<noteq> src_row_count src
     then Inl (Err (Format ''sidecar/source logical row counts differ''))
     else if hd_row_bytes (logical disk) \<noteq> src_row_bytes src
     then Inl (Err (Format ''sidecar/source logical row widths differ''))
     else
     bindE (ok_or (checked_add (data_offset disk) (overlay_bytes disk))
              (Err (Format ''sidecar file length overflow''))) (\<lambda>expected_file_bytes.
     if word_of_nat (length mmap) \<noteq> expected_file_bytes
     then Inl (Err (Format ''sidecar file length does not match header''))
     else
     bindE (ok_or (checked_add DISK_HEADER_BYTES (index_bytes disk))
              (Err (Format ''index end does not fit usize''))) (\<lambda>index_end.
     bindE (ok_or (get_range mmap (unat DISK_HEADER_BYTES) (unat index_end))
              (Err (Format ''hot index lies outside sidecar''))) (\<lambda>index.
     if sha256 index \<noteq> hd_index_digest (logical disk) then Inl (Err IndexDigestMismatch)
     else
     bindE (validate_index index (hot_row_count disk) disk) (\<lambda>_.
     Inr \<lparr>rd_mmap = mmap, rd_source = src, rd_header = logical disk,
          rd_hot_row_count = hot_row_count disk, rd_index_offset = DISK_HEADER_BYTES,
          rd_data_offset = data_offset disk, rd_overlay_bytes = overlay_bytes disk\<rparr>)))))))"

section \<open>The index\<close>

definition index_entry :: "reader \<Rightarrow> usize \<Rightarrow> ple_pack_io_error + u32 \<times> u64" where
  "index_entry r ordinal =
     (if ordinal \<ge> rd_hot_row_count r then Inl (Format ''hot index ordinal out of range'')
      else
      bindE (ok_or (Option.bind (checked_mul ordinal INDEX_ENTRY_BYTES)
                      (\<lambda>offset. checked_add (rd_index_offset r) offset))
               (Format ''hot index entry offset overflow'')) (\<lambda>byte_offset.
      bindE (ok_or (checked_add byte_offset INDEX_ENTRY_BYTES)
               (Format ''hot index entry end overflow'')) (\<lambda>end.
      bindE (ok_or (get_range (rd_mmap r) (unat byte_offset) (unat end))
               (Format ''hot index entry outside sidecar'')) (\<lambda>bs.
      decode_index_entry bs))))"

text \<open>The binary search. It always ends: the interval between \<open>low\<close> and \<open>high\<close> shrinks.\<close>

lemma middle_between:
  assumes "low < (high :: usize)"
  shows "unat (low + (high - low) div 2) = unat low + (unat high - unat low) div 2"
    and "low + (high - low) div 2 < high"
proof -
  have lt: "unat low < unat high" using assms by (simp add: word_less_nat_alt)
  have half: "unat ((high - low) div 2) = (unat high - unat low) div 2"
    using lt by (simp add: unat_div unat_sub_exact)
  have below: "unat low + (unat high - unat low) div 2 < unat high" using lt by linarith
  then have "unat low + (unat high - unat low) div 2 < 18446744073709551616"
    using unat_u64_lt [of high] by linarith
  then show mid: "unat (low + (high - low) div 2) = unat low + (unat high - unat low) div 2"
    using unat_add_exact [of low "(high - low) div 2"] half by simp
  then show "low + (high - low) div 2 < high"
    using below by (simp add: word_less_nat_alt)
qed

lemma middle_plus_one:
  assumes "low < (high :: usize)"
  shows "unat (low + (high - low) div 2 + 1) = Suc (unat (low + (high - low) div 2))"
proof -
  have "unat (low + (high - low) div 2) < unat high"
    using middle_between(2) [OF assms] by (simp add: word_less_nat_alt)
  then have "unat (low + (high - low) div 2) < 18446744073709551615"
    using unat_u64_lt [of high] by linarith
  then show ?thesis
    using unat_add_exact [of "low + (high - low) div 2" 1] by simp
qed

function search ::
    "reader \<Rightarrow> u32 \<Rightarrow> usize \<Rightarrow> usize \<Rightarrow> ple_pack_io_error + u64 option" where
  "search r logical_row low high =
     (if low < high then
        (let middle = low + (high - low) div 2
         in bindE (index_entry r middle) (\<lambda>(row, offset).
              if row < logical_row then search r logical_row (middle + 1) high
              else if row > logical_row then search r logical_row low middle
              else Inr (Some offset)))
      else Inr None)"
  by pat_completeness auto

termination
proof (relation "measure (\<lambda>(r, row, low, high). unat high - unat low)", goal_cases)
  case (2 r row low high middle)
  then show ?case
    using middle_between(1) [of low high] middle_plus_one [of low high]
    by (auto simp: word_less_nat_alt)
next
  case (3 r row low high middle)
  then show ?case
    using middle_between [of low high] by (auto simp: word_less_nat_alt)
qed simp

definition find_overlay_offset :: "reader \<Rightarrow> u32 \<Rightarrow> ple_pack_io_error + u64 option" where
  "find_overlay_offset r logical_row = search r logical_row 0 (rd_hot_row_count r)"

definition has_hot_overlay :: "reader \<Rightarrow> u32 \<Rightarrow> bool" where
  "has_hot_overlay r logical_row =
     (case find_overlay_offset r logical_row of Inr (Some _) \<Rightarrow> True | _ \<Rightarrow> False)"

declare search.simps [simp del]

section \<open>Rows\<close>

definition context_message :: "string \<Rightarrow> string \<Rightarrow> string \<Rightarrow> ple_pack_io_error" where
  "context_message ctx verification other =
     Format (if ctx = ''overlay verification'' then verification else other)"

definition overlay_row :: "reader \<Rightarrow> u64 \<Rightarrow> string \<Rightarrow> ple_pack_io_error + bytes" where
  "overlay_row r overlay_offset ctx =
     bindE (ok_or (checked_add overlay_offset (ucast (hd_row_bytes (rd_header r))))
              (context_message ctx ''overlay verification row end overflow''
                 ''overlay row end overflow'')) (\<lambda>relative_end.
     if relative_end > rd_overlay_bytes r
     then Inl (context_message ctx ''overlay verification row exceeds data region''
                 ''overlay row exceeds verified data region'')
     else
     bindE (ok_or (checked_add (rd_data_offset r) overlay_offset)
              (context_message ctx ''overlay verification absolute offset overflow''
                 ''overlay absolute row offset overflow'')) (\<lambda>start.
     bindE (ok_or (checked_add start (ucast (hd_row_bytes (rd_header r))))
              (context_message ctx ''overlay verification slice end overflow''
                 ''overlay row slice end overflow'')) (\<lambda>end.
     ok_or (get_range (rd_mmap r) (unat start) (unat end))
       (context_message ctx ''overlay verification row lies outside sidecar''
          ''overlay row lies outside sidecar''))))"

text \<open>\<open>copy_from_slice\<close> panics when the lengths differ.\<close>

definition copy_from_slice :: "bytes \<Rightarrow> bytes \<Rightarrow> 'e fault + bytes" where
  "copy_from_slice dst src = (if length dst = length src then Inr src else Inl Panic)"

definition reader_read_exact_row :: "reader \<Rightarrow> u32 \<Rightarrow> bytes \<Rightarrow> ple_pack_io_error fault + bytes" where
  "reader_read_exact_row r logical_row dst =
     (if ucast logical_row \<ge> hd_row_count (rd_header r)
      then Inl (Err (Layout (LogicalRowOutOfRange logical_row (hd_row_count (rd_header r)))))
      else
        (let expected = unat (hd_row_bytes (rd_header r))
         in if length dst \<noteq> expected then Inl (Err (RowBufferWidth expected (length dst)))
            else
            bindE (map_err Err (find_overlay_offset r logical_row)) (\<lambda>found.
            case found of
              Some overlay_offset \<Rightarrow>
                bindE (map_err Err (overlay_row r overlay_offset ''overlay'')) (copy_from_slice dst)
            | None \<Rightarrow> map_err Err (src_read_exact_row (rd_source r) logical_row dst))))"

fun verify_ordinals :: "reader \<Rightarrow> bytes \<Rightarrow> nat list \<Rightarrow> ple_pack_io_error + unit" where
  "verify_ordinals r expected [] = Inr ()"
| "verify_ordinals r expected (i # ordinals) =
     bindE (index_entry r (word_of_nat i)) (\<lambda>(logical_row, overlay_offset).
     bindE (src_read_exact_row (rd_source r) logical_row expected) (\<lambda>expected.
     bindE (overlay_row r overlay_offset ''overlay verification'') (\<lambda>actual.
     if actual \<noteq> expected then Inl (OverlayDataMismatch logical_row)
     else verify_ordinals r expected ordinals)))"

definition verify_hot_overlay :: "reader \<Rightarrow> ple_pack_io_error + u64" where
  "verify_hot_overlay r =
     bindE (verify_ordinals r (replicate (unat (hd_row_bytes (rd_header r))) 0)
              [0..<unat (rd_hot_row_count r)]) (\<lambda>_.
     Inr (rd_hot_row_count r))"

section \<open>The index as a list\<close>

definition index_pair :: "bytes \<Rightarrow> nat \<Rightarrow> u32 \<times> u64" where
  "index_pair bs i = (u32_from_le_bytes (field (12 * i) 4 bs), u64_from_le_bytes (field (12 * i + 4) 8 bs))"

definition decoded_index :: "bytes \<Rightarrow> nat \<Rightarrow> (u32 \<times> u64) list" where
  "decoded_index bs n = map (index_pair bs) [0..<n]"

text \<open>What \<open>open\<close> asks of one entry.\<close>

definition entry_ok :: "disk_header \<Rightarrow> u32 \<times> u64 \<Rightarrow> bool" where
  "entry_ok d e \<longleftrightarrow>
     unat (fst e) < unat (hd_row_count (logical d)) \<and>
     unat (snd e) + unat (hd_row_bytes (logical d)) \<le> unat (overlay_bytes d) \<and>
     unat (snd e) mod unat (hd_block_bytes (logical d)) + unat (hd_row_bytes (logical d))
       \<le> unat (hd_block_bytes (logical d))"

lemma field_field: "a + n \<le> m \<Longrightarrow> field a n (field b m bs) = field (b + a) n bs"
  by (simp add: field_def drop_take min_absorb1 add.commute)

lemma decode_entry_at:
  assumes "12 * Suc i \<le> length bs"
  shows "decode_index_entry (field (12 * i) 12 bs) = Inr (index_pair bs i)"
  using assms
  by (simp add: decode_index_entry_def INDEX_ENTRY_BYTES_def read_u32_field read_u64_field
      field_field index_pair_def)

lemma validate_entry_eq:
  assumes "length index = 12 * n" and "12 * n < 2 ^ 64" and "i < n" and "wf_header (logical disk)"
  shows "validate_entry index disk previous_row (word_of_nat i) = Inr p \<longleftrightarrow>
    entry_ok disk (index_pair index i) \<and>
    (\<forall>q. previous_row = Some q \<longrightarrow> q < fst (index_pair index i)) \<and>
    p = Some (fst (index_pair index i))"
proof -
  let ?rb = "hd_row_bytes (logical disk)" and ?bb = "hd_block_bytes (logical disk)"
  let ?row = "fst (index_pair index i)" and ?off = "snd (index_pair index i)"
  have i: "12 * Suc i \<le> 12 * n" using assms(3) by simp
  then have words: "unat (word_of_nat i :: usize) = i" "unat (word_of_nat i * 12 :: usize) = 12 * i"
    using assms(2) unat_mult_exact [of "word_of_nat i :: usize" 12]
    by (simp_all add: unat_of_nat_u64)
  have mul: "checked_mul (word_of_nat i) INDEX_ENTRY_BYTES = Some (word_of_nat i * 12)"
    using words i assms(2) by (simp add: checked_mul_def INDEX_ENTRY_BYTES_def)
  have add: "checked_add (word_of_nat i * 12) INDEX_ENTRY_BYTES = Some (word_of_nat i * 12 + 12)"
    and "end": "unat (word_of_nat i * 12 + 12 :: usize) = 12 * i + 12"
    using words i assms(2) unat_add_exact [of "word_of_nat i * 12 :: usize" 12]
    by (simp_all add: checked_add_def INDEX_ENTRY_BYTES_def)
  have range: "index_range index (12 * i) (12 * i + 12) = Inr (field (12 * i) 12 index)"
    using i assms(1) by (simp add: index_range_def get_range_field)
  have dec: "decode_index_entry (field (12 * i) 12 index) = Inr (?row, ?off)"
    using decode_entry_at [of i index] i assms(1) by simp
  have bb: "?bb \<noteq> 0" by (rule wf_header_block_nonzero [OF assms(4)])
  have region: "(\<exists>e. checked_add ?off (ucast ?rb) = Some e \<and> \<not> e > overlay_bytes disk) \<longleftrightarrow>
      unat ?off + unat ?rb \<le> unat (overlay_bytes disk)"
    by (simp add: checked_add_bounded_iff)
  have md: "unat (?off mod ucast ?bb) = unat ?off mod unat ?bb" by (simp add: unat_mod)
  have block: "(\<exists>e. checked_add (?off mod ucast ?bb) (ucast ?rb) = Some e \<and> \<not> e > ucast ?bb)
      \<longleftrightarrow> unat ?off mod unat ?bb + unat ?rb \<le> unat ?bb"
    by (simp add: checked_add_bounded_iff md)
  have inside: "hd_row_count (logical disk) \<le> ucast ?row \<longleftrightarrow>
      \<not> unat ?row < unat (hd_row_count (logical disk))"
    by (simp add: word_le_nat_alt not_less)
  have prev: "(case previous_row of None \<Rightarrow> False | Some previous \<Rightarrow> previous \<ge> ?row) \<longleftrightarrow>
      \<not> (\<forall>q. previous_row = Some q \<longrightarrow> q < ?row)"
    by (auto simp: not_less split: option.split)
  have "validate_entry index disk previous_row (word_of_nat i) = Inr p \<longleftrightarrow>
      unat ?row < unat (hd_row_count (logical disk)) \<and>
      (\<forall>q. previous_row = Some q \<longrightarrow> q < ?row) \<and>
      (\<exists>e. checked_add ?off (ucast ?rb) = Some e \<and> \<not> e > overlay_bytes disk) \<and>
      (\<exists>e. checked_add (?off mod ucast ?bb) (ucast ?rb) = Some e \<and> \<not> e > ucast ?bb) \<and>
      p = Some ?row"
    unfolding validate_entry_def mul add ok_or_simps bindE_simps words "end" range dec map_err_simps
      prod.case inside prev
    by (auto simp only: result_simps rem_or_panic_def bb ucast_u32_u64_eq_0 if_False bindE_simps
        not_not simp_thms)
  then show ?thesis unfolding region block entry_ok_def by blast
qed

lemma validate_entries_ok_iff:
  assumes "length index = 12 * n" and "12 * n < 2 ^ 64" and "wf_header (logical disk)"
  shows "set is \<subseteq> {..<n} \<Longrightarrow> validate_entries index disk prev is = Inr () \<longleftrightarrow>
    list_all (entry_ok disk) (map (index_pair index) is) \<and>
    sorted_wrt (<) (case_option [] (\<lambda>q. [q]) prev @ map (\<lambda>i. fst (index_pair index i)) is)"
proof (induction "is" arbitrary: prev)
  case Nil
  then show ?case by (simp split: option.split)
next
  case (Cons i "is")
  have step: "validate_entry index disk prev (word_of_nat i) = Inr p \<longleftrightarrow>
      entry_ok disk (index_pair index i) \<and> (\<forall>q. prev = Some q \<longrightarrow> q < fst (index_pair index i)) \<and>
      p = Some (fst (index_pair index i))" for p
    using Cons.prems by (intro validate_entry_eq [OF assms(1,2) _ assms(3)]) simp
  let ?x = "fst (index_pair index i)" and ?xs = "map (\<lambda>i. fst (index_pair index i)) is"
  have "validate_entries index disk prev (i # is) = Inr () \<longleftrightarrow>
      entry_ok disk (index_pair index i) \<and> (\<forall>q. prev = Some q \<longrightarrow> q < ?x) \<and>
      validate_entries index disk (Some ?x) is = Inr ()"
    by (auto simp: bindE_Inr_iff step)
  also have "\<dots> \<longleftrightarrow> entry_ok disk (index_pair index i) \<and> (\<forall>q. prev = Some q \<longrightarrow> q < ?x) \<and>
      list_all (entry_ok disk) (map (index_pair index) is) \<and> sorted_wrt (<) (?x # ?xs)"
    using Cons.IH [of "Some ?x"] Cons.prems by simp
  also have "(\<forall>q. prev = Some q \<longrightarrow> q < ?x) \<and>
      list_all (entry_ok disk) (map (index_pair index) is) \<and> sorted_wrt (<) (?x # ?xs) \<longleftrightarrow>
      list_all (entry_ok disk) (map (index_pair index) is) \<and>
      sorted_wrt (<) (case_option [] (\<lambda>q. [q]) prev @ ?x # ?xs)"
    by (cases prev) (auto simp: sorted_wrt2 [OF transp_on_less] simp del: sorted_wrt.simps(2))
  finally show ?case by simp
qed

lemma validate_index_ok_iff:
  assumes "12 * unat hot < 2 ^ 64" and "wf_header (logical disk)"
  shows "validate_index index hot disk = Inr () \<longleftrightarrow>
    length index = 12 * unat hot \<and> list_all (entry_ok disk) (decoded_index index (unat hot)) \<and>
    sorted_wrt (<) (map fst (decoded_index index (unat hot)))"
proof -
  have "unat (hot * 12) = 12 * unat hot"
    using assms(1) unat_mult_exact [of hot 12] by simp
  moreover have "checked_mul hot INDEX_ENTRY_BYTES = Some (hot * 12)"
    using assms(1) by (simp add: checked_mul_def INDEX_ENTRY_BYTES_def)
  ultimately show ?thesis
    using validate_entries_ok_iff [OF _ assms, of index "[0..<unat hot]" None]
    by (auto simp: validate_index_def decoded_index_def comp_def subset_eq)
qed

section \<open>What \<open>open\<close> accepts\<close>

definition sidecar_valid ::
    "(bytes \<Rightarrow> bytes) \<Rightarrow> row_source \<Rightarrow> disk_header \<Rightarrow> bytes \<Rightarrow> bool" where
  "sidecar_valid sha256 src d bs \<longleftrightarrow>
     128 \<le> length bs \<and> wf_disk_header d \<and> take 128 bs = disk_header_encode d \<and>
     hd_source_digest (logical d) = src_digest src \<and>
     hd_row_count (logical d) = src_row_count src \<and>
     hd_row_bytes (logical d) = src_row_bytes src \<and>
     length bs = unat (data_offset d) + unat (overlay_bytes d) \<and>
     sha256 (field 128 (unat (index_bytes d)) bs) = hd_index_digest (logical d) \<and>
     list_all (entry_ok d) (decoded_index (drop 128 bs) (unat (hot_row_count d))) \<and>
     sorted_wrt (<) (map fst (decoded_index (drop 128 bs) (unat (hot_row_count d))))"

definition reader_of :: "row_source \<Rightarrow> disk_header \<Rightarrow> bytes \<Rightarrow> reader" where
  "reader_of src d bs =
     \<lparr>rd_mmap = bs, rd_source = src, rd_header = logical d, rd_hot_row_count = hot_row_count d,
      rd_index_offset = DISK_HEADER_BYTES, rd_data_offset = data_offset d,
      rd_overlay_bytes = overlay_bytes d\<rparr>"

lemma index_pair_take:
  "12 * Suc i \<le> n \<Longrightarrow> index_pair (take n bs) i = index_pair bs i"
  by (simp add: index_pair_def field_def drop_take min_absorb1)

lemma decoded_index_take: "12 * n \<le> m \<Longrightarrow> decoded_index (take m bs) n = decoded_index bs n"
  by (simp add: decoded_index_def index_pair_take)

lemma reader_open_ok_iff:
  assumes "length bs < 2 ^ 64"
  shows "reader_open sha256 (stable_file bs) src = Inr r \<longleftrightarrow>
    (\<exists>d. sidecar_valid sha256 src d bs \<and> r = reader_of src d bs)"
proof -
  have len: "unat (word_of_nat (length bs) :: u64) = length bs"
    using assms by (simp add: unat_of_nat_u64)
  have tail: "(if hd_source_digest (logical d) \<noteq> src_digest src then Inl (Err SourceDigestMismatch)
      else if hd_row_count (logical d) \<noteq> src_row_count src
      then Inl (Err (Format ''sidecar/source logical row counts differ''))
      else if hd_row_bytes (logical d) \<noteq> src_row_bytes src
      then Inl (Err (Format ''sidecar/source logical row widths differ''))
      else
      bindE (ok_or (checked_add (data_offset d) (overlay_bytes d))
               (Err (Format ''sidecar file length overflow''))) (\<lambda>expected_file_bytes.
      if word_of_nat (length bs) \<noteq> expected_file_bytes
      then Inl (Err (Format ''sidecar file length does not match header''))
      else
      bindE (ok_or (checked_add DISK_HEADER_BYTES (index_bytes d))
               (Err (Format ''index end does not fit usize''))) (\<lambda>index_end.
      bindE (ok_or (get_range bs (unat DISK_HEADER_BYTES) (unat index_end))
               (Err (Format ''hot index lies outside sidecar''))) (\<lambda>index.
      if sha256 index \<noteq> hd_index_digest (logical d) then Inl (Err IndexDigestMismatch)
      else bindE (validate_index index (hot_row_count d) d) (\<lambda>_. Inr (reader_of src d bs))))))
      = Inr r \<longleftrightarrow> sidecar_valid sha256 src d bs \<and> r = reader_of src d bs"
    if wf: "wf_disk_header d" and enc: "128 \<le> length bs" "take 128 bs = disk_header_encode d" for d
  proof -
    let ?doff = "data_offset d" and ?ob = "overlay_bytes d" and ?ib = "index_bytes d"
    have ib: "unat ?ib = 12 * unat (hot_row_count d)" "128 + unat ?ib \<le> unat ?doff"
      using wf by (simp_all add: wf_disk_header_def)
    have hot: "12 * unat (hot_row_count d) < 2 ^ 64"
      using unat_u64_lt [of ?ib] ib(1) by simp
    have "128 + unat ?ib < 18446744073709551616"
      using ib(2) unat_u64_lt [of ?doff] by linarith
    then have index_end: "checked_add DISK_HEADER_BYTES ?ib = Some (128 + ?ib)"
      "unat (128 + ?ib) = 128 + unat ?ib"
      using unat_add_exact [of 128 ?ib] by (simp_all add: checked_add_def DISK_HEADER_BYTES_def)
    show ?thesis
    proof (cases "length bs = unat ?doff + unat ?ob")
      case True
      then have "unat ?doff + unat ?ob < 18446744073709551616" using assms by simp
      then have size: "checked_add ?doff ?ob = Some (word_of_nat (length bs))"
        using True unat_add_exact [of ?doff ?ob]
        by (simp add: checked_add_def eq_word_of_nat)
      have range: "get_range bs 128 (128 + unat ?ib) = Some (field 128 (unat ?ib) bs)"
        using True ib(2) by (intro get_range_field) simp
      have "decoded_index (field 128 (unat ?ib) bs) (unat (hot_row_count d))
          = decoded_index (drop 128 bs) (unat (hot_row_count d))"
        using ib(1) by (simp add: field_def decoded_index_take)
      moreover have "length (field 128 (unat ?ib) bs) = 12 * unat (hot_row_count d)"
        using True ib by simp
      ultimately have "validate_index (field 128 (unat ?ib) bs) (hot_row_count d) d = Inr () \<longleftrightarrow>
          list_all (entry_ok d) (decoded_index (drop 128 bs) (unat (hot_row_count d))) \<and>
          sorted_wrt (<) (map fst (decoded_index (drop 128 bs) (unat (hot_row_count d))))"
        using wf by (subst validate_index_ok_iff [OF hot]) (simp_all add: wf_disk_header_def)
      moreover have "sidecar_valid sha256 src d bs \<longleftrightarrow>
          hd_source_digest (logical d) = src_digest src \<and>
          hd_row_count (logical d) = src_row_count src \<and>
          hd_row_bytes (logical d) = src_row_bytes src \<and>
          sha256 (field 128 (unat ?ib) bs) = hd_index_digest (logical d) \<and>
          list_all (entry_ok d) (decoded_index (drop 128 bs) (unat (hot_row_count d))) \<and>
          sorted_wrt (<) (map fst (decoded_index (drop 128 bs) (unat (hot_row_count d))))"
        using True wf enc by (simp only: sidecar_valid_def simp_thms)
      moreover have "unat DISK_HEADER_BYTES = 128" by (simp add: DISK_HEADER_BYTES_def)
      ultimately show ?thesis
        by (simp only: size index_end range result_simps ok_or_simps bindE_simps not_not
            not_True_eq_False if_False simp_thms) auto
    next
      case False
      have "\<not> (\<exists>e. checked_add ?doff ?ob = Some e \<and> word_of_nat (length bs) = e)"
        using False len unat_add_exact [of ?doff ?ob] by (auto simp: checked_add_def)
      then show ?thesis
        using False by (auto simp: sidecar_valid_def result_simps)
    qed
  qed
  show ?thesis
  proof (cases "disk_header_decode bs")
    case (Inl e)
    then have "\<not> sidecar_valid sha256 src d bs" for d
      using disk_header_decode_iff [of bs d] by (auto simp: sidecar_valid_def)
    then show ?thesis using Inl by (simp add: reader_open_def stable_file_def)
  next
    case (Inr d)
    then have d: "wf_disk_header d" "128 \<le> length bs" "take 128 bs = disk_header_encode d"
      by (simp_all add: disk_header_decode_iff)
    have "d' = d" if "sidecar_valid sha256 src d' bs" for d'
      using that Inr disk_header_decode_iff [of bs d'] by (simp add: sidecar_valid_def)
    then have "(\<exists>d'. sidecar_valid sha256 src d' bs \<and> r = reader_of src d' bs) \<longleftrightarrow>
        sidecar_valid sha256 src d bs \<and> r = reader_of src d bs" by blast
    then show ?thesis
      using tail [OF d] Inr by (simp only: reader_open_def stable_file_def file_env.simps
          map_err_simps bindE_simps reader_of_def)
  qed
qed

section \<open>Opened readers\<close>

definition reader_index :: "reader \<Rightarrow> (u32 \<times> u64) list" where
  "reader_index r = decoded_index (drop 128 (rd_mmap r)) (unat (rd_hot_row_count r))"

definition wf_reader :: "reader \<Rightarrow> bool" where
  "wf_reader r \<longleftrightarrow>
     wf_header (rd_header r) \<and> rd_index_offset r = 128 \<and>
     128 + 12 * unat (rd_hot_row_count r) \<le> unat (rd_data_offset r) \<and>
     length (rd_mmap r) = unat (rd_data_offset r) + unat (rd_overlay_bytes r) \<and>
     length (rd_mmap r) < 2 ^ 64 \<and>
     sorted_wrt (<) (map fst (reader_index r)) \<and>
     (\<forall>e \<in> set (reader_index r). unat (fst e) < unat (hd_row_count (rd_header r)) \<and>
        unat (snd e) + unat (hd_row_bytes (rd_header r)) \<le> unat (rd_overlay_bytes r)) \<and>
     hd_row_count (rd_header r) = src_row_count (rd_source r) \<and>
     hd_row_bytes (rd_header r) = src_row_bytes (rd_source r)"

lemma length_reader_index [simp]: "length (reader_index r) = unat (rd_hot_row_count r)"
  by (simp add: reader_index_def decoded_index_def)

lemma reader_of_wf:
  assumes "sidecar_valid sha256 src d bs" and "length bs < 2 ^ 64"
  shows "wf_reader (reader_of src d bs)"
  using assms
  by (auto simp: wf_reader_def reader_of_def sidecar_valid_def wf_disk_header_def reader_index_def
      DISK_HEADER_BYTES_def list_all_iff entry_ok_def)

lemma reader_open_wf:
  assumes "length bs < 2 ^ 64" and "reader_open sha256 (stable_file bs) src = Inr r"
  shows "wf_reader r"
  using assms reader_of_wf by (auto simp: reader_open_ok_iff)

lemma index_entry_eq:
  assumes "wf_reader r" and "unat i < unat (rd_hot_row_count r)"
  shows "index_entry r i = Inr (reader_index r ! unat i)"
proof -
  let ?n = "unat (rd_hot_row_count r)"
  have len: "128 + 12 * ?n \<le> length (rd_mmap r)" "length (rd_mmap r) < 18446744073709551616"
    using assms(1) by (simp_all add: wf_reader_def)
  have i: "12 * unat i + 12 \<le> 12 * ?n" using assms(2) by simp
  have mul: "unat (i * 12) = 12 * unat i" "checked_mul i 12 = Some (i * 12)"
    using i len unat_mult_exact [of i 12] by (simp_all add: checked_mul_def)
  have add: "unat (128 + i * 12) = 128 + 12 * unat i" "checked_add 128 (i * 12) = Some (128 + i * 12)"
    using i len mul unat_add_exact [of 128 "i * 12"] by (simp_all add: checked_add_def)
  have "end": "unat (128 + i * 12 + 12) = 128 + 12 * unat i + 12"
      "checked_add (128 + i * 12) 12 = Some (128 + i * 12 + 12)"
    using i len add unat_add_exact [of "128 + i * 12" 12] by (simp_all add: checked_add_def)
  have range: "get_range (rd_mmap r) (128 + 12 * unat i) (128 + 12 * unat i + 12)
      = Some (field (128 + 12 * unat i) 12 (rd_mmap r))"
    using i len by (intro get_range_field) simp
  have "field (128 + 12 * unat i) 12 (rd_mmap r) = field (12 * unat i) 12 (drop 128 (rd_mmap r))"
    by (simp add: field_def add.commute)
  then have "decode_index_entry (field (128 + 12 * unat i) 12 (rd_mmap r))
      = Inr (index_pair (drop 128 (rd_mmap r)) (unat i))"
    using decode_entry_at [of "unat i" "drop 128 (rd_mmap r)"] i len by simp
  then show ?thesis
    using assms unfolding index_entry_def
    by (simp only: word_le_nat_alt not_le [symmetric] INDEX_ENTRY_BYTES_def wf_reader_def mul(2)
        Option.bind.simps bind.bind_lunit add "end" ok_or_simps bindE_simps range if_False if_True
        reader_index_def decoded_index_def)
      (simp add: not_le nth_map)
qed

lemma unat_overlay_offset:
  assumes "wf_reader r" and "e \<in> set (reader_index r)"
  shows "unat (rd_data_offset r) + unat (snd e) + unat (hd_row_bytes (rd_header r))
    \<le> length (rd_mmap r)"
  using assms by (auto simp: wf_reader_def)

lemma overlay_row_eq:
  assumes "wf_reader r" and "e \<in> set (reader_index r)"
  shows "overlay_row r (snd e) ctx
    = Inr (field (unat (rd_data_offset r) + unat (snd e)) (unat (hd_row_bytes (rd_header r))) (rd_mmap r))"
proof -
  let ?off = "snd e" and ?doff = "rd_data_offset r" and ?rb = "hd_row_bytes (rd_header r)"
  have lt: "unat ?doff + unat ?off + unat ?rb < 18446744073709551616"
    using unat_overlay_offset [OF assms] assms(1) by (simp add: wf_reader_def)
  have rel: "checked_add ?off (ucast ?rb) = Some (?off + ucast ?rb)" "\<not> ?off + ucast ?rb > rd_overlay_bytes r"
    using assms lt unat_add_exact [of ?off "ucast ?rb"]
    by (auto simp: checked_add_def wf_reader_def word_less_nat_alt not_less)
  have start: "unat (?doff + ?off) = unat ?doff + unat ?off"
      "checked_add ?doff ?off = Some (?doff + ?off)"
    using lt unat_add_exact [of ?doff ?off] by (simp_all add: checked_add_def)
  have "end": "unat (?doff + ?off + ucast ?rb) = unat ?doff + unat ?off + unat ?rb"
      "checked_add (?doff + ?off) (ucast ?rb) = Some (?doff + ?off + ucast ?rb)"
    using lt start unat_add_exact [of "?doff + ?off" "ucast ?rb"] by (simp_all add: checked_add_def)
  show ?thesis
    unfolding overlay_row_def
    by (simp only: rel start "end" ok_or_simps bindE_simps if_False
        get_range_field [OF unat_overlay_offset [OF assms]])
qed

lemma reader_index_lookup:
  assumes "wf_reader r"
  shows "map_of (reader_index r) row = Some off \<longleftrightarrow> (row, off) \<in> set (reader_index r)"
  using assms by (simp add: wf_reader_def strict_sorted_iff)

lemma strict_sorted_nth_less:
  fixes xs :: "(u32 \<times> u64) list"
  assumes "sorted_wrt (<) (map fst xs)" and "i < j" and "j < length xs"
  shows "fst (xs ! i) < fst (xs ! j)"
  using assms by (auto simp: sorted_wrt_iff_nth_less)

text \<open>Everything left of \<open>low\<close> is smaller than the key, everything from \<open>high\<close> on is larger.\<close>

definition search_window :: "reader \<Rightarrow> u32 \<Rightarrow> nat \<Rightarrow> nat \<Rightarrow> bool" where
  "search_window r key low high \<longleftrightarrow>
     high \<le> unat (rd_hot_row_count r) \<and>
     (\<forall>i < low. i < unat (rd_hot_row_count r) \<longrightarrow> fst (reader_index r ! i) < key) \<and>
     (\<forall>i < unat (rd_hot_row_count r). high \<le> i \<longrightarrow> key < fst (reader_index r ! i))"

lemma search_window_left:
  assumes "wf_reader r" and "search_window r key low high" and "m < high"
    and "fst (reader_index r ! m) < key"
  shows "search_window r key (Suc m) high"
proof -
  have sorted: "sorted_wrt (<) (map fst (reader_index r))"
    using assms(1) by (simp add: wf_reader_def)
  have "fst (reader_index r ! i) < key" if "i < Suc m" for i
    using strict_sorted_nth_less [OF sorted, of i m] that assms
    by (cases "i = m") (auto simp: search_window_def)
  then show ?thesis using assms(2) by (simp add: search_window_def)
qed

lemma search_window_right:
  assumes "wf_reader r" and "search_window r key low high" and "m < high"
    and "key < fst (reader_index r ! m)"
  shows "search_window r key low m"
proof -
  have sorted: "sorted_wrt (<) (map fst (reader_index r))"
    using assms(1) by (simp add: wf_reader_def)
  have "key < fst (reader_index r ! i)" if "m \<le> i" "i < unat (rd_hot_row_count r)" for i
    using strict_sorted_nth_less [OF sorted, of m i] that assms(4) by (cases "i = m") auto
  then show ?thesis using assms(2,3) by (simp add: search_window_def)
qed

lemma search_window_empty:
  assumes "search_window r key low high" and "high \<le> low"
  shows "map_of (reader_index r) key = None"
proof -
  have "fst (reader_index r ! i) \<noteq> key" if "i < unat (rd_hot_row_count r)" for i
    using assms that by (cases "i < low") (auto simp: search_window_def)
  then show ?thesis by (force simp: map_of_eq_None_iff in_set_conv_nth)
qed

lemma search_eq_lookup:
  "wf_reader r \<Longrightarrow> search_window r key (unat low) (unat high) \<Longrightarrow>
    search r key low high = Inr (map_of (reader_index r) key)"
proof (induction r key low high rule: search.induct)
  case (1 r key low high)
  show ?case
  proof (cases "low < high")
    case False
    then have "map_of (reader_index r) key = None"
      using search_window_empty [OF "1.prems"(2)] by (simp add: word_less_nat_alt not_less)
    then show ?thesis using False by (subst search.simps) simp
  next
    case True
    define m where "m = low + (high - low) div 2"
    have m: "unat m < unat high" "unat (m + 1) = Suc (unat m)"
      using middle_between(2) [OF True] middle_plus_one [OF True]
      by (simp_all add: m_def word_less_nat_alt)
    then have "unat m < unat (rd_hot_row_count r)"
      using "1.prems"(2) by (simp add: search_window_def)
    then have entry: "index_entry r m = Inr (reader_index r ! unat m)"
      and mem: "reader_index r ! unat m \<in> set (reader_index r)"
      using index_entry_eq [OF "1.prems"(1), of m] by simp_all
    obtain row off where e: "reader_index r ! unat m = (row, off)" by fastforce
    have unfolded: "search r key low high =
        (if row < key then search r key (m + 1) high
         else if row > key then search r key low m else Inr (Some off))"
      using True entry e by (subst search.simps) (simp add: m_def [symmetric] Let_def)
    consider "row < key" | "row > key" | "row = key" by fastforce
    then show ?thesis
    proof cases
      case 1
      then show ?thesis
        using "1.IH"(1) [OF True m_def entry] "1.prems" e m unfolded
          search_window_left [OF "1.prems" m(1)] by simp
    next
      case 2
      then have "\<not> row < key" by simp
      then show ?thesis
        using "1.IH"(2) [OF True m_def entry] "1.prems" e m unfolded 2
          search_window_right [OF "1.prems" m(1)] by simp
    next
      case 3
      then show ?thesis
        using unfolded mem e reader_index_lookup [OF "1.prems"(1), of key off] by simp
    qed
  qed
qed

lemma find_overlay_offset_eq:
  assumes "wf_reader r"
  shows "find_overlay_offset r row = Inr (map_of (reader_index r) row)"
  unfolding find_overlay_offset_def
  by (rule search_eq_lookup [OF assms]) (simp add: search_window_def)

section \<open>Reads and verification\<close>

definition reader_row :: "reader \<Rightarrow> u64 \<Rightarrow> bytes" where
  "reader_row r off =
     field (unat (rd_data_offset r) + unat off) (unat (hd_row_bytes (rd_header r))) (rd_mmap r)"

lemma length_reader_row:
  "wf_reader r \<Longrightarrow> e \<in> set (reader_index r) \<Longrightarrow>
     length (reader_row r (snd e)) = unat (hd_row_bytes (rd_header r))"
  using unat_overlay_offset [of r e] by (simp add: reader_row_def)

lemma reader_read_eq:
  assumes "wf_reader r"
  shows "reader_read_exact_row r row dst =
    (if \<not> unat row < unat (hd_row_count (rd_header r))
     then Inl (Err (Layout (LogicalRowOutOfRange row (hd_row_count (rd_header r)))))
     else if length dst \<noteq> unat (hd_row_bytes (rd_header r))
     then Inl (Err (RowBufferWidth (unat (hd_row_bytes (rd_header r))) (length dst)))
     else case map_of (reader_index r) row of
            Some off \<Rightarrow> Inr (reader_row r off)
          | None \<Rightarrow> map_err Err (src_read_exact_row (rd_source r) row dst))"
proof -
  have "bindE (map_err Err (overlay_row r off ''overlay'')) (copy_from_slice dst)
      = (Inr (reader_row r off) :: ple_pack_io_error fault + bytes)"
    if "map_of (reader_index r) row = Some off" "length dst = unat (hd_row_bytes (rd_header r))" for off
  proof -
    have mem: "(row, off) \<in> set (reader_index r)"
      using that(1) reader_index_lookup [OF assms] by simp
    show ?thesis
      using overlay_row_eq [OF assms mem] length_reader_row [OF assms mem] that(2)
      by (simp add: copy_from_slice_def reader_row_def)
  qed
  then show ?thesis
    by (auto simp: reader_read_exact_row_def find_overlay_offset_eq [OF assms] Let_def
        word_le_nat_alt not_less split: option.split)
qed

lemma no_panic_read: "wf_reader r \<Longrightarrow> no_panic (reader_read_exact_row r row dst)"
  by (auto simp: reader_read_eq intro!: no_panic_intros split: option.split)

lemma no_panic_validate_entry:
  assumes "length index = 12 * n" and "12 * n < 2 ^ 64" and "i < n" and "hd_block_bytes (logical disk) \<noteq> 0"
  shows "no_panic (validate_entry index disk previous_row (word_of_nat i))"
proof -
  have i: "12 * i + 12 \<le> 12 * n" using assms(3) by simp
  then have words: "unat (word_of_nat i :: usize) = i" "unat (word_of_nat i * 12 :: usize) = 12 * i"
    using assms(2) unat_mult_exact [of "word_of_nat i :: usize" 12]
    by (simp_all add: unat_of_nat_u64)
  then have "unat (word_of_nat i * 12 + 12 :: usize) = 12 * i + 12"
    using i assms(2) unat_add_exact [of "word_of_nat i * 12 :: usize" 12] by simp
  then have range: "no_panic (index_range index (unat (word_of_nat i * 12 :: usize))
      (unat (word_of_nat i * 12 + 12 :: usize)) :: ple_pack_io_error fault + bytes)"
    using i assms(1) words by (simp add: index_range_def get_range_field no_panic_intros)
  have rem: "no_panic (rem_or_panic off (ucast (hd_block_bytes (logical disk)) :: u64)
      :: ple_pack_io_error fault + u64)" for off
    using assms(4) by (simp add: rem_or_panic_def no_panic_intros)
  show ?thesis
    unfolding validate_entry_def case_prod_unfold INDEX_ENTRY_BYTES_def
    by (intro no_panic_intros rem) (auto simp: result_simps intro: range)
qed

lemma no_panic_validate_entries:
  assumes "length index = 12 * n" and "12 * n < 2 ^ 64" and "hd_block_bytes (logical disk) \<noteq> 0"
  shows "set is \<subseteq> {..<n} \<Longrightarrow> no_panic (validate_entries index disk prev is)"
proof (induction "is" arbitrary: prev)
  case (Cons i "is")
  then show ?case
    by (auto intro!: no_panic_intros no_panic_validate_entry [OF assms(1,2) _ assms(3)])
qed (simp add: no_panic_intros)

lemma no_panic_validate_index:
  "hd_block_bytes (logical disk) \<noteq> 0 \<Longrightarrow> no_panic (validate_index index hot disk)"
  unfolding validate_index_def
proof (intro no_panic_intros)
  fix expected
  assume bb: "hd_block_bytes (logical disk) \<noteq> 0"
    and "ok_or (checked_mul hot INDEX_ENTRY_BYTES) (Err (Format ''hot index validation size overflow''))
      = Inr expected" and len: "\<not> length index \<noteq> unat expected"
  then have "expected = hot * 12" "unat hot * 12 < 18446744073709551616"
    by (simp_all add: result_simps INDEX_ENTRY_BYTES_def)
  then have "length index = 12 * unat hot" "12 * unat hot < 2 ^ 64"
    using len unat_mult_exact [of hot 12] by simp_all
  then show "no_panic (validate_entries index disk None [0..<unat hot])"
    using bb by (intro no_panic_validate_entries) auto
qed

lemma no_panic_open: "no_panic (reader_open sha256 file src)"
  unfolding reader_open_def
proof (intro no_panic_intros no_panic_decode no_panic_validate_index)
  fix mmap disk
  assume "disk_header_decode mmap = Inr disk"
  then show "hd_block_bytes (logical disk) \<noteq> 0"
    by (simp add: disk_header_decode_iff wf_disk_header_def wf_header_block_nonzero)
qed

text \<open>Verification, against any source that keeps the contract.\<close>

context exact_row_source
begin

lemma verify_ordinals_eq:
  assumes "wf_reader r" and "rd_source r = as_source s" and "invar s"
  shows "set is \<subseteq> {..<unat (rd_hot_row_count r)} \<Longrightarrow>
    length expected = unat (hd_row_bytes (rd_header r)) \<Longrightarrow>
    verify_ordinals r expected is =
      (case List.find (\<lambda>e. reader_row r (snd e) \<noteq> row_data s (fst e)) (map ((!) (reader_index r)) is) of
         None \<Rightarrow> Inr ()
       | Some e \<Rightarrow> Inl (OverlayDataMismatch (fst e)))"
proof (induction "is" arbitrary: expected)
  case (Cons i "is")
  have src: "src_row_count (as_source s) = hd_row_count (rd_header r)"
    "src_row_bytes (as_source s) = hd_row_bytes (rd_header r)"
    using assms(1,2) by (simp_all add: wf_reader_def)
  have i: "i < unat (rd_hot_row_count r)" using Cons.prems(1) by simp
  then have word: "unat (word_of_nat i :: usize) = i"
    using unat_u64_lt [of "rd_hot_row_count r"] by (intro unat_of_nat_u64) linarith
  obtain row off where e: "reader_index r ! i = (row, off)" by fastforce
  have mem: "(row, off) \<in> set (reader_index r)"
    using i e by (metis length_reader_index nth_mem)
  have entry: "index_entry r (word_of_nat i) = Inr (row, off)"
    using index_entry_eq [OF assms(1), of "word_of_nat i"] i word e by simp
  have row: "ucast row < src_row_count (as_source s)"
    using assms(1) mem src by (auto simp: wf_reader_def word_less_nat_alt)
  have read: "src_read_exact_row (as_source s) row expected = Inr (row_data s row)"
    using read_row [OF assms(3) row] Cons.prems(2) src by simp
  have "overlay_row r off ctx = Inr (reader_row r off)" for ctx
    using overlay_row_eq [OF assms(1) mem] by (simp add: reader_row_def)
  then show ?case
    using Cons.IH [of "row_data s row"] Cons.prems row_data_length [OF assms(3) row] src
    by (simp add: entry read e assms(2))
qed simp

lemma verify_hot_overlay_eq:
  assumes "wf_reader r" and "rd_source r = as_source s" and "invar s"
  shows "verify_hot_overlay r =
    (case List.find (\<lambda>e. reader_row r (snd e) \<noteq> row_data s (fst e)) (reader_index r) of
       None \<Rightarrow> Inr (rd_hot_row_count r)
     | Some e \<Rightarrow> Inl (OverlayDataMismatch (fst e)))"
proof -
  have "map ((!) (reader_index r)) [0..<unat (rd_hot_row_count r)] = reader_index r"
    using map_nth [of "reader_index r"] by simp
  then show ?thesis
    using verify_ordinals_eq [OF assms, of "[0..<unat (rd_hot_row_count r)]"]
    by (simp add: verify_hot_overlay_def subset_eq split: option.split)
qed

lemma verified_read_iff:
  assumes "wf_reader r" and "rd_source r = as_source s" and "invar s"
    and "verify_hot_overlay r = Inr n"
  shows "reader_read_exact_row r row dst = Inr data \<longleftrightarrow>
    src_read_exact_row (as_source s) row dst = Inr data"
proof -
  have src: "src_row_count (as_source s) = hd_row_count (rd_header r)"
    "src_row_bytes (as_source s) = hd_row_bytes (rd_header r)"
    using assms(1,2) by (simp_all add: wf_reader_def)
  have "reader_row r off = row_data s row" if "map_of (reader_index r) row = Some off" for off
  proof -
    have "(row, off) \<in> set (reader_index r)" using that by (rule map_of_SomeD)
    moreover have "List.find (\<lambda>e. reader_row r (snd e) \<noteq> row_data s (fst e)) (reader_index r) = None"
      using assms(4) unfolding verify_hot_overlay_eq [OF assms(1-3)] by (simp split: option.splits)
    ultimately show ?thesis by (force simp: find_None_iff)
  qed
  then show ?thesis
    using assms(2) src read_ok_iff [OF assms(3), of row dst data]
    by (auto simp: reader_read_eq [OF assms(1)] ucast_less_iff result_simps split: option.splits)
qed

end

end
