(* ===== verification/PleRoundtrip.thy ===== *)
theory PleRoundtrip
  imports PleSidecar PleReader
begin

text \<open>
  The writer and the reader together: a published image is a sidecar the reader accepts, its
  index is the plan's, and every read through it is the read of the cold source. The properties
  of the reader stand here because their examples are sidecars the writer produced.
\<close>

section \<open>The index survives\<close>

lemma index_pair_append:
  assumes "length xs = 12"
  shows "index_pair (xs @ ys) 0 = index_pair xs 0" and "index_pair (xs @ ys) (Suc i) = index_pair ys i"
  using assms by (simp_all add: index_pair_def field_append add.commute [of 4])

lemma index_pair_entry: "index_pair (encode_index_entry row off) 0 = (row, off)"
  using decode_entry_at [of 0 "encode_index_entry row off"]
    decode_index_entry_iff [of "encode_index_entry row off" row off]
  by (simp add: encode_index_entry_eq field_def)

lemma index_pair_encode: "i < length es \<Longrightarrow> index_pair (encode_index es) i = es ! i"
proof (induction es arbitrary: i)
  case (Cons e es)
  obtain row off where e: "e = (row, off)" by fastforce
  have len: "length (encode_index_entry row off) = 12" by (simp add: encode_index_entry_eq)
  have split: "encode_index ((row, off) # es) = encode_index_entry row off @ encode_index es"
    by (simp add: encode_index_def)
  show ?case
    using Cons unfolding e split
    by (cases i) (simp_all add: index_pair_append [OF len] index_pair_entry)
qed simp

lemma decoded_index_encode: "decoded_index (encode_index es) (length es) = es"
  by (rule nth_equalityI) (simp_all add: decoded_index_def index_pair_encode)

section \<open>Published images open\<close>

lemma plan_entry_ok:
  assumes "plan_matches src plan" and "e \<in> set (plan_index plan)"
  shows "entry_ok (sidecar_header sha256 src plan) e"
proof -
  have wf: "wf_layout plan" and src: "src_row_count src = lp_row_count plan"
    "src_row_bytes src = lp_row_bytes plan"
    using assms(1) by (simp_all add: plan_matches_def)
  obtain pl where pl: "pl \<in> set (lp_placements plan)"
    "e = (pl_logical_row pl, word_of_nat (placement_position plan pl))"
    using assms(2) by (auto simp: set_plan_index)
  obtain i where i: "i < length (lp_placements plan)" "pl = lp_placements plan ! i"
    using pl(1) by (metis in_set_conv_nth)
  have pos: "unat (word_of_nat (placement_position plan pl) :: u64) = placement_position plan pl"
    using placement_end [OF wf pl(1)] overlay_region_lt [OF wf] by (intro unat_of_nat_u64) linarith
  have "unat (word_of_nat (overlay_region_bytes plan) :: u64) = overlay_region_bytes plan"
    by (rule unat_of_nat_u64 [OF overlay_region_lt [OF wf]])
  moreover have "unat (pl_logical_row pl) < unat (lp_row_count plan)"
    using placement_row_inside [OF wf pl(1)] by (simp add: ucast_less_iff)
  moreover have "placement_position plan pl mod unat (lp_block_bytes plan) + unat (lp_row_bytes plan)
      \<le> unat (lp_block_bytes plan)"
    using slot_position_block(2) [of "unat (lp_row_bytes plan)" "unat (lp_block_bytes plan)" i]
      wf_layout_bytes [OF wf] placement_nth(3) [OF wf i(1)] by (simp add: i(2))
  ultimately show ?thesis
    using placement_end [OF wf pl(1)] src
    by (simp add: entry_ok_def sidecar_header_def pl(2) pos)
qed

lemma image_index:
  assumes "image_holds sha256 src rows plan img"
  shows "decoded_index (drop 128 img) (length (lp_placements plan)) = plan_index plan"
proof -
  have "take (12 * length (lp_placements plan)) (drop 128 img) = encode_index (plan_index plan)"
    using assms by (simp add: image_holds_def field_def)
  then show ?thesis
    by (metis decoded_index_encode decoded_index_take le_refl length_plan_index)
qed

lemma header_numbers:
  assumes "wf_layout plan"
  shows "unat (hot_row_count (sidecar_header sha256 src plan)) = length (lp_placements plan)"
    and "unat (index_bytes (sidecar_header sha256 src plan)) = 12 * length (lp_placements plan)"
    and "unat (data_offset (sidecar_header sha256 src plan)) = sidecar_data_offset plan"
    and "unat (overlay_bytes (sidecar_header sha256 src plan)) = overlay_region_bytes plan"
  using placements_count [OF assms] data_offset_facts(2) [OF assms] overlay_region_lt [OF assms]
  by (simp_all only: sidecar_header_def disk_header.simps unat_of_nat_u64 unat_index_size)

lemma image_valid:
  assumes "plan_matches src plan" and "\<And>x. length (sha256 x) = 32"
    and "image_holds sha256 src rows plan img"
  shows "sidecar_valid sha256 src (sidecar_header sha256 src plan) img"
proof -
  have wf: "wf_layout plan" using assms(1) by (simp add: plan_matches_def)
  have len: "length img = sidecar_bytes plan" using assms(3) by (simp add: image_holds_def)
  moreover have "128 \<le> sidecar_bytes plan"
    using data_offset_facts(1) [OF wf] by (simp add: sidecar_bytes_def)
  moreover have "sha256 (field 128 (12 * length (lp_placements plan)) img)
      = hd_index_digest (logical (sidecar_header sha256 src plan))"
    using assms(3) by (simp add: image_holds_def sidecar_header_def)
  moreover have "take 128 img = disk_header_encode (sidecar_header sha256 src plan)"
    using assms(3) by (simp add: image_holds_def)
  ultimately show ?thesis
    using sidecar_header_wf [of src plan sha256, OF assms(1,2)] plan_entry_ok [OF assms(1), of _ sha256]
      plan_index_sorted [OF wf] image_index [OF assms(3)]
    unfolding sidecar_valid_def header_numbers [OF wf]
    by (simp add: sidecar_bytes_def sidecar_header_def list_all_iff)
qed

lemma image_reader_row:
  assumes "plan_matches src plan" and "image_holds sha256 src rows plan img"
    and "e \<in> set (plan_index plan)"
  shows "reader_row (reader_of src (sidecar_header sha256 src plan) img) (snd e) = rows (fst e)"
proof -
  have wf: "wf_layout plan" and src: "src_row_bytes src = lp_row_bytes plan"
    using assms(1) by (simp_all add: plan_matches_def)
  obtain pl where pl: "pl \<in> set (lp_placements plan)"
    "e = (pl_logical_row pl, word_of_nat (placement_position plan pl))"
    using assms(3) by (auto simp: set_plan_index)
  have pos: "unat (word_of_nat (placement_position plan pl) :: u64) = placement_position plan pl"
    using placement_end [OF wf pl(1)] overlay_region_lt [OF wf] by (intro unat_of_nat_u64) linarith
  have "hd_row_bytes (logical (sidecar_header sha256 src plan)) = lp_row_bytes plan"
    by (simp add: sidecar_header_def src)
  then show ?thesis
    using assms(2) pl
    by (simp add: reader_row_def reader_of_def header_numbers(3) [OF wf] pos image_holds_def
        row_position_def)
qed

text \<open>What a reader of a published image knows, for every source that keeps the contract.\<close>

context exact_row_source
begin

lemma published_image_reader:
  assumes "invar s" and "plan_matches (as_source s) plan" and "\<And>x. length (sha256 x) = 32"
    and "sidecar_bytes plan < 2 ^ 64" and "sidecar_image sha256 (as_source s) plan = Inr img"
  shows "\<exists>r. reader_open sha256 (stable_file img) (as_source s) = Inr r \<and> wf_reader r \<and>
    rd_source r = as_source s \<and> reader_index r = plan_index plan \<and>
    verify_hot_overlay r = Inr (word_of_nat (length (lp_placements plan))) \<and>
    (\<forall>e \<in> set (reader_index r). reader_row r (snd e) = row_data s (fst e))"
proof -
  let ?d = "sidecar_header sha256 (as_source s) plan"
  let ?r = "reader_of (as_source s) ?d img"
  have wf: "wf_layout plan" using assms(2) by (simp add: plan_matches_def)
  from sidecar_image_holds [OF assms(1,2,4), of sha256, OF assms(3)] assms(5)
  have img: "image_holds sha256 (as_source s) (row_data s) plan img" by simp
  then have len: "length img < 2 ^ 64" using assms(4) by (simp add: image_holds_def)
  have valid: "sidecar_valid sha256 (as_source s) ?d img"
    by (rule image_valid [OF assms(2,3) img])
  have wfr: "wf_reader ?r" by (rule reader_of_wf [OF valid len])
  have src: "rd_source ?r = as_source s" by (simp add: reader_of_def)
  have idx: "reader_index ?r = plan_index plan"
    using image_index [OF img] header_numbers(1) [OF wf, of sha256 "as_source s"]
    by (simp add: reader_index_def reader_of_def)
  have rows: "\<forall>e \<in> set (reader_index ?r). reader_row ?r (snd e) = row_data s (fst e)"
    using image_reader_row [OF assms(2) img] by (simp add: idx)
  then have "List.find (\<lambda>e. reader_row ?r (snd e) \<noteq> row_data s (fst e)) (reader_index ?r) = None"
    by (auto simp: find_None_iff)
  then have "verify_hot_overlay ?r = Inr (word_of_nat (length (lp_placements plan)))"
    using verify_hot_overlay_eq [OF wfr src assms(1)] by (simp add: reader_of_def sidecar_header_def)
  then show ?thesis
    using reader_open_ok_iff [OF len, of sha256 "as_source s" ?r] valid wfr src idx rows by blast
qed

end

section \<open>Properties\<close>

text \<open>
  C21. \<open>PlePackReader::open\<close> accepts exactly the valid sidecars of the source: the header decodes,
  its digest and geometry are those of the source, the file has the length the header gives, the
  index has its digest, and the entries are strictly sorted by row, inside the source, inside
  the data region and inside one block each.
\<close>

theorem reader_open_exact:
  assumes "length bs < 2 ^ 64"
  shows "reader_open sha256 (stable_file bs) src = Inr r \<longleftrightarrow>
    (\<exists>d. sidecar_valid sha256 src d bs \<and> r = reader_of src d bs)"
  by (rule reader_open_ok_iff [OF assms])

text \<open>
  Opening never panics, whatever the file holds and whatever the file system answers: the
  unchecked slice, the remainder and the digest copies of the validation are all guarded.
\<close>

theorem reader_open_no_panic:
  "reader_open sha256 file src \<noteq> Inl Panic"
  using no_panic_open by (simp add: no_panic_def)

text \<open>
  C35. In an opened sidecar the binary search always ends without an error and is the lookup of
  the row in the index, so a row has a hot overlay exactly when the index lists it.
\<close>

theorem find_overlay_offset_is_lookup:
  assumes "length bs < 2 ^ 64" and "reader_open sha256 (stable_file bs) src = Inr r"
  shows "find_overlay_offset r row = Inr (map_of (reader_index r) row) \<and>
    (has_hot_overlay r row \<longleftrightarrow> row \<in> fst ` set (reader_index r))"
proof -
  have "find_overlay_offset r row = Inr (map_of (reader_index r) row)"
    by (rule find_overlay_offset_eq [OF reader_open_wf [OF assms]])
  then show ?thesis
    by (auto simp: has_hot_overlay_def map_of_eq_None_iff split: option.split)
       (metis domI dom_map_of_conv_image_fst image_eqI)
qed

text \<open>
  C36. Reading through an opened sidecar: a row outside the base and a buffer of the wrong width
  are refused with their errors, a row in the index comes from the overlay, every other row comes
  from the cold source, and no read panics.
\<close>

theorem reader_read_exact:
  assumes "length bs < 2 ^ 64" and "reader_open sha256 (stable_file bs) src = Inr r"
  shows "reader_read_exact_row r row dst =
    (if unat (hd_row_count (rd_header r)) \<le> unat row
     then Inl (Err (Layout (LogicalRowOutOfRange row (hd_row_count (rd_header r)))))
     else if length dst \<noteq> unat (hd_row_bytes (rd_header r))
     then Inl (Err (RowBufferWidth (unat (hd_row_bytes (rd_header r))) (length dst)))
     else case map_of (reader_index r) row of
            Some off \<Rightarrow> Inr (reader_row r off)
          | None \<Rightarrow> map_err Err (src_read_exact_row (rd_source r) row dst)) \<and>
    reader_read_exact_row r row dst \<noteq> Inl Panic"
  using reader_read_eq [OF reader_open_wf [OF assms], of row dst]
    no_panic_read [OF reader_open_wf [OF assms], of row dst]
  by (simp add: no_panic_def not_less)

text \<open>
  C37. Verification is exact: it reports the first index entry whose overlay bytes differ from the
  source row, by its logical row, and succeeds with the number of hot rows exactly when no entry
  differs.
\<close>

theorem verify_hot_overlay_exact:
  assumes "length bs < 2 ^ 64" and "wf_raw_source s"
    and "reader_open sha256 (stable_file bs) (raw_as_source s) = Inr r"
  shows "verify_hot_overlay r =
    (case List.find (\<lambda>e. reader_row r (snd e) \<noteq> raw_row s (fst e)) (reader_index r) of
       None \<Rightarrow> Inr (rd_hot_row_count r)
     | Some e \<Rightarrow> Inl (OverlayDataMismatch (fst e)))"
proof (rule raw.verify_hot_overlay_eq [OF reader_open_wf [OF assms(1,3)] _ assms(2)])
  show "rd_source r = raw_as_source s"
    using assms by (auto simp: reader_open_ok_iff reader_of_def)
qed

text \<open>
  C20. A verified sidecar changes no read: after \<open>verify_hot_overlay\<close> has succeeded, a read through
  the sidecar gives a row exactly when the cold source gives it, and the same bytes, whoever
  wrote the sidecar.
\<close>

theorem verified_reads_are_source_reads:
  assumes "length bs < 2 ^ 64" and "wf_raw_source s"
    and "reader_open sha256 (stable_file bs) (raw_as_source s) = Inr r"
    and "verify_hot_overlay r = Inr n"
  shows "reader_read_exact_row r row dst = Inr data \<longleftrightarrow> raw_read_exact_row s row dst = Inr data"
proof -
  have "rd_source r = raw_as_source s"
    using assms by (auto simp: reader_open_ok_iff reader_of_def)
  from raw.verified_read_iff [OF reader_open_wf [OF assms(1,3)] this assms(2,4), of row dst data]
  show ?thesis by (simp add: raw_as_source_def)
qed

text \<open>
  C19. What the writer publishes, the reader accepts, verifies and serves: the image of a planned
  overlay opens against its source, every hot row verifies, a row is hot exactly when the trace
  observed it, and every read, errors included, is the read of the cold source.
\<close>

theorem sidecar_roundtrip:
  assumes "wf_raw_source s" and "\<And>x. length (sha256 x) = 32"
    and "plan_exact_layout (raw_row_count s) (raw_row_bytes s) block_bytes trace = Inr plan"
    and "sidecar_bytes plan < 2 ^ 64"
    and "sidecar_image sha256 (raw_as_source s) plan = Inr img"
  shows "\<exists>r. reader_open sha256 (stable_file img) (raw_as_source s) = Inr r \<and>
    verify_hot_overlay r = Inr (word_of_nat (length (lp_placements plan))) \<and>
    (\<forall>row. has_hot_overlay r row \<longleftrightarrow> row \<in> (\<Union>batch \<in> set trace. set batch)) \<and>
    (\<forall>row dst. reader_read_exact_row r row dst = map_err Err (raw_read_exact_row s row dst))"
proof -
  note matches = planned_matches [OF assms(1,3)]
  have wf: "wf_layout plan" using matches by (simp add: plan_matches_def)
  from raw.published_image_reader [where ?sha256.0 = sha256, OF assms(1) matches assms(2,4,5)]
  obtain r where r: "reader_open sha256 (stable_file img) (raw_as_source s) = Inr r" "wf_reader r"
    "rd_source r = raw_as_source s" "reader_index r = plan_index plan"
    "verify_hot_overlay r = Inr (word_of_nat (length (lp_placements plan)))"
    "\<forall>e \<in> set (reader_index r). reader_row r (snd e) = raw_row s (fst e)" by blast
  have "fst ` set (plan_index plan) = set (lp_hot_order plan)"
    unfolding set_plan_index placement_rows [OF wf, symmetric] by (force simp: image_iff)
  also have "\<dots> = (\<Union>batch \<in> set trace. set batch)"
    using assms(3) by (simp add: plan_exact_layout_iff layout_reference_def Let_def)
  finally have "has_hot_overlay r row \<longleftrightarrow> row \<in> (\<Union>batch \<in> set trace. set batch)" for row
    using find_overlay_offset_eq [OF r(2), of row] map_of_eq_None_iff [of "reader_index r" row] r(4)
    by (auto simp: has_hot_overlay_def split: option.splits)
  moreover have "reader_read_exact_row r row dst = map_err Err (raw_read_exact_row s row dst)" for row dst
  proof -
    have "hd_row_count (rd_header r) = raw_row_count s" "hd_row_bytes (rd_header r) = raw_row_bytes s"
      using r(2,3) by (simp_all add: wf_reader_def raw_as_source_def)
    moreover have "map_of (reader_index r) row = Some off \<Longrightarrow> reader_row r off = raw_row s row" for off
      using r(6) map_of_SomeD [of "reader_index r" row off] by force
    ultimately show ?thesis
      using r(3) raw_read_eq [OF assms(1), of row dst]
      by (auto simp: reader_read_eq [OF r(2)] raw_as_source_def ucast_less_iff split: option.split)
  qed
  ultimately show ?thesis using r(1,5) by blast
qed

section \<open>A small sidecar\<close>

definition test_image :: bytes where
  "test_image = (case sidecar_image test_sha256 (raw_as_source test_source) test_overlay_plan of
     Inr img \<Rightarrow> img | Inl _ \<Rightarrow> [])"

definition test_reader :: reader where
  "test_reader = reader_of (raw_as_source test_source)
     (sidecar_header test_sha256 (raw_as_source test_source) test_overlay_plan) test_image"

lemma test_plan_index: "plan_index test_overlay_plan = [(0, 0), (2, 2)]"
  by (simp add: plan_index_def test_overlay_plan_def layout_reference_def Let_def sort_dedup_def
      first_seen_def placement_position_def slot_placement_def word_le_nat_alt sort_key_def)

lemma test_image_made:
  "sidecar_image test_sha256 (raw_as_source test_source) test_overlay_plan = Inr test_image"
  "image_holds test_sha256 (raw_as_source test_source) (raw_row test_source) test_overlay_plan test_image"
proof -
  from raw.sidecar_image_holds [where ?sha256.0 = test_sha256, OF test_source_wf
      planned_matches [OF test_source_wf test_overlay_planned] _ length_test_sha256]
  obtain img where "sidecar_image test_sha256 (raw_as_source test_source) test_overlay_plan = Inr img"
    "image_holds test_sha256 (raw_as_source test_source) (raw_row test_source) test_overlay_plan img"
    by (auto simp: test_overlay_size)
  then show "sidecar_image test_sha256 (raw_as_source test_source) test_overlay_plan = Inr test_image"
    "image_holds test_sha256 (raw_as_source test_source) (raw_row test_source) test_overlay_plan test_image"
    by (simp_all add: test_image_def)
qed

lemma test_image_length: "length test_image < 2 ^ 64"
  using test_image_made(2) by (simp add: image_holds_def test_overlay_size)

lemma test_image_valid:
  "sidecar_valid test_sha256 (raw_as_source test_source)
     (sidecar_header test_sha256 (raw_as_source test_source) test_overlay_plan) test_image"
  by (rule image_valid [OF planned_matches [OF test_source_wf test_overlay_planned]
        length_test_sha256 test_image_made(2)])

lemma test_reader_open:
  "reader_open test_sha256 (stable_file test_image) (raw_as_source test_source) = Inr test_reader"
  using reader_open_ok_iff [OF test_image_length, of test_sha256 "raw_as_source test_source" test_reader]
    test_image_valid
  by (auto simp: test_reader_def)

lemma test_reader_index: "reader_index test_reader = [(0, 0), (2, 2)]"
  using image_index [OF test_image_made(2)] test_plan_index
    header_numbers(1) [of test_overlay_plan test_sha256 "raw_as_source test_source"]
    planned_matches [OF test_source_wf test_overlay_planned]
  by (simp add: reader_index_def test_reader_def reader_of_def plan_matches_def)

lemma test_reader_verifies: "verify_hot_overlay test_reader = Inr 2"
proof -
  from raw.published_image_reader [where ?sha256.0 = test_sha256, OF test_source_wf
      planned_matches [OF test_source_wf test_overlay_planned] length_test_sha256 _ test_image_made(1)]
  have "verify_hot_overlay test_reader = Inr (word_of_nat (length (lp_placements test_overlay_plan)))"
    using test_reader_open by (auto simp: test_overlay_size)
  moreover have "length (lp_placements test_overlay_plan) = 2"
    using length_plan_index [of test_overlay_plan] by (simp add: test_plan_index)
  ultimately show ?thesis by simp
qed

theorem reader_open_exact_witness:
  "\<exists>d. sidecar_valid test_sha256 (raw_as_source test_source) d test_image \<and>
     test_reader = reader_of (raw_as_source test_source) d test_image"
  using reader_open_exact [OF test_image_length] test_reader_open by blast

theorem find_overlay_offset_is_lookup_witness:
  "find_overlay_offset test_reader 2 = Inr (Some 2) \<and> find_overlay_offset test_reader 1 = Inr None \<and>
   has_hot_overlay test_reader 0"
  using find_overlay_offset_is_lookup [OF test_image_length test_reader_open, of 2]
    find_overlay_offset_is_lookup [OF test_image_length test_reader_open, of 1]
    find_overlay_offset_is_lookup [OF test_image_length test_reader_open, of 0]
  by (simp add: test_reader_index)

lemma test_reader_header:
  "hd_row_count (rd_header test_reader) = 3" "hd_row_bytes (rd_header test_reader) = 2"
  "rd_source test_reader = raw_as_source test_source"
  by (simp_all add: test_reader_def reader_of_def sidecar_header_def raw_as_source_def test_source_def)

theorem reader_read_exact_witness:
  "reader_read_exact_row test_reader 1 [0, 0] = Inr [3, 4] \<and>
   reader_read_exact_row test_reader 1 [0] = Inl (Err (RowBufferWidth 2 1)) \<and>
   reader_read_exact_row test_reader 3 [0, 0] = Inl (Err (Layout (LogicalRowOutOfRange 3 3)))"
proof -
  have "src_read_exact_row (raw_as_source test_source) 1 [0, 0] = Inr [3, 4]"
    using raw_read_eq [OF test_source_wf, of 1 "[0, 0]"]
    by (simp add: raw_as_source_def raw_row_def field_def test_source_def test_file_def)
  then show ?thesis
    using reader_read_exact [OF test_image_length test_reader_open, of 1 "[0, 0]"]
      reader_read_exact [OF test_image_length test_reader_open, of 1 "[0]"]
      reader_read_exact [OF test_image_length test_reader_open, of 3 "[0, 0]"]
    by (simp add: test_reader_header test_reader_index)
qed

theorem verify_hot_overlay_exact_witness:
  "verify_hot_overlay test_reader = Inr 2 \<and>
   reader_row test_reader 0 = [1, 2] \<and> reader_row test_reader 2 = [5, 6]"
proof -
  have rows: "raw_row test_source 0 = [1, 2]" "raw_row test_source 2 = [5, 6]"
    by (simp_all add: raw_row_def field_def test_source_def test_file_def)
  show ?thesis
    using verify_hot_overlay_exact [OF test_image_length test_source_wf test_reader_open]
      test_reader_verifies
    by (auto simp: test_reader_index rows split: if_splits)
qed

theorem verified_reads_are_source_reads_witness:
  "reader_read_exact_row test_reader 2 [0, 0] = Inr [5, 6]"
proof -
  have "raw_read_exact_row test_source 2 [0, 0] = Inr [5, 6]"
    using raw_read_eq [OF test_source_wf, of 2 "[0, 0]"]
    by (simp add: raw_row_def field_def test_source_def test_file_def)
  then show ?thesis
    using verified_reads_are_source_reads [OF test_image_length test_source_wf test_reader_open
        test_reader_verifies] by simp
qed

theorem sidecar_roundtrip_witness:
  "\<exists>r. reader_open test_sha256 (stable_file test_image) (raw_as_source test_source) = Inr r \<and>
     has_hot_overlay r 2 \<and> \<not> has_hot_overlay r 1"
  using sidecar_roundtrip [where ?sha256.0 = test_sha256, OF test_source_wf length_test_sha256
      test_overlay_planned _ test_image_made(1)]
  by (auto simp: test_overlay_size)

end
