(* ===== verification/PlepackTool.thy ===== *)
theory PlepackTool
  imports PleRoundtrip
begin

text \<open>
  The command \<open>gb10x-plepack\<close> (\<open>crates/gb10x-tools/src/plepack.rs\<close> and \<open>src/bin/gb10x-plepack.rs\<close>):
  \<open>plan\<close>, \<open>build\<close> and \<open>verify\<close> over the storage library. \<open>clap\<close> has parsed the arguments. The JSON
  parser of traces and the JSON printer of plans are arguments; a report is the values that are
  printed. Reading a file fails when it is not there or is not UTF-8; the calls that write take
  their outcomes from the schedule.
\<close>

section \<open>Arguments, errors and reports\<close>

record plan_args =
  pa_trace :: path
  pa_out :: path
  pa_row_count :: u64
  pa_row_bytes :: u32
  pa_block_bytes :: u32

record build_args =
  ba_source :: path
  ba_trace :: path
  ba_out :: path
  ba_row_bytes :: u32
  ba_block_bytes :: u32

record verify_args =
  va_source :: path
  va_pack :: path
  va_row_bytes :: u32

datatype command = PlanCommand plan_args | BuildCommand build_args | VerifyCommand verify_args

datatype plan_from_trace_error = TraceJson string | TraceLayout ple_pack_error

datatype tool_error =
    ToolIo string
  | ToolJson string
  | ToolTrace plan_from_trace_error
  | ToolPack ple_pack_io_error

datatype tool_stop = ToolFailed tool_error | ToolPanicked | ToolKilled

record build_report =
  br_hot_rows :: u64
  br_index_bytes :: u64
  br_overlay_bytes :: u64
  br_file_bytes :: u64
  br_row_count :: u64
  br_row_bytes :: u32

record verify_report =
  vr_hot_rows_verified :: u64
  vr_row_count :: u64
  vr_row_bytes :: u32
  vr_block_bytes :: u32
  vr_source_digest :: bytes
  vr_index_digest :: bytes

datatype tool_output = NoOutput | BuildOutput build_report | VerifyOutput verify_report

record json_library =
  jl_parse_trace :: "bytes \<Rightarrow> string + u32 list list"
  jl_print_plan :: "layout_plan \<Rightarrow> string + bytes"

section \<open>Files\<close>

text \<open>What opening, measuring and mapping the file at a path gives, and \<open>fs::read_to_string\<close>.\<close>

definition file_at :: "fs \<Rightarrow> path \<Rightarrow> file_env" where
  "file_at fs p =
     (case fs_files fs p of
        Some bs \<Rightarrow> stable_file bs
      | None \<Rightarrow>
          \<lparr>fe_open = Inl ''No such file or directory'', fe_len = Inl ''No such file or directory'',
           fe_map = Inl ''No such file or directory''\<rparr>)"

definition read_text :: "fs \<Rightarrow> path \<Rightarrow> string + bytes" where
  "read_text fs p =
     bindE (ok_or (fs_files fs p) ''No such file or directory'') (\<lambda>bs.
     if utf8_valid bs then Inr bs else Inl ''stream did not contain valid UTF-8'')"

text \<open>\<open>fs::write\<close>: the file is created or truncated, then filled.\<close>

definition open_truncate :: "path \<Rightarrow> unit io" where
  "open_truncate p = syscall
     (\<lambda>fs. if dir_exists fs p then Inl ''Is a directory''
           else case path_parent p of
             None \<Rightarrow> Inl ''No such file or directory''
           | Some q \<Rightarrow>
               if q \<noteq> [] \<and> \<not> dir_exists fs q then Inl ''No such file or directory''
               else Inr ((), put_file p [] (fs\<lparr>fs_cursor := 0\<rparr>)))
     (all_or_nothing (\<lambda>fs. put_file p [] fs))"

definition write_file :: "path \<Rightarrow> bytes \<Rightarrow> unit io" where
  "write_file p bs = bindIO (open_truncate p) (\<lambda>_. write_all p bs)"

section \<open>The commands\<close>

definition plan_from_trace_json ::
    "json_library \<Rightarrow> u64 \<Rightarrow> u32 \<Rightarrow> u32 \<Rightarrow> bytes \<Rightarrow> plan_from_trace_error + layout_plan" where
  "plan_from_trace_json json row_count row_bytes block_bytes trace_json =
     bindE (map_err TraceJson (jl_parse_trace json trace_json)) (\<lambda>trace.
     map_err TraceLayout (plan_exact_layout row_count row_bytes block_bytes trace))"

fun pack_stop :: "io_stop \<Rightarrow> tool_stop" where
  "pack_stop (Failed e) = ToolFailed (ToolPack e)"
| "pack_stop Killed = ToolKilled"

fun file_stop :: "io_stop \<Rightarrow> tool_stop" where
  "file_stop (Failed e) = ToolFailed (case e of Io msg \<Rightarrow> ToolIo msg | _ \<Rightarrow> ToolPack e)"
| "file_stop Killed = ToolKilled"

fun tool_fault :: "ple_pack_io_error fault \<Rightarrow> tool_stop" where
  "tool_fault (Err e) = ToolFailed (ToolPack e)"
| "tool_fault Panic = ToolPanicked"

text \<open>Running a call of the library after the checks that need no call.\<close>

definition then_io ::
    "tool_stop + 'a \<Rightarrow> ('a \<Rightarrow> 'b io) \<Rightarrow> (io_stop \<Rightarrow> tool_stop) \<Rightarrow> ('a \<Rightarrow> 'b \<Rightarrow> 'c) \<Rightarrow>
      fs \<Rightarrow> io_outcome list \<Rightarrow> (tool_stop + 'c) \<times> fs \<times> io_outcome list" where
  "then_io prepared call stopped report fs sch =
     (case prepared of
        Inl stop \<Rightarrow> (Inl stop, fs, sch)
      | Inr x \<Rightarrow>
          (case call x fs sch of
             (Inl stop, fs', sch') \<Rightarrow> (Inl (stopped stop), fs', sch')
           | (Inr y, fs', sch') \<Rightarrow> (Inr (report x y), fs', sch')))"

definition plan_command ::
    "json_library \<Rightarrow> plan_args \<Rightarrow> fs \<Rightarrow> io_outcome list \<Rightarrow> (tool_stop + tool_output) \<times> fs \<times> io_outcome list"
  where
  "plan_command json args fs sch =
     then_io
       (bindE (map_err (ToolFailed \<circ> ToolIo) (read_text fs (pa_trace args))) (\<lambda>trace.
        bindE (map_err (ToolFailed \<circ> ToolTrace)
                 (plan_from_trace_json json (pa_row_count args) (pa_row_bytes args)
                    (pa_block_bytes args) trace)) (\<lambda>plan.
        map_err (ToolFailed \<circ> ToolJson) (jl_print_plan json plan))))
       (write_file (pa_out args)) file_stop (\<lambda>_ _. NoOutput) fs sch"

definition build_report_of :: "raw_source \<Rightarrow> write_report \<Rightarrow> build_report" where
  "build_report_of s report =
     \<lparr>br_hot_rows = wr_hot_rows report, br_index_bytes = wr_index_bytes report,
      br_overlay_bytes = wr_overlay_bytes report, br_file_bytes = wr_file_bytes report,
      br_row_count = raw_row_count s, br_row_bytes = raw_row_bytes s\<rparr>"

definition build_inputs ::
    "json_library \<Rightarrow> (bytes \<Rightarrow> bytes) \<Rightarrow> build_args \<Rightarrow> fs \<Rightarrow> tool_stop + raw_source \<times> layout_plan" where
  "build_inputs json sha256 args fs =
     bindE (map_err (ToolFailed \<circ> ToolPack)
              (raw_source_open sha256 (file_at fs (ba_source args)) (ba_row_bytes args))) (\<lambda>source.
     bindE (map_err (ToolFailed \<circ> ToolIo) (read_text fs (ba_trace args))) (\<lambda>trace.
     bindE (map_err (ToolFailed \<circ> ToolTrace)
              (plan_from_trace_json json (raw_row_count source) (raw_row_bytes source)
                 (ba_block_bytes args) trace)) (\<lambda>plan.
     Inr (source, plan))))"

definition build_command ::
    "json_library \<Rightarrow> (bytes \<Rightarrow> bytes) \<Rightarrow> nat \<Rightarrow> nat \<Rightarrow> build_args \<Rightarrow> fs \<Rightarrow> io_outcome list \<Rightarrow>
      (tool_stop + tool_output) \<times> fs \<times> io_outcome list" where
  "build_command json sha256 pid nonce args fs sch =
     then_io (build_inputs json sha256 args fs)
       (\<lambda>(source, plan). write_overlay sha256 (ba_out args) pid nonce (raw_as_source source) plan)
       pack_stop (\<lambda>(source, plan) report. BuildOutput (build_report_of source report)) fs sch"

definition verify_command :: "(bytes \<Rightarrow> bytes) \<Rightarrow> verify_args \<Rightarrow> fs \<Rightarrow> tool_stop + tool_output" where
  "verify_command sha256 args fs =
     bindE (map_err (ToolFailed \<circ> ToolPack)
              (raw_source_open sha256 (file_at fs (va_source args)) (va_row_bytes args))) (\<lambda>source.
     bindE (map_err tool_fault (reader_open sha256 (file_at fs (va_pack args)) (raw_as_source source)))
       (\<lambda>reader.
     bindE (map_err (ToolFailed \<circ> ToolPack) (verify_hot_overlay reader)) (\<lambda>hot_rows_verified.
     (let header = rd_header reader
      in Inr (VerifyOutput
           \<lparr>vr_hot_rows_verified = hot_rows_verified, vr_row_count = hd_row_count header,
            vr_row_bytes = hd_row_bytes header, vr_block_bytes = hd_block_bytes header,
            vr_source_digest = hd_source_digest header,
            vr_index_digest = hd_index_digest header\<rparr>)))))"

definition run ::
    "json_library \<Rightarrow> (bytes \<Rightarrow> bytes) \<Rightarrow> nat \<Rightarrow> nat \<Rightarrow> command \<Rightarrow> fs \<Rightarrow> io_outcome list \<Rightarrow>
      (tool_stop + tool_output) \<times> fs \<times> io_outcome list" where
  "run json sha256 pid nonce cmd fs sch =
     (case cmd of
        PlanCommand args \<Rightarrow> plan_command json args fs sch
      | BuildCommand args \<Rightarrow> build_command json sha256 pid nonce args fs sch
      | VerifyCommand args \<Rightarrow> (verify_command sha256 args fs, fs, sch))"

text \<open>The status of the process: \<open>main\<close> exits with 1 after an error, a panic ends it with 101.\<close>

definition exit_status :: "tool_stop + tool_output \<Rightarrow> nat option" where
  "exit_status r =
     (case r of
        Inr _ \<Rightarrow> Some 0
      | Inl (ToolFailed _) \<Rightarrow> Some 1
      | Inl ToolPanicked \<Rightarrow> Some 101
      | Inl ToolKilled \<Rightarrow> None)"

section \<open>Building\<close>

lemma then_io_Inr_iff:
  "then_io prepared call stopped report fs sch = (Inr z, fs', sch') \<longleftrightarrow>
     (\<exists>x y. prepared = Inr x \<and> call x fs sch = (Inr y, fs', sch') \<and> z = report x y)"
  by (auto simp: then_io_def split: sum.splits prod.splits)

lemma build_inputs_Inr_iff:
  "build_inputs json sha256 args fs = Inr (s, plan) \<longleftrightarrow>
     raw_source_open sha256 (file_at fs (ba_source args)) (ba_row_bytes args) = Inr s \<and>
     (\<exists>bs trace. read_text fs (ba_trace args) = Inr bs \<and> jl_parse_trace json bs = Inr trace \<and>
       plan_exact_layout (raw_row_count s) (raw_row_bytes s) (ba_block_bytes args) trace = Inr plan)"
  by (auto simp: build_inputs_def plan_from_trace_json_def result_simps)

lemma build_command_Inr_iff:
  "build_command json sha256 pid nonce args fs sch = (Inr z, fs', sch') \<longleftrightarrow>
     (\<exists>s plan report. build_inputs json sha256 args fs = Inr (s, plan) \<and>
       write_overlay sha256 (ba_out args) pid nonce (raw_as_source s) plan fs sch = (Inr report, fs', sch') \<and>
       z = BuildOutput (build_report_of s report))"
  by (auto simp: build_command_def then_io_Inr_iff)

lemma raw_open_file_at:
  assumes "raw_source_open sha256 (file_at fs p) row_bytes = Inr s"
  obtains bs where "fs_files fs p = Some bs" "raw_source_open sha256 (stable_file bs) row_bytes = Inr s"
  using assms by (cases "fs_files fs p") (auto simp: file_at_def raw_source_open_def result_simps)

lemma bindIO_Inr_iff:
  "bindIO m f fs sch = (Inr y, fs', sch') \<longleftrightarrow>
     (\<exists>x fs1 sch1. m fs sch = (Inr x, fs1, sch1) \<and> f x fs1 sch1 = (Inr y, fs', sch'))"
  by (auto simp: bindIO_def split: prod.splits sum.splits)

lemma write_overlay_report:
  assumes "write_overlay sha256 path pid nonce src plan fs sch = (Inr report, fs', sch')"
  obtains parts where "prepare_sidecar sha256 src plan = Inr parts" "report = written_report parts"
  using assms
proof (cases rule: write_overlay_cases)
  case (written parts report')
  then show ?thesis
    using that by (auto simp: publish_sidecar_def bindIO_Inr_iff returnIO_def written_report_def)
qed simp_all

lemma built_sidecar_verifies:
  assumes "\<And>x. length (sha256 x) = 32" and "wf_raw_source s"
    and "plan_exact_layout (raw_row_count s) (raw_row_bytes s) block_bytes trace = Inr plan"
    and "write_overlay sha256 path pid nonce (raw_as_source s) plan fs sch = (Inr report, fs', sch')"
  obtains img r where "fs_files fs' path = Some img"
    "reader_open sha256 (stable_file img) (raw_as_source s) = Inr r" "wf_reader r"
    "rd_source r = raw_as_source s" "verify_hot_overlay r = Inr (wr_hot_rows report)"
proof -
  note matches = planned_matches [OF assms(2,3)]
  from write_overlay_outcomes(2) [OF assms(4) refl] obtain img where
    img: "sidecar_image sha256 (raw_as_source s) plan = Inr img" "fs_files fs' path = Some img"
    by (auto simp: published_def)
  from assms(4) obtain parts where parts: "prepare_sidecar sha256 (raw_as_source s) plan = Inr parts"
    "report = written_report parts" by (rule write_overlay_report)
  have size: "sidecar_bytes plan < 2 ^ 64" and hot: "wr_hot_rows report = word_of_nat (length (lp_placements plan))"
    using parts prepare_sidecar_eq [of "raw_as_source s" plan sha256, OF matches assms(1)]
    by (auto simp: written_report_def sidecar_header_def split: if_splits)
  from raw.published_image_reader [where ?sha256.0 = sha256, OF assms(2) matches assms(1) size img(1)]
  show ?thesis using that img(2) hot by metis
qed

lemma build_run:
  assumes "\<And>x. length (sha256 x) = 32" and "fs_files fs (ba_source args) = Some bs" and "length bs < 2 ^ 64"
    and "run json sha256 pid nonce (BuildCommand args) fs sch = (Inr out, fs', sch')"
  obtains s plan report img r where "build_inputs json sha256 args fs = Inr (s, plan)"
    "raw_source_open sha256 (stable_file bs) (ba_row_bytes args) = Inr s" "raw_digest s = sha256 bs"
    "write_overlay sha256 (ba_out args) pid nonce (raw_as_source s) plan fs sch = (Inr report, fs', sch')"
    "out = BuildOutput (build_report_of s report)" "fs_files fs' (ba_out args) = Some img"
    "reader_open sha256 (stable_file img) (raw_as_source s) = Inr r"
    "verify_hot_overlay r = Inr (wr_hot_rows report)"
proof -
  from assms(4) obtain s plan report where
    inputs: "build_inputs json sha256 args fs = Inr (s, plan)" and
    build: "write_overlay sha256 (ba_out args) pid nonce (raw_as_source s) plan fs sch = (Inr report, fs', sch')"
    and out: "out = BuildOutput (build_report_of s report)"
    by (auto simp: run_def build_command_Inr_iff)
  have opened: "raw_source_open sha256 (stable_file bs) (ba_row_bytes args) = Inr s"
    using inputs assms(2) by (simp add: build_inputs_Inr_iff file_at_def)
  have wf: "wf_raw_source s" by (rule raw_source_open_wf [OF assms(3,1) opened])
  have digest: "raw_digest s = sha256 bs" using opened by (simp add: raw_source_open_iff [OF assms(3)])
  from inputs obtain trace where
    planned: "plan_exact_layout (raw_row_count s) (raw_row_bytes s) (ba_block_bytes args) trace = Inr plan"
    by (auto simp: build_inputs_Inr_iff)
  from assms(1) wf planned build show ?thesis
    by (rule built_sidecar_verifies) (rule that [OF inputs opened digest build out])
qed

text \<open>
  C2. Whatever a successful \<open>build\<close> has built, a \<open>verify\<close> of it against the same source succeeds: it
  opens the published sidecar, finds every hot row equal to its source row, and prints the hot-row
  count, row count and row width of the build, and the digest of the source, under any schedule of
  outcomes during the build. The output and the temporary file must not be the source itself.
\<close>

theorem build_then_verify:
  assumes "\<And>x. length (sha256 x) = 32"
    and "fs_files fs (ba_source args) = Some bs" and "length bs < 2 ^ 64"
    and "ba_source args \<notin> {ba_out args, temporary_path (ba_out args) pid nonce}"
    and "run json sha256 pid nonce (BuildCommand args) fs sch = (Inr out, fs', sch')"
  shows "\<exists>report v. out = BuildOutput report \<and>
    run json sha256 pid nonce
      (VerifyCommand \<lparr>va_source = ba_source args, va_pack = ba_out args, va_row_bytes = ba_row_bytes args\<rparr>)
      fs' sch' = (Inr (VerifyOutput v), fs', sch') \<and>
    vr_hot_rows_verified v = br_hot_rows report \<and> vr_row_count v = br_row_count report \<and>
    vr_row_bytes v = br_row_bytes report \<and> vr_source_digest v = sha256 bs"
proof -
  from assms(1-3,5) obtain s plan report img r where
    opened: "raw_source_open sha256 (stable_file bs) (ba_row_bytes args) = Inr s"
      "raw_digest s = sha256 bs" and
    build: "write_overlay sha256 (ba_out args) pid nonce (raw_as_source s) plan fs sch = (Inr report, fs', sch')"
    and out: "out = BuildOutput (build_report_of s report)" and
    r: "fs_files fs' (ba_out args) = Some img"
      "reader_open sha256 (stable_file img) (raw_as_source s) = Inr r"
      "verify_hot_overlay r = Inr (wr_hot_rows report)"
    by (rule build_run)
  have "fs_files fs' (ba_source args) = Some bs"
    using write_overlay_outcomes(2) [OF build refl] assms(2,4) by (auto simp: published_def)
  then have reopened: "raw_source_open sha256 (file_at fs' (ba_source args)) (ba_row_bytes args) = Inr s"
    using opened(1) by (simp add: file_at_def)
  have header: "hd_source_digest (rd_header r) = raw_digest s" "hd_row_count (rd_header r) = raw_row_count s"
    "hd_row_bytes (rd_header r) = raw_row_bytes s"
    using r(2) by (auto simp: reader_open_def result_simps raw_as_source_def stable_file_def)
  show ?thesis
    using r reopened
    by (simp add: out run_def verify_command_def file_at_def Let_def header opened(2) build_report_of_def)
qed

text \<open>
  C6. Nothing keeps \<open>--out\<close> from naming the source. A \<open>build\<close> that does so and succeeds has replaced the
  rows by the sidecar, and no \<open>verify\<close> of that path against itself can succeed unless the digests of
  the two contents collide.
\<close>

theorem build_over_its_source:
  assumes "fs_files fs (ba_source args) = Some bs" and "length bs < 2 ^ 64"
    and "\<And>x. length (sha256 x) = 32" and "ba_out args = ba_source args"
    and "run json sha256 pid nonce (BuildCommand args) fs sch = (Inr out, fs', sch')"
  shows "\<exists>s plan img. build_inputs json sha256 args fs = Inr (s, plan) \<and>
    sidecar_image sha256 (raw_as_source s) plan = Inr img \<and> fs_files fs' (ba_source args) = Some img \<and>
    (sha256 img \<noteq> sha256 bs \<longrightarrow>
      \<not> is_ok (fst (run json sha256 pid nonce
        (VerifyCommand \<lparr>va_source = ba_source args, va_pack = ba_source args, va_row_bytes = ba_row_bytes args\<rparr>)
        fs' sch')))"
proof -
  from assms(3,1,2,5) obtain s plan report img r where
    inputs: "build_inputs json sha256 args fs = Inr (s, plan)" and
    digest: "raw_digest s = sha256 bs" and
    build: "write_overlay sha256 (ba_out args) pid nonce (raw_as_source s) plan fs sch = (Inr report, fs', sch')"
    and r: "fs_files fs' (ba_out args) = Some img"
      "reader_open sha256 (stable_file img) (raw_as_source s) = Inr r"
    by (rule build_run)
  have img: "sidecar_image sha256 (raw_as_source s) plan = Inr img"
    using write_overlay_outcomes(2) [OF build refl] r(1) by (auto simp: published_def)
  obtain disk where disk: "disk_header_decode img = Inr disk" "hd_source_digest (logical disk) = sha256 bs"
    using r(2) digest by (auto simp: reader_open_def result_simps raw_as_source_def stable_file_def)
  have "\<not> is_ok (verify_command sha256
      \<lparr>va_source = ba_source args, va_pack = ba_source args, va_row_bytes = ba_row_bytes args\<rparr> fs')"
    if "sha256 img \<noteq> sha256 bs"
  proof
    assume "is_ok (verify_command sha256
      \<lparr>va_source = ba_source args, va_pack = ba_source args, va_row_bytes = ba_row_bytes args\<rparr> fs')"
    then obtain s' r' where s': "raw_source_open sha256 (stable_file img) (ba_row_bytes args) = Inr s'"
      "reader_open sha256 (stable_file img) (raw_as_source s') = Inr r'"
      using r(1) assms(4) by (auto simp: verify_command_def file_at_def is_ok_iff result_simps)
    have "raw_digest s' = sha256 img"
      using s'(1) by (auto simp: raw_source_open_def stable_file_def Let_def result_simps split: if_splits)
    moreover have "hd_source_digest (logical disk) = raw_digest s'"
      using s'(2) disk(1) by (auto simp: reader_open_def result_simps raw_as_source_def stable_file_def)
    ultimately show False using disk(2) that by simp
  qed
  then show ?thesis
    using inputs img r(1) assms(4) by (auto simp: run_def)
qed

section \<open>A run of the tool\<close>

definition test_tool_fs :: fs where
  "test_tool_fs = empty_fs\<lparr>fs_files := [[RootDir, Normal [115]] \<mapsto> test_file,
     [RootDir, Normal [116]] \<mapsto> [91, 91, 50, 44, 48, 93, 93]]\<rparr>"

definition test_json :: json_library where
  "test_json = \<lparr>jl_parse_trace = (\<lambda>bs. if bs = [91, 91, 50, 44, 48, 93, 93] then Inr [[2, 0]] else Inl ''expected value''),
     jl_print_plan = (\<lambda>_. Inr [123, 125])\<rparr>"

definition test_build :: build_args where
  "test_build = \<lparr>ba_source = [RootDir, Normal [115]], ba_trace = [RootDir, Normal [116]],
     ba_out = test_path, ba_row_bytes = 2, ba_block_bytes = 4\<rparr>"

lemma length_temporary_path: "length (temporary_path test_path pid nonce) = 3"
  by (simp add: temporary_path_def with_file_name_def path_file_name_def test_path_def Let_def)

lemma test_tool_publishable: "publishable test_path (temporary_path test_path pid nonce) test_tool_fs"
proof -
  have "temporary_path test_path pid nonce \<notin> {[RootDir, Normal [115]], [RootDir, Normal [116]]}"
    using length_temporary_path [of pid nonce] by auto
  then show ?thesis
    by (auto simp: publishable_def test_path_def test_tool_fs_def empty_fs_def path_file_name_def
        path_prefixes_def)
qed

lemma test_build_inputs: "build_inputs test_json test_sha256 test_build test_tool_fs = Inr (test_source, test_overlay_plan)"
proof -
  have "plan_exact_layout (raw_row_count test_source) (raw_row_bytes test_source) 4 [[2, 0]] = Inr test_overlay_plan"
    by (rule test_overlay_planned)
  then show ?thesis
    using test_source_open
    by (simp add: build_inputs_Inr_iff test_build_def test_tool_fs_def empty_fs_def file_at_def read_text_def
        test_json_def word_less_nat_alt)
qed

lemma test_build_runs:
  "\<exists>out fs'. run test_json test_sha256 7 9 (BuildCommand test_build) test_tool_fs [] = (Inr out, fs', [])"
proof -
  note matches = planned_matches [OF test_source_wf test_overlay_planned]
  obtain parts where "prepare_sidecar test_sha256 (raw_as_source test_source) test_overlay_plan = Inr parts"
    using prepare_sidecar_eq [of _ _ test_sha256, OF matches length_test_sha256]
    by (simp add: test_overlay_size)
  from write_overlay_runs [OF matches length_test_sha256 _ test_image_made(1) this test_tool_publishable [of 7 9]]
  show ?thesis
    by (auto simp: test_overlay_size run_def build_command_Inr_iff test_build_inputs) (simp add: test_build_def)
qed

theorem build_then_verify_witness:
  "\<exists>report v fs'.
     run test_json test_sha256 7 9 (BuildCommand test_build) test_tool_fs [] = (Inr (BuildOutput report), fs', []) \<and>
     run test_json test_sha256 7 9
       (VerifyCommand \<lparr>va_source = [RootDir, Normal [115]], va_pack = test_path, va_row_bytes = 2\<rparr>) fs' []
       = (Inr (VerifyOutput v), fs', []) \<and>
     vr_hot_rows_verified v = br_hot_rows report"
proof -
  from test_build_runs obtain out fs' where
    run: "run test_json test_sha256 7 9 (BuildCommand test_build) test_tool_fs [] = (Inr out, fs', [])" by blast
  have files: "fs_files test_tool_fs (ba_source test_build) = Some test_file"
    "ba_source test_build \<notin> {ba_out test_build, temporary_path (ba_out test_build) 7 9}"
    using length_temporary_path [of 7 9]
    by (auto simp: test_tool_fs_def test_build_def test_path_def dest: arg_cong [where f = length])
  from build_then_verify [OF length_test_sha256 files(1) length_test_file files(2) run]
  show ?thesis using run by (auto simp: test_build_def)
qed

definition test_overwrite :: build_args where
  "test_overwrite = test_build\<lparr>ba_out := [RootDir, Normal [115]]\<rparr>"

theorem build_over_its_source_witness:
  "\<exists>out fs' img. run test_json test_sha256 7 9 (BuildCommand test_overwrite) test_tool_fs [] = (Inr out, fs', []) \<and>
     fs_files test_tool_fs [RootDir, Normal [115]] = Some test_file \<and>
     fs_files fs' [RootDir, Normal [115]] = Some img \<and> length img = 156"
proof -
  let ?path = "[RootDir, Normal [115]]"
  note matches = planned_matches [OF test_source_wf test_overlay_planned]
  obtain parts where parts: "prepare_sidecar test_sha256 (raw_as_source test_source) test_overlay_plan = Inr parts"
    using prepare_sidecar_eq [of _ _ test_sha256, OF matches length_test_sha256]
    by (simp add: test_overlay_size)
  have inputs: "build_inputs test_json test_sha256 test_overwrite test_tool_fs = Inr (test_source, test_overlay_plan)"
    using test_build_inputs by (simp add: build_inputs_Inr_iff test_overwrite_def test_build_def)
  have "publishable ?path (temporary_path ?path 7 9) test_tool_fs"
    by (auto simp: publishable_def test_tool_fs_def empty_fs_def path_file_name_def path_prefixes_def
        temporary_path_def with_file_name_def Let_def)
  from write_overlay_runs [OF matches length_test_sha256 _ test_image_made(1) parts this]
  obtain out fs' where run: "run test_json test_sha256 7 9 (BuildCommand test_overwrite) test_tool_fs [] = (Inr out, fs', [])"
    by (auto simp: test_overlay_size run_def build_command_Inr_iff inputs) (auto simp: test_overwrite_def)
  have source: "fs_files test_tool_fs (ba_source test_overwrite) = Some test_file" "ba_out test_overwrite = ba_source test_overwrite"
    by (simp_all add: test_tool_fs_def test_overwrite_def test_build_def)
  from build_over_its_source [OF source(1) length_test_file length_test_sha256 source(2) run] inputs
  obtain img where "sidecar_image test_sha256 (raw_as_source test_source) test_overlay_plan = Inr img"
    "fs_files fs' ?path = Some img"
    by (auto simp: test_overwrite_def test_build_def)
  then show ?thesis
    using run source(1) test_image_made
    by (auto simp: test_overwrite_def test_build_def image_holds_def test_overlay_size)
qed

end
