(* ===== verification/PleDurability.thy ===== *)
theory PleDurability
  imports PleSidecar
begin

text \<open>
  The sidecar writer and loss of power. \<open>survivors fs p\<close> is what the name \<open>p\<close> may be found with after
  the machine stops in the state \<open>fs\<close>. The writer syncs the temporary file before it renames it, and
  the directory afterwards; this theory shows what that achieves, and what it does not: directories
  that the writer had to make are never synced themselves.
\<close>

section \<open>What may be found after a loss of power\<close>

definition survivors :: "fs \<Rightarrow> path \<Rightarrow> bytes option set" where
  "survivors fs p = {c. survives fs p c}"

text \<open>A directory on the way to the file is missing, or has itself not reached the disk.\<close>

definition missing_dir :: "fs \<Rightarrow> path \<Rightarrow> bool" where
  "missing_dir fs p \<longleftrightarrow> list_ex (\<lambda>d. \<not> dir_exists fs d) (path_prefixes (butlast p))"

definition unsettled_dir :: "fs \<Rightarrow> path \<Rightarrow> bool" where
  "unsettled_dir fs p \<longleftrightarrow> (\<exists>d \<in> fs_new_dirs fs. strict_prefix d p)"

definition none_if :: "bool \<Rightarrow> bytes option set" where
  "none_if b = (if b then {None} else {})"

lemma in_none_if [simp]: "c \<in> none_if b \<longleftrightarrow> b \<and> c = None"
  by (simp add: none_if_def)

lemma in_survivors [simp]: "c \<in> survivors fs p \<longleftrightarrow> survives fs p c"
  by (simp add: survivors_def)

text \<open>Only calls on the name itself and on its directories matter.\<close>

lemma survivors_frame [simp]:
  "q \<noteq> p \<Longrightarrow> survivors (put_file q c fs) p = survivors fs p"
  "q \<noteq> p \<Longrightarrow> survivors (drop_file q fs) p = survivors fs p"
  "survivors (fs\<lparr>fs_cursor := n\<rparr>) p = survivors fs p"
  by (auto simp: survivors_def survives_def put_file_def drop_file_def)

lemma unsettled_frame [simp]:
  "unsettled_dir (put_file q c fs) p = unsettled_dir fs p"
  "unsettled_dir (drop_file q fs) p = unsettled_dir fs p"
  "unsettled_dir (fs\<lparr>fs_cursor := n\<rparr>) p = unsettled_dir fs p"
  "unsettled_dir (move_file q r fs) p = unsettled_dir fs p"
  by (simp_all add: unsettled_dir_def put_file_def drop_file_def move_file_def)

text \<open>Making directories adds the survivor \<open>None\<close> below those that did not exist.\<close>

lemma prefix_of_parent:
  assumes "p \<noteq> []" and "d \<in> set (path_prefixes (butlast p))"
  shows "strict_prefix d p"
proof -
  have "prefix d (butlast p)" using assms(2) by (auto simp: path_prefixes_def take_is_prefix)
  moreover have "strict_prefix (butlast p) p"
    using assms(1) by (cases p rule: rev_cases) (auto simp: strict_prefix_def)
  ultimately show ?thesis by (rule prefix_order.le_less_trans)
qed

lemma unsettled_add_dirs:
  "unsettled_dir (add_dirs ps fs) p \<longleftrightarrow>
     unsettled_dir fs p \<or> (\<exists>d \<in> set ps. \<not> dir_exists fs d \<and> strict_prefix d p)"
  by (auto simp: unsettled_dir_def add_dirs_def)

lemma survivors_add_dirs:
  "survivors (add_dirs ps fs) p =
     survivors fs p \<union> none_if (\<exists>d \<in> set ps. \<not> dir_exists fs d \<and> strict_prefix d p)"
  by (auto simp: survives_def add_dirs_def)

lemma new_dirs_on_the_way:
  assumes "p \<noteq> []"
  shows "(\<exists>d \<in> set (path_prefixes (butlast p)). \<not> dir_exists fs d \<and> strict_prefix d p) \<longleftrightarrow> missing_dir fs p"
  using prefix_of_parent [OF assms] by (auto simp: missing_dir_def list_ex_iff)

text \<open>Syncing, and renaming a file that was synced.\<close>

lemma survivors_synced: "survivors (synced q fs) p \<subseteq> survivors fs p"
  by (auto simp: survives_def synced_def)

lemma unsettled_synced_parent:
  assumes "path_parent p = Some dir"
  shows "unsettled_dir (synced dir fs) p = unsettled_dir fs p"
proof -
  have "path_parent d \<noteq> Some dir" if "strict_prefix d p" for d
  proof
    assume "path_parent d = Some dir"
    then have "length d = length p"
      using assms by (cases d rule: rev_cases; cases p rule: rev_cases) (auto simp: path_parent_def split: if_splits)
    moreover have "length d < length p" using that by (rule prefix_length_less)
    ultimately show False by simp
  qed
  then show ?thesis by (auto simp: unsettled_dir_def synced_def)
qed

lemma survivors_synced_parent:
  assumes "path_parent p = Some dir" and "p \<notin> fs_unsynced fs"
  shows "survivors (synced dir fs) p = insert (fs_files fs p) (none_if (unsettled_dir fs p))"
  using assms unsettled_synced_parent [OF assms(1), of fs]
  by (auto simp: survives_def synced_def unsettled_dir_def)

lemma survivors_move:
  assumes "temp \<noteq> path" and "temp \<notin> fs_unsynced fs"
  shows "survivors (move_file temp path fs) path \<subseteq> insert (fs_files fs temp) (survivors fs path)"
    and "path \<notin> fs_unsynced (move_file temp path fs)"
  using assms by (auto simp: survives_def move_file_def split: if_splits)

section \<open>Calls on the temporary file\<close>

text \<open>\<open>frames temp K\<close>: what happens to the temporary file does not matter to \<open>K\<close>.\<close>

definition frames :: "path \<Rightarrow> (fs \<Rightarrow> bool) \<Rightarrow> bool" where
  "frames temp K \<longleftrightarrow>
     (\<forall>fs. K fs \<longrightarrow> (\<forall>c. K (put_file temp c fs)) \<and> K (drop_file temp fs) \<and> (\<forall>n. K (fs\<lparr>fs_cursor := n\<rparr>)))"

lemma framesD:
  assumes "frames temp K" and "K fs"
  shows "K (put_file temp c fs)" and "K (update_file temp f fs)" and "K (drop_file temp fs)"
    and "K (fs\<lparr>fs_cursor := n\<rparr>)"
  using assms by (auto simp: frames_def update_file_def split: option.split)

lemma open_create_new_frame: "frames temp K \<Longrightarrow> triple K (open_create_new temp) (\<lambda>_. K) (\<lambda>_. K)"
  unfolding open_create_new_def
  by (rule triple_syscall) (auto simp: all_or_nothing_def dest: framesD split: if_splits option.splits)

lemma set_len_frame: "frames temp K \<Longrightarrow> triple K (set_len temp n) (\<lambda>_. K) (\<lambda>_. K)"
  unfolding set_len_def
  by (rule triple_syscall) (auto simp: all_or_nothing_def dest: framesD split: if_splits)

lemma seek_frame: "frames temp K \<Longrightarrow> triple K (seek_start n) (\<lambda>_. K) (\<lambda>_. K)"
  unfolding seek_start_def by (rule triple_syscall) (auto dest: framesD split: if_splits)

lemma write_all_frame: "frames temp K \<Longrightarrow> triple K (write_all temp ys) (\<lambda>_. K) (\<lambda>_. K)"
  unfolding write_all_def by (rule triple_syscall) (auto dest: framesD)

lemma remove_file_frame: "frames temp K \<Longrightarrow> triple K (remove_file temp) (\<lambda>_. K) (\<lambda>_. K)"
  unfolding remove_file_def
  by (rule triple_syscall) (auto simp: all_or_nothing_def dest: framesD split: if_splits)

lemma lift_frame: "triple K (liftIO r) (\<lambda>_. K) (\<lambda>_. K)"
  by (rule triple_lift)

lemmas call_frames = set_len_frame seek_frame write_all_frame lift_frame

lemma write_rows_frame: "frames temp K \<Longrightarrow> triple K (write_rows temp src plan doff pls row) (\<lambda>_. K) (\<lambda>_. K)"
  by (induction pls arbitrary: row)
     (auto intro!: triple_return triple_bind [where R = "\<lambda>_. K"] call_frames)

lemma fill_sidecar_frame: "frames temp K \<Longrightarrow> triple K (fill_sidecar temp src plan parts) (\<lambda>_. K) (\<lambda>_. K)"
  unfolding fill_sidecar_def
  by (auto intro!: triple_bind [where R = "\<lambda>_. K"] call_frames write_rows_frame)

section \<open>Publishing\<close>

definition image_of :: "ple_pack_io_error + bytes \<Rightarrow> bytes option set" where
  "image_of img = (case img of Inl _ \<Rightarrow> {} | Inr c \<Rightarrow> {Some c})"

text \<open>What may be found at the destination after any run that started in \<open>fs0\<close>.\<close>

definition old_survivors :: "fs \<Rightarrow> path \<Rightarrow> bytes option set" where
  "old_survivors fs0 p = survivors fs0 p \<union> none_if (missing_dir fs0 p)"

definition old_or_image :: "fs \<Rightarrow> path \<Rightarrow> ple_pack_io_error + bytes \<Rightarrow> fs \<Rightarrow> bool" where
  "old_or_image fs0 p img fs \<longleftrightarrow> survivors fs p \<subseteq> old_survivors fs0 p \<union> image_of img"

text \<open>The state of the destination until the rename, and after it.\<close>

definition way_unsettled :: "fs \<Rightarrow> path \<Rightarrow> fs \<Rightarrow> bool" where
  "way_unsettled fs0 p fs \<longleftrightarrow> (path_parent p \<noteq> None \<longrightarrow>
     (unsettled_dir fs p \<longleftrightarrow> missing_dir fs0 p \<or> unsettled_dir fs0 p))"

definition not_renamed :: "fs \<Rightarrow> path \<Rightarrow> fs \<Rightarrow> bool" where
  "not_renamed fs0 p fs \<longleftrightarrow> survivors fs p \<subseteq> old_survivors fs0 p \<and> way_unsettled fs0 p fs"

definition renamed :: "fs \<Rightarrow> path \<Rightarrow> bytes \<Rightarrow> fs \<Rightarrow> bool" where
  "renamed fs0 p c fs \<longleftrightarrow> survivors fs p \<subseteq> insert (Some c) (old_survivors fs0 p) \<and> way_unsettled fs0 p fs \<and>
     fs_files fs p = Some c \<and> p \<notin> fs_unsynced fs"

lemma frames_not_renamed: "temp \<noteq> p \<Longrightarrow> frames temp (not_renamed fs0 p)"
  by (simp add: frames_def not_renamed_def way_unsettled_def)

lemma make_parent_disk:
  "triple (\<lambda>fs. fs = fs0) (case path_parent p of Some parent \<Rightarrow> create_dir_all parent | None \<Rightarrow> returnIO ())
     (\<lambda>_. not_renamed fs0 p) (\<lambda>_ fs. survivors fs p \<subseteq> old_survivors fs0 p)"
proof (cases "path_parent p")
  case None
  then show ?thesis
    by (auto intro!: triple_return simp: not_renamed_def old_survivors_def way_unsettled_def)
next
  case (Some parent)
  then have p: "p \<noteq> []" "parent = butlast p" by (auto simp: path_parent_def split: if_splits)
  note new = new_dirs_on_the_way [OF p(1), of fs0, folded p(2)]
  show ?thesis
  proof (cases "parent = []")
    case True
    then have "\<not> missing_dir fs0 p" by (simp add: missing_dir_def p(2) path_prefixes_def)
    then show ?thesis
      using True by (auto intro!: triple_return simp: Some create_dir_all_def not_renamed_def
          old_survivors_def way_unsettled_def)
  next
    case False
    have all: "not_renamed fs0 p (add_dirs (path_prefixes parent) fs0)"
      by (auto simp: not_renamed_def old_survivors_def way_unsettled_def survivors_add_dirs
          unsettled_add_dirs new simp del: in_survivors)
    have some: "survivors (add_dirs (take n (path_prefixes parent)) fs0) p \<subseteq> old_survivors fs0 p" for n
      using new in_set_takeD [of _ n "path_prefixes parent"]
      by (simp add: old_survivors_def survivors_add_dirs none_if_def) blast
    have none: "survivors fs0 p \<subseteq> old_survivors fs0 p" by (simp add: old_survivors_def)
    show ?thesis
      unfolding Some option.case create_dir_all_def if_not_P [OF False]
      by (rule triple_syscall) (use all some none in \<open>auto split: if_splits simp del: in_survivors\<close>)
  qed
qed

lemma synced_temp_disk:
  assumes "length p \<le> length temp"
  shows "not_renamed fs0 p fs \<Longrightarrow> not_renamed fs0 p (synced temp fs)"
proof -
  have "path_parent d \<noteq> Some temp" if "strict_prefix d p" for d
    using prefix_length_less [OF that] assms by (auto simp: path_parent_def split: if_splits)
  then have "unsettled_dir (synced temp fs) p = unsettled_dir fs p"
    by (auto simp: unsettled_dir_def synced_def)
  then show "not_renamed fs0 p fs \<Longrightarrow> not_renamed fs0 p (synced temp fs)"
    using survivors_synced [of temp fs p] by (auto simp: not_renamed_def way_unsettled_def simp del: in_survivors)
qed

lemma rename_disk:
  assumes "temp \<noteq> p"
  shows "triple (\<lambda>fs. not_renamed fs0 p fs \<and> temp \<notin> fs_unsynced fs \<and> (\<exists>c. img = Inr c \<and> fs_files fs temp = Some c))
     (rename_file temp p) (\<lambda>_ fs. \<exists>c. img = Inr c \<and> renamed fs0 p c fs)
     (\<lambda>_. old_or_image fs0 p img)"
proof -
  have moved: "renamed fs0 p c (move_file temp p fs)"
    if "not_renamed fs0 p fs" "temp \<notin> fs_unsynced fs" "fs_files fs temp = Some c" for c fs
    using that survivors_move [OF assms that(2)]
    by (auto simp: renamed_def not_renamed_def way_unsettled_def simp del: in_survivors)
  show ?thesis
    unfolding rename_file_def
    by (rule triple_syscall)
       (use moved in \<open>fastforce simp: old_or_image_def image_of_def renamed_def not_renamed_def all_or_nothing_def
          split: if_splits simp del: in_survivors\<close>)+
qed

lemma open_read_pure: "(\<And>e fs. P fs \<Longrightarrow> E e fs) \<Longrightarrow> triple P (open_read q) (\<lambda>_. P) E"
  unfolding open_read_def by (rule triple_syscall) (auto split: if_splits)

lemma sync_parent_disk:
  "triple (\<lambda>fs. img = Inr c \<and> renamed fs0 p c fs) (sync_parent_directory p)
     (\<lambda>_ fs. img = Inr c \<and> survivors fs p \<subseteq> insert (Some c) (old_survivors fs0 p) \<and>
        (path_parent p \<noteq> None \<longrightarrow>
           survivors fs p = insert (Some c) (none_if (missing_dir fs0 p \<or> unsettled_dir fs0 p))))
     (\<lambda>_. old_or_image fs0 p img)"
proof -
  have synced: "survivors (synced q fs) p \<subseteq> insert (Some c) (old_survivors fs0 p)" if "renamed fs0 p c fs" for q fs
    using that survivors_synced [of q fs p] by (auto simp: renamed_def simp del: in_survivors)
  have exact: "survivors (synced dir fs) p = insert (Some c) (none_if (missing_dir fs0 p \<or> unsettled_dir fs0 p))"
    if "renamed fs0 p c fs" "path_parent p = Some dir" for dir fs
    using that survivors_synced_parent [of p dir fs] by (simp add: renamed_def way_unsettled_def)
  show ?thesis
    unfolding sync_parent_directory_def Let_def sync_all_def
    by (rule triple_bind [OF open_read_pure triple_syscall])
       (use synced exact in \<open>fastforce simp: old_or_image_def renamed_def image_of_def simp del: in_survivors\<close>)+
qed

lemma publish_disk:
  assumes neq: "temp \<noteq> p" and len: "length p \<le> length temp" and img: "img = parts_image src plan parts"
  shows "triple (\<lambda>fs. fs = fs0) (publish_sidecar p temp src plan parts)
     (\<lambda>_ fs. \<exists>c. img = Inr c \<and> survivors fs p \<subseteq> insert (Some c) (old_survivors fs0 p) \<and>
        (path_parent p \<noteq> None \<longrightarrow>
           survivors fs p = insert (Some c) (none_if (missing_dir fs0 p \<or> unsettled_dir fs0 p))))
     (\<lambda>_. old_or_image fs0 p img)"
proof -
  let ?K = "not_renamed fs0 p"
  let ?E = "\<lambda>_. old_or_image fs0 p img"
  let ?kept = "others_kept temp fs0"
  note K = frames_not_renamed [OF neq, of fs0]
  have safe: "?K fs \<Longrightarrow> old_or_image fs0 p i fs" for i fs
    by (auto simp: not_renamed_def old_or_image_def simp del: in_survivors)
  have make: "triple (\<lambda>fs. fs = fs0)
      (case path_parent p of Some parent \<Rightarrow> create_dir_all parent | None \<Rightarrow> returnIO ())
      (\<lambda>_ fs. ?kept fs \<and> ?K fs) ?E"
    by (rule triple_conseq [OF triple_conj [OF make_parent_triple make_parent_disk]])
       (auto simp: others_kept_def old_or_image_def)
  have new: "triple (\<lambda>fs. ?kept fs \<and> ?K fs) (open_create_new temp)
      (\<lambda>_ fs. (?kept fs \<and> fs_files fs temp = Some []) \<and> ?K fs) ?E"
    by (rule triple_conseq [OF triple_conj [OF open_create_new_triple open_create_new_frame [OF K]]])
       (auto intro: safe)
  have fill: "triple (\<lambda>fs. (?kept fs \<and> fs_files fs temp = Some []) \<and> ?K fs) (fill_sidecar temp src plan parts)
      (\<lambda>_ fs. ?K fs \<and> (\<exists>c. img = Inr c \<and> fs_files fs temp = Some c)) ?E"
    by (rule triple_conseq [OF triple_conj [OF fill_triple fill_sidecar_frame [OF K]]])
       (auto simp: img [symmetric] intro: safe)
  have sync: "triple (\<lambda>fs. ?K fs \<and> (\<exists>c. img = Inr c \<and> fs_files fs temp = Some c)) (sync_all temp)
      (\<lambda>_ fs. ?K fs \<and> temp \<notin> fs_unsynced fs \<and> (\<exists>c. img = Inr c \<and> fs_files fs temp = Some c)) ?E"
    unfolding sync_all_def
    by (rule triple_syscall) (auto intro: safe synced_temp_disk [OF len])
  have parent: "triple (\<lambda>fs. \<exists>c. img = Inr c \<and> renamed fs0 p c fs) (sync_parent_directory p)
      (\<lambda>_ fs. \<exists>c. img = Inr c \<and> survivors fs p \<subseteq> insert (Some c) (old_survivors fs0 p) \<and>
        (path_parent p \<noteq> None \<longrightarrow>
           survivors fs p = insert (Some c) (none_if (missing_dir fs0 p \<or> unsettled_dir fs0 p)))) ?E"
    by (intro triple_exists triple_conseq [OF sync_parent_disk]) auto
  show ?thesis
    unfolding publish_sidecar_def
    by (rule triple_bind [OF make], rule triple_bind [OF new], rule triple_bind [OF fill],
        rule triple_bind [OF sync], rule triple_bind [OF rename_disk [OF neq]],
        rule triple_bind [OF parent], rule triple_return)
qed

lemma length_temporary_path_le: "length p \<le> length (temporary_path p pid nonce)"
  by (cases p) (simp_all add: temporary_path_def with_file_name_def Let_def)

text \<open>Every run of the writer, and every report it returns.\<close>

lemma write_overlay_disk:
  assumes "write_overlay sha256 path pid nonce src plan fs sch = (r, fs', sch')"
  shows "survivors fs' path \<subseteq> old_survivors fs path \<union> image_of (sidecar_image sha256 src plan)"
    and "r = Inr report \<Longrightarrow> path_parent path \<noteq> None \<Longrightarrow> \<exists>c. sidecar_image sha256 src plan = Inr c \<and>
      survivors fs' path = insert (Some c) (none_if (missing_dir fs path \<or> unsettled_dir fs path))"
proof -
  let ?temp = "temporary_path path pid nonce"
  let ?img = "sidecar_image sha256 src plan"
  let ?E = "old_or_image fs path ?img"
  let ?Q = "\<lambda>fs'. \<exists>c. ?img = Inr c \<and> survivors fs' path \<subseteq> insert (Some c) (old_survivors fs path) \<and>
    (path_parent path \<noteq> None \<longrightarrow>
       survivors fs' path = insert (Some c) (none_if (missing_dir fs path \<or> unsettled_dir fs path)))"
  have neq: "?temp \<noteq> path" by (rule temporary_path_neq)
  have "triple (\<lambda>fs'. fs' = fs) (publish_sidecar path ?temp src plan parts) (\<lambda>_. ?Q) (\<lambda>_. ?E)"
    if "prepare_sidecar sha256 src plan = Inr parts" for parts
    by (rule publish_disk [OF neq length_temporary_path_le]) (simp add: sidecar_image_def that)
  moreover have "triple ?E (remove_file ?temp) (\<lambda>_. ?E) (\<lambda>_. ?E)"
    by (rule remove_file_frame) (simp add: frames_def old_or_image_def neq)
  ultimately have "?E fs' \<and> (\<forall>report. r = Inr report \<longrightarrow> ?Q fs')"
    by (rule write_overlay_triple [OF assms]) (auto simp: old_or_image_def old_survivors_def image_of_def simp del: in_survivors)
  then show "survivors fs' path \<subseteq> old_survivors fs path \<union> image_of ?img" and "r = Inr report \<Longrightarrow> path_parent path \<noteq> None \<Longrightarrow> \<exists>c. ?img = Inr c \<and>
      survivors fs' path = insert (Some c) (none_if (missing_dir fs path \<or> unsettled_dir fs path))"
    by (auto simp: old_or_image_def simp del: in_survivors)
qed

section \<open>Properties\<close>

text \<open>
  C4. A loss of power never leaves a damaged sidecar. Whatever the calls of a run do, and wherever it
  ends, after the machine stops the destination holds what it could have held before the run, or the
  complete image; or nothing, when a directory on the way to it did not exist before.
\<close>

theorem power_loss_atomic:
  "case write_overlay sha256 path pid nonce src plan fs sch of (_, fs', _) \<Rightarrow>
     survivors fs' path \<subseteq>
       survivors fs path \<union> none_if (missing_dir fs path) \<union> image_of (sidecar_image sha256 src plan)"
  using write_overlay_disk(1) [of sha256 path pid nonce src plan fs sch]
  by (auto simp: old_survivors_def simp del: in_survivors split: prod.split)

text \<open>
  C5. What a report is worth after a loss of power. When the writer returns a report and the
  directories of the destination were on the disk before, the destination is found with the complete
  image and nothing else. A directory that the writer had to make is not synced in the directory above
  it, so then the published sidecar may also be found missing.
\<close>

theorem published_sidecar_on_disk:
  assumes "path_file_name path \<noteq> None"
    and "write_overlay sha256 path pid nonce src plan fs sch = (Inr report, fs', sch')"
  shows "\<exists>img. sidecar_image sha256 src plan = Inr img \<and> fs_files fs' path = Some img \<and>
    survivors fs' path = insert (Some img) (if missing_dir fs path \<or> unsettled_dir fs path then {None} else {})"
proof -
  have "path_parent path \<noteq> None" using file_name_parent [OF assms(1)] by simp
  from write_overlay_disk(2) [OF assms(2) refl this] obtain c where
    c: "sidecar_image sha256 src plan = Inr c"
    "survivors fs' path = insert (Some c) (none_if (missing_dir fs path \<or> unsettled_dir fs path))" by blast
  moreover have "fs_files fs' path = Some c"
    using write_overlay_outcomes(2) [OF assms(2) refl] c(1) by (auto simp: published_def)
  ultimately show ?thesis by (simp add: none_if_def)
qed

definition test_settled_fs :: fs where
  "test_settled_fs = empty_fs\<lparr>fs_dirs := {[RootDir, Normal [112]]}\<rparr>"

theorem published_sidecar_on_disk_witness:
  "\<exists>fs' fs'' r r' img. write_overlay test_sha256 test_path 7 9 (raw_as_source test_source)
      test_overlay_plan empty_fs [] = (Inr r, fs', []) \<and> survivors fs' test_path = {Some img, None} \<and>
    write_overlay test_sha256 test_path 7 9 (raw_as_source test_source)
      test_overlay_plan test_settled_fs [] = (Inr r', fs'', []) \<and> survivors fs'' test_path = {Some img}"
proof -
  have settled: "publishable test_path (temporary_path test_path 7 9) test_settled_fs"
    using length_temporary_path_le [of test_path 7 9]
    by (auto simp: publishable_def test_path_def test_settled_fs_def empty_fs_def path_file_name_def list_all_iff)
  have dirs: "missing_dir empty_fs test_path" "\<not> missing_dir test_settled_fs test_path"
    "\<not> unsettled_dir test_settled_fs test_path"
    by (simp_all add: missing_dir_def unsettled_dir_def test_path_def test_settled_fs_def empty_fs_def
        path_prefixes_def dir_exists_def)
  have named: "path_file_name test_path \<noteq> None" by (simp add: test_path_def path_file_name_def)
  from test_overlay_runs [OF test_publishable] test_overlay_runs [OF settled] obtain fs' fs'' r r' where run:
    "write_overlay test_sha256 test_path 7 9 (raw_as_source test_source) test_overlay_plan empty_fs []
       = (Inr r, fs', [])"
    "write_overlay test_sha256 test_path 7 9 (raw_as_source test_source) test_overlay_plan test_settled_fs []
       = (Inr r', fs'', [])"
    by metis
  from published_sidecar_on_disk [OF named run(1)] published_sidecar_on_disk [OF named run(2)] run show ?thesis
    by (auto simp: dirs)
qed

end
