(* ===== verification/Interleaving.thy ===== *)
theory Interleaving
  imports FileIo
begin

text \<open>
  Processes that share the file system. A program is what a process still has to do: it is done, or
  it makes a call and goes on according to the answer. In a system every process has a program and
  the position of its own open file; one step is one call of one process, with any outcome.

  \<open>obeys R G Q p\<close>: between the calls of \<open>p\<close> the others change the file system within the rely \<open>R\<close>,
  every call of \<open>p\<close> changes it within the guarantee \<open>G\<close>, and when \<open>p\<close> is done \<open>Q\<close> holds. The locale
  \<open>interference\<close> is what makes such processes compose: the guarantee of each is within the rely of
  the others.
\<close>

section \<open>Programs\<close>

datatype 'a prog = Done "io_stop + 'a" | Call "unit io" "io_stop + unit \<Rightarrow> 'a prog"

primrec bind_prog :: "'a prog \<Rightarrow> ('a \<Rightarrow> 'b prog) \<Rightarrow> 'b prog" where
  "bind_prog (Done r) f = (case r of Inl e \<Rightarrow> Done (Inl e) | Inr x \<Rightarrow> f x)"
| "bind_prog (Call m k) f = Call m (\<lambda>r. bind_prog (k r) f)"

definition call :: "unit io \<Rightarrow> unit prog" where
  "call m = Call m Done"

definition pure :: "ple_pack_io_error + 'a \<Rightarrow> 'a prog" where
  "pure r = Done (map_err Failed r)"

text \<open>A program on its own is a sequence of calls.\<close>

primrec run_prog :: "'a prog \<Rightarrow> 'a io" where
  "run_prog (Done r) = (\<lambda>fs sch. (r, fs, sch))"
| "run_prog (Call m k) = (\<lambda>fs sch. case m fs sch of (r, fs', sch') \<Rightarrow> run_prog (k r) fs' sch')"

lemma run_bind [simp]: "run_prog (bind_prog p f) = bindIO (run_prog p) (\<lambda>x. run_prog (f x))"
  by (induction p) (auto simp: bindIO_def fun_eq_iff split: sum.split prod.split)

lemma run_call [simp]: "run_prog (call m) = m"
  by (simp add: call_def fun_eq_iff split: prod.split)

lemma run_pure [simp]: "run_prog (pure r) = liftIO r"
  by (simp add: pure_def liftIO_def)

section \<open>Systems\<close>

record ('i, 'a) system =
  sys_fs :: fs
  sys_cursor :: "'i \<Rightarrow> nat"
  sys_prog :: "'i \<Rightarrow> 'a prog"

text \<open>The file system as a process sees it: with the position of its own file.\<close>

definition view :: "('i, 'a) system \<Rightarrow> 'i \<Rightarrow> fs" where
  "view s i = (sys_fs s)\<lparr>fs_cursor := sys_cursor s i\<rparr>"

definition after_call :: "('i, 'a) system \<Rightarrow> 'i \<Rightarrow> fs \<Rightarrow> 'a prog \<Rightarrow> ('i, 'a) system" where
  "after_call s i fs' p = s\<lparr>sys_fs := fs', sys_cursor := (sys_cursor s)(i := fs_cursor fs'),
     sys_prog := (sys_prog s)(i := p)\<rparr>"

inductive system_step :: "('i, 'a) system \<Rightarrow> ('i, 'a) system \<Rightarrow> bool" where
  "sys_prog s i = Call m k \<Longrightarrow> m (view s i) sch = (r, fs', sch') \<Longrightarrow>
     system_step s (after_call s i fs' (k r))"

inductive_cases system_stepE: "system_step s s'"

abbreviation system_steps :: "('i, 'a) system \<Rightarrow> ('i, 'a) system \<Rightarrow> bool" where
  "system_steps \<equiv> system_step\<^sup>*\<^sup>*"

lemma after_call_sel [simp]:
  "sys_fs (after_call s i fs' p) = fs'"
  "sys_prog (after_call s i fs' p) = (sys_prog s)(i := p)"
  "view (after_call s i fs' p) i = fs'"
  by (simp_all add: after_call_def view_def)

lemma view_other: "j \<noteq> i \<Longrightarrow> view (after_call s i fs' p) j = fs'\<lparr>fs_cursor := sys_cursor s j\<rparr>"
  by (simp add: after_call_def view_def)

text \<open>One process that is not interrupted by the others makes the calls of its program.\<close>

lemma run_is_steps:
  "sys_prog s i = p \<Longrightarrow> run_prog p (view s i) sch = (r, fs', sch') \<Longrightarrow>
     \<exists>s'. system_steps s s' \<and> sys_prog s' = (sys_prog s)(i := Done r) \<and> view s' i = fs'"
proof (induction p arbitrary: s sch)
  case (Done r')
  then show ?case by (intro exI [of _ s]) (auto simp: fun_eq_iff)
next
  case (Call m k)
  obtain r1 fs1 sch1 where m: "m (view s i) sch = (r1, fs1, sch1)" by (metis prod_cases3)
  let ?s = "after_call s i fs1 (k r1)"
  have "run_prog (k r1) (view ?s i) sch1 = (r, fs', sch')" using Call.prems(2) m by simp
  from Call.IH [OF rangeI _ this] obtain s' where s':
    "system_steps ?s s'" "sys_prog s' = (sys_prog s)(i := Done r)" "view s' i = fs'"
    by (auto simp: fun_upd_upd fun_upd_same simp del: fun_upd_apply)
  have "system_step s ?s" using Call.prems(1) m by (rule system_step.intros)
  then show ?case using s' converse_rtranclp_into_rtranclp [of system_step s ?s s'] by blast
qed

section \<open>Rely and guarantee\<close>

primrec obeys ::
    "(fs \<Rightarrow> fs \<Rightarrow> bool) \<Rightarrow> (fs \<Rightarrow> fs \<Rightarrow> bool) \<Rightarrow> (io_stop + 'a \<Rightarrow> fs \<Rightarrow> bool) \<Rightarrow> 'a prog \<Rightarrow> fs \<Rightarrow> bool"
where
  "obeys R G Q (Done r) = Q r"
| "obeys R G Q (Call m k) = (\<lambda>fs. \<forall>fs0 sch r fs' sch'. R fs fs0 \<longrightarrow>
     m fs0 sch = (r, fs', sch') \<longrightarrow> G fs0 fs' \<and> obeys R G Q (k r) fs')"

declare obeys.simps(2) [simp del]

lemma obeys_CallI:
  "(\<And>fs0 sch r fs' sch'. R fs fs0 \<Longrightarrow> m fs0 sch = (r, fs', sch') \<Longrightarrow>
     G fs0 fs' \<and> obeys R G Q (k r) fs') \<Longrightarrow> obeys R G Q (Call m k) fs"
  unfolding obeys.simps by blast

lemma obeys_CallD:
  "obeys R G Q (Call m k) fs \<Longrightarrow> R fs fs0 \<Longrightarrow> m fs0 sch = (r, fs', sch') \<Longrightarrow>
     G fs0 fs' \<and> obeys R G Q (k r) fs'"
  unfolding obeys.simps by blast

text \<open>\<open>rg P R p G Q E\<close>: from \<open>P\<close>, \<open>p\<close> obeys \<open>R\<close> and \<open>G\<close> and returns with \<open>Q\<close> or stops with \<open>E\<close>.\<close>

definition rg ::
    "(fs \<Rightarrow> bool) \<Rightarrow> (fs \<Rightarrow> fs \<Rightarrow> bool) \<Rightarrow> 'a prog \<Rightarrow> (fs \<Rightarrow> fs \<Rightarrow> bool) \<Rightarrow> ('a \<Rightarrow> fs \<Rightarrow> bool) \<Rightarrow>
      (io_stop \<Rightarrow> fs \<Rightarrow> bool) \<Rightarrow> bool"
where
  "rg P R p G Q E \<longleftrightarrow> (\<forall>fs. P fs \<longrightarrow> obeys R G (\<lambda>r. case r of Inl e \<Rightarrow> E e | Inr x \<Rightarrow> Q x) p fs)"

definition stable :: "(fs \<Rightarrow> bool) \<Rightarrow> (fs \<Rightarrow> fs \<Rightarrow> bool) \<Rightarrow> bool" where
  "stable P R \<longleftrightarrow> (\<forall>a b. P a \<longrightarrow> R a b \<longrightarrow> P b)"

lemma obeys_bind:
  assumes "obeys R G Q p fs" and "\<And>e fs. Q (Inl e) fs \<Longrightarrow> Q' (Inl e) fs"
    and "\<And>x fs. Q (Inr x) fs \<Longrightarrow> obeys R G Q' (f x) fs"
  shows "obeys R G Q' (bind_prog p f) fs"
  using assms(1)
proof (induction p arbitrary: fs)
  case (Done r)
  then show ?case using assms(2,3) by (cases r) auto
next
  case (Call m k)
  then show ?case by (fastforce intro: obeys_CallI dest: obeys_CallD)
qed

lemma rg_bind:
  assumes "rg P R p G Q' E" and "\<And>x. rg (Q' x) R (f x) G Q E"
  shows "rg P R (bind_prog p f) G Q E"
  using assms unfolding rg_def by (auto intro: obeys_bind)

lemma rg_done: "(\<And>fs. P fs \<Longrightarrow> Q x fs) \<Longrightarrow> rg P R (Done (Inr x)) G Q E"
  by (simp add: rg_def)

lemma rg_pure:
  "(\<And>x fs. r = Inr x \<Longrightarrow> P fs \<Longrightarrow> Q x fs) \<Longrightarrow> (\<And>e fs. r = Inl e \<Longrightarrow> P fs \<Longrightarrow> E (Failed e) fs) \<Longrightarrow>
     rg P R (pure r) G Q E"
  by (cases r) (simp_all add: rg_def pure_def)

text \<open>A call: its triple gives the result, its effect on the state it is made in the guarantee.\<close>

lemma rg_call:
  assumes "stable P R" and "triple P m Q E"
    and "\<And>fs0. P fs0 \<Longrightarrow> triple (\<lambda>fs. fs = fs0) m (\<lambda>_. G fs0) (\<lambda>_. G fs0)"
  shows "rg P R (call m) G Q E"
  unfolding rg_def
proof (intro allI impI)
  fix fs
  assume "P fs"
  have "G fs0 fs' \<and> (case r of Inl e \<Rightarrow> E e | Inr x \<Rightarrow> Q x) fs'"
    if "R fs fs0" "m fs0 sch = (r, fs', sch')" for fs0 sch r fs' sch'
  proof -
    have P: "P fs0" using \<open>P fs\<close> that(1) assms(1) by (auto simp: stable_def)
    show ?thesis
      using tripleD [OF assms(2) P that(2)] tripleD [OF assms(3) [OF P] refl that(2)]
      by (auto split: sum.splits)
  qed
  then show "obeys R G (\<lambda>r. case r of Inl e \<Rightarrow> E e | Inr x \<Rightarrow> Q x) (call m) fs"
    by (auto simp: call_def intro: obeys_CallI)
qed

lemma rg_conseq:
  assumes "rg P R p G Q E" and "\<And>fs. P' fs \<Longrightarrow> P fs" and "\<And>x fs. Q x fs \<Longrightarrow> Q' x fs"
    and "\<And>e fs. E e fs \<Longrightarrow> E' e fs"
  shows "rg P' R p G Q' E'"
proof -
  have "obeys R G (\<lambda>r. case r of Inl e \<Rightarrow> E' e | Inr x \<Rightarrow> Q' x) p fs"
    if "obeys R G (\<lambda>r. case r of Inl e \<Rightarrow> E e | Inr x \<Rightarrow> Q x) p fs" for fs
    using that
  proof (induction p arbitrary: fs)
    case (Done r)
    then show ?case using assms(3,4) by (cases r) auto
  qed (fastforce intro: obeys_CallI dest: obeys_CallD)
  then show ?thesis using assms(1,2) by (auto simp: rg_def)
qed

lemma rg_guard: "(b \<Longrightarrow> rg P R p G Q E) \<Longrightarrow> rg (\<lambda>fs. b \<and> P fs) R p G Q E"
  by (cases b) (simp_all add: rg_def)

lemma rg_exists: "(\<And>c. rg (\<lambda>fs. P c fs) R p G Q E) \<Longrightarrow> rg (\<lambda>fs. \<exists>c. P c fs) R p G Q E"
  unfolding rg_def by blast

section \<open>Processes that do not disturb each other\<close>

locale interference =
  fixes valid :: "'w \<Rightarrow> bool"
    and rely guar :: "'w \<Rightarrow> 'i \<Rightarrow> fs \<Rightarrow> fs \<Rightarrow> bool"
  assumes rely_refl: "rely w i a a"
    and rely_trans: "rely w i a b \<Longrightarrow> rely w i b c \<Longrightarrow> rely w i a c"
    and guar_within_rely: "valid w \<Longrightarrow> i \<noteq> j \<Longrightarrow> guar w j a b \<Longrightarrow>
      rely w i (a\<lparr>fs_cursor := n\<rparr>) (b\<lparr>fs_cursor := n\<rparr>)"
begin

text \<open>Every process obeys its contract from the state it last saw.\<close>

definition consistent :: "'w \<Rightarrow> ('i \<Rightarrow> io_stop + 'a \<Rightarrow> fs \<Rightarrow> bool) \<Rightarrow> ('i, 'a) system \<Rightarrow> bool" where
  "consistent w Q s \<longleftrightarrow>
     (\<forall>i. \<exists>fs. rely w i fs (view s i) \<and> obeys (rely w i) (guar w i) (Q i) (sys_prog s i) fs)"

lemma consistent_step:
  assumes "valid w" and "consistent w Q s" and "system_step s s'"
  shows "consistent w Q s'" and "\<exists>i. guar w i (view s i) (view s' i)"
proof -
  from assms(3) obtain i m k sch r fs' sch' where
    prog: "sys_prog s i = Call m k" and run: "m (view s i) sch = (r, fs', sch')" and
    s': "s' = after_call s i fs' (k r)"
    by (auto elim: system_stepE)
  from assms(2) obtain fs where fs: "rely w i fs (view s i)"
    "obeys (rely w i) (guar w i) (Q i) (Call m k) fs"
    unfolding consistent_def prog [symmetric] by blast
  then have step: "guar w i (view s i) fs'" "obeys (rely w i) (guar w i) (Q i) (k r) fs'"
    using run by (blast dest: obeys_CallD)+
  show "\<exists>i. guar w i (view s i) (view s' i)" using step(1) by (intro exI [of _ i]) (simp add: s')
  show "consistent w Q s'"
    unfolding consistent_def
  proof
    fix j
    show "\<exists>fs. rely w j fs (view s' j) \<and> obeys (rely w j) (guar w j) (Q j) (sys_prog s' j) fs"
    proof (cases "j = i")
      case True
      then show ?thesis using step(2) rely_refl by (auto simp: s')
    next
      case False
      from assms(2) obtain fs where fs: "rely w j fs (view s j)"
        "obeys (rely w j) (guar w j) (Q j) (sys_prog s j) fs"
        unfolding consistent_def by blast
      have "rely w j (view s j) (view s' j)"
        using guar_within_rely [OF assms(1) False step(1), of "sys_cursor s j"] False
        by (simp add: s' view_other [OF False] view_def [of s])
      from rely_trans [OF fs(1) this] show ?thesis using fs(2) False by (intro exI [of _ fs]) (simp add: s')
    qed
  qed
qed

text \<open>So it is in every state the system reaches, and what every guarantee keeps is kept.\<close>

lemma consistent_steps:
  assumes "system_steps s s'" and "valid w" and "consistent w Q s"
    and "\<And>i a b. guar w i a b \<Longrightarrow> I a \<Longrightarrow> I b" and "\<And>fs n. I (fs\<lparr>fs_cursor := n\<rparr>) = I fs"
    and "I (sys_fs s)"
  shows "consistent w Q s' \<and> I (sys_fs s')"
  using assms(1)
proof (induction rule: rtranclp_induct)
  case (step s1 s2)
  then obtain i where "guar w i (view s1 i) (view s2 i)"
    using consistent_step(2) [OF assms(2)] by blast
  from assms(4) [OF this] have "I (sys_fs s2)" using step.IH assms(5) by (simp add: view_def)
  then show ?case using step consistent_step(1) [OF assms(2)] by blast
qed (use assms in simp)

lemma consistent_done:
  assumes "consistent w Q s" and "sys_prog s i = Done r" and "stable (Q i r) (rely w i)"
  shows "Q i r (view s i)"
proof -
  from assms(1) obtain fs where "rely w i fs (view s i)"
    "obeys (rely w i) (guar w i) (Q i) (sys_prog s i) fs"
    unfolding consistent_def by blast
  then show ?thesis using assms(2,3) by (auto simp: stable_def)
qed

end

end
