(* ===== verification/PleConcurrent.thy ===== *)
theory PleConcurrent
  imports PleDurability Interleaving
begin

text \<open>
  Several runs of the sidecar writer (\<open>crates/gb10x-ple/src/writer.rs\<close>) at once, for the same
  destination. The writer is written again as a program whose calls are single steps; run on its own
  it is \<open>write_overlay\<close>. In the system of all writers a step is one call of one of them, with any
  outcome, so calls interleave in every order, fail, or end a process anywhere.

  A writer relies on the others for its temporary file, which is its own when process and clock
  differ, and guarantees that it changes nothing but that file and the destination, and the
  destination only to its complete image.
\<close>

section \<open>The writer as a program\<close>

fun write_rows_prog ::
    "path \<Rightarrow> row_source \<Rightarrow> layout_plan \<Rightarrow> u64 \<Rightarrow> hot_overlay_placement list \<Rightarrow> bytes \<Rightarrow> unit prog" where
  "write_rows_prog temp src plan doff [] row = Done (Inr ())"
| "write_rows_prog temp src plan doff (pl # pls) row =
     bind_prog (pure (src_read_exact_row src (pl_logical_row pl) row)) (\<lambda>row.
     bind_prog (pure (placement_offset plan pl ''hot overlay write offset overflow''))
       (\<lambda>overlay_offset.
     bind_prog (pure (ok_or (checked_add doff overlay_offset)
               (Format ''hot overlay absolute offset overflow''))) (\<lambda>absolute.
     bind_prog (call (seek_start absolute)) (\<lambda>_.
     bind_prog (call (write_all temp row)) (\<lambda>_.
     write_rows_prog temp src plan doff pls row)))))"

definition fill_sidecar_prog ::
    "path \<Rightarrow> row_source \<Rightarrow> layout_plan \<Rightarrow> sidecar_parts \<Rightarrow> unit prog" where
  "fill_sidecar_prog temp src plan parts =
     bind_prog (call (set_len temp (sp_file_bytes parts))) (\<lambda>_.
     bind_prog (call (seek_start 0)) (\<lambda>_.
     bind_prog (call (write_all temp (disk_header_encode (sp_header parts)))) (\<lambda>_.
     bind_prog (call (seek_start DISK_HEADER_BYTES)) (\<lambda>_.
     bind_prog (call (write_all temp (sp_payload parts))) (\<lambda>_.
     write_rows_prog temp src plan (data_offset (sp_header parts)) (lp_placements plan)
       (replicate (unat (src_row_bytes src)) 0))))))"

definition sync_parent_prog :: "path \<Rightarrow> unit prog" where
  "sync_parent_prog path =
     (let parent = (case path_parent path of Some parent \<Rightarrow> parent | None \<Rightarrow> [CurDir])
      in bind_prog (call (open_read parent)) (\<lambda>_. call (sync_all parent)))"

definition publish_sidecar_prog ::
    "path \<Rightarrow> path \<Rightarrow> row_source \<Rightarrow> layout_plan \<Rightarrow> sidecar_parts \<Rightarrow> write_report prog" where
  "publish_sidecar_prog path temp src plan parts =
     bind_prog (case path_parent path of
         Some parent \<Rightarrow> call (create_dir_all parent) | None \<Rightarrow> Done (Inr ())) (\<lambda>_.
     bind_prog (call (open_create_new temp)) (\<lambda>_.
     bind_prog (fill_sidecar_prog temp src plan parts) (\<lambda>_.
     bind_prog (call (sync_all temp)) (\<lambda>_.
     bind_prog (call (rename_file temp path)) (\<lambda>_.
     bind_prog (sync_parent_prog path) (\<lambda>_.
     Done (Inr
       \<lparr>wr_hot_rows = word_of_nat (length (sp_entries parts)),
        wr_index_offset = DISK_HEADER_BYTES,
        wr_index_bytes = index_bytes (sp_header parts),
        wr_overlay_bytes = overlay_bytes (sp_header parts),
        wr_file_bytes = sp_file_bytes parts\<rparr>)))))))"

text \<open>A failure, unless the process is gone, is followed by the removal of the temporary file.\<close>

primrec clean_up :: "path \<Rightarrow> 'a prog \<Rightarrow> 'a prog" where
  "clean_up temp (Done r) =
     (case r of
        Inl (Failed e) \<Rightarrow> Call (remove_file temp)
          (\<lambda>r'. if r' = Inl Killed then Done (Inl Killed) else Done (Inl (Failed e)))
      | _ \<Rightarrow> Done r)"
| "clean_up temp (Call m k) = Call m (\<lambda>r. clean_up temp (k r))"

definition write_overlay_prog ::
    "(bytes \<Rightarrow> bytes) \<Rightarrow> path \<Rightarrow> nat \<Rightarrow> nat \<Rightarrow> row_source \<Rightarrow> layout_plan \<Rightarrow> write_report prog" where
  "write_overlay_prog sha256 path pid nonce src plan =
     bind_prog (pure (prepare_sidecar sha256 src plan)) (\<lambda>parts.
       let temp = temporary_path path pid nonce
       in clean_up temp (publish_sidecar_prog path temp src plan parts))"

text \<open>On its own the program is the writer.\<close>

lemma run_write_rows [simp]: "run_prog (write_rows_prog temp src plan doff pls row)
    = write_rows temp src plan doff pls row"
  by (induction pls arbitrary: row) (simp_all add: returnIO_def)

lemma run_returned_bind [simp]: "bindIO (\<lambda>fs sch. (Inr x, fs, sch)) f = f x"
  by (simp add: bindIO_def fun_eq_iff)

lemma run_publish [simp]: "run_prog (publish_sidecar_prog path temp src plan parts)
    = publish_sidecar path temp src plan parts"
  by (cases "path_parent path")
     (simp_all add: publish_sidecar_prog_def publish_sidecar_def fill_sidecar_prog_def fill_sidecar_def
       sync_parent_prog_def sync_parent_directory_def Let_def returnIO_def)

lemma run_clean_up: "run_prog (clean_up temp p) fs sch =
    (case run_prog p fs sch of
       (Inl (Failed e), fs', sch') \<Rightarrow>
         (case remove_file temp fs' sch' of
            (Inl Killed, fs'', sch'') \<Rightarrow> (Inl Killed, fs'', sch'')
          | (_, fs'', sch'') \<Rightarrow> (Inl (Failed e), fs'', sch''))
     | other \<Rightarrow> other)"
proof (induction p arbitrary: fs sch)
  case (Done r)
  show ?case
    by (auto split: sum.split io_stop.split prod.split)
next
  case (Call m k)
  then show ?case by (auto split: prod.splits)
qed

lemma run_write_overlay:
  "run_prog (write_overlay_prog sha256 path pid nonce src plan) = write_overlay sha256 path pid nonce src plan"
  unfolding write_overlay_prog_def write_overlay_def run_bind run_pure Let_def
  by (intro ext) (auto simp: bindIO_def run_clean_up split: prod.split sum.split)

section \<open>The writers of one destination\<close>

record 'i writers =
  ww_digest :: "bytes \<Rightarrow> bytes"
  ww_path :: path
  ww_pid :: "'i \<Rightarrow> nat"
  ww_nonce :: "'i \<Rightarrow> nat"
  ww_source :: "'i \<Rightarrow> row_source"
  ww_plan :: "'i \<Rightarrow> layout_plan"

definition writer_temp :: "'i writers \<Rightarrow> 'i \<Rightarrow> path" where
  "writer_temp w i = temporary_path (ww_path w) (ww_pid w i) (ww_nonce w i)"

definition writer_image :: "'i writers \<Rightarrow> 'i \<Rightarrow> ple_pack_io_error + bytes" where
  "writer_image w i = sidecar_image (ww_digest w) (ww_source w i) (ww_plan w i)"

definition writers_started :: "'i writers \<Rightarrow> fs \<Rightarrow> ('i, write_report) system" where
  "writers_started w fs = \<lparr>sys_fs = fs, sys_cursor = (\<lambda>_. 0),
     sys_prog = (\<lambda>i. write_overlay_prog (ww_digest w) (ww_path w) (ww_pid w i) (ww_nonce w i)
        (ww_source w i) (ww_plan w i))\<rparr>"

definition distinct_writers :: "'i writers \<Rightarrow> bool" where
  "distinct_writers w \<longleftrightarrow> (\<forall>i j. i \<noteq> j \<longrightarrow> (ww_pid w i, ww_nonce w i) \<noteq> (ww_pid w j, ww_nonce w j))"

text \<open>Different process ids or clock readings give different names.\<close>

lemma unat_decimal_digit: "unat (word_of_nat (48 + n mod 10) :: u8) = 48 + n mod 10"
proof -
  have "48 + n mod 10 < 2 ^ 8" by (simp add: less_le_trans [OF mod_less_divisor])
  then show ?thesis by (simp only: unat_of_nat) simp
qed

lemma decimal_digits: "list_all (\<lambda>b. b \<noteq> 45) (decimal n)"
proof (induction n rule: decimal.induct)
  case (1 n)
  have "(word_of_nat (48 + n mod 10) :: u8) \<noteq> 45"
  proof
    assume "(word_of_nat (48 + n mod 10) :: u8) = 45"
    then show False using unat_decimal_digit [of n] by (simp del: of_nat_add)
  qed
  then show ?case using 1 by (subst decimal.simps) simp
qed

lemma decimal_inj: "decimal m = decimal n \<Longrightarrow> m = n"
proof (induction m arbitrary: n rule: decimal.induct)
  case (1 m)
  have nonempty: "decimal k \<noteq> []" for k by (subst decimal.simps) simp
  have parts: "(if m < 10 then [] else decimal (m div 10)) = (if n < 10 then [] else decimal (n div 10))"
    "(word_of_nat (48 + m mod 10) :: u8) = word_of_nat (48 + n mod 10)"
    using 1(2) decimal.simps [of m] decimal.simps [of n] by simp_all
  then have mods: "m mod 10 = n mod 10" using unat_decimal_digit by (metis add_left_cancel)
  show ?case
  proof (cases "m < 10 \<or> n < 10")
    case True
    then show ?thesis using parts(1) nonempty mods nonempty [symmetric] by (auto split: if_splits)
  next
    case False
    then have "m div 10 = n div 10" using 1 parts(1) by simp
    then show ?thesis using mods by (metis div_mult_mod_eq)
  qed
qed

lemma temporary_path_inj:
  assumes "temporary_path path pid nonce = temporary_path path pid' nonce'"
  shows "pid = pid' \<and> nonce = nonce'"
proof -
  have "decimal pid @ 45 # decimal nonce = decimal pid' @ 45 # decimal nonce'"
    using assms by (simp add: temporary_path_def with_file_name_def Let_def split: if_splits)
  from arg_cong [OF this, of "takeWhile (\<lambda>b. b \<noteq> 45)"] arg_cong [OF this, of "dropWhile (\<lambda>b. b \<noteq> 45)"]
  have "decimal pid = decimal pid' \<and> decimal nonce = decimal nonce'"
    using decimal_digits by (simp add: list_all_iff takeWhile_append2 dropWhile_append2)
  then show ?thesis using decimal_inj by blast
qed

section \<open>What a writer relies on and guarantees\<close>

definition published_images :: "'i writers \<Rightarrow> bytes option set" where
  "published_images w = {c. \<exists>i img. writer_image w i = Inr img \<and> c = Some img}"

definition writer_rely :: "'i writers \<Rightarrow> 'i \<Rightarrow> fs \<Rightarrow> fs \<Rightarrow> bool" where
  "writer_rely w i a b \<longleftrightarrow>
     fs_cursor b = fs_cursor a \<and> fs_files b (writer_temp w i) = fs_files a (writer_temp w i) \<and>
     (fs_files a (ww_path w) \<in> published_images w \<longrightarrow> fs_files b (ww_path w) \<in> published_images w)"

definition writer_guar :: "'i writers \<Rightarrow> 'i \<Rightarrow> fs \<Rightarrow> fs \<Rightarrow> bool" where
  "writer_guar w i a b \<longleftrightarrow>
     (\<forall>q. q \<noteq> ww_path w \<longrightarrow> q \<noteq> writer_temp w i \<longrightarrow> fs_files b q = fs_files a q) \<and>
     (fs_files b (ww_path w) = fs_files a (ww_path w) \<or>
      (\<exists>img. writer_image w i = Inr img \<and> fs_files b (ww_path w) = Some img))"

lemma writer_temp_neq: "writer_temp w i \<noteq> ww_path w"
  by (simp add: writer_temp_def temporary_path_neq)

lemma writer_temp_inj: "distinct_writers w \<Longrightarrow> i \<noteq> j \<Longrightarrow> writer_temp w i \<noteq> writer_temp w j"
  by (auto simp: writer_temp_def distinct_writers_def dest: temporary_path_inj)

interpretation writers: interference distinct_writers writer_rely writer_guar
proof
  fix w :: "'i writers" and i j a b n
  assume "distinct_writers w" "i \<noteq> j" "writer_guar w j a b"
  then show "writer_rely w i (a\<lparr>fs_cursor := n\<rparr>) (b\<lparr>fs_cursor := n\<rparr>)"
    using writer_temp_inj [of w i j] writer_temp_neq [of w i]
    by (auto simp: writer_rely_def writer_guar_def published_images_def)
qed (auto simp: writer_rely_def)

text \<open>Whatever leaves all files but the temporary one alone is within the guarantee.\<close>

lemma others_kept_guar: "others_kept (writer_temp w i) fs0 fs \<Longrightarrow> writer_guar w i fs0 fs"
  using writer_temp_neq [of w i] by (auto simp: others_kept_def writer_guar_def)

lemma stable_own:
  "stable (\<lambda>fs. P (fs_files fs (writer_temp w i))) (writer_rely w i)"
  "stable (\<lambda>fs. P' (fs_files fs (writer_temp w i)) (fs_cursor fs)) (writer_rely w i)"
  by (simp_all add: stable_def writer_rely_def)

text \<open>
  A call on the temporary file, by the triples of the writer alone: what they assume of the temporary
  file no other process can spoil.
\<close>

lemma rg_own_call:
  assumes "stable P (writer_rely w i)"
    and "\<And>fs0. triple (\<lambda>fs. others_kept (writer_temp w i) fs0 fs \<and> P fs) m
      (\<lambda>x fs. others_kept (writer_temp w i) fs0 fs \<and> Q x fs) (\<lambda>_. others_kept (writer_temp w i) fs0)"
  shows "rg P (writer_rely w i) (call m) (writer_guar w i) Q (\<lambda>_ _. True)"
proof (rule rg_call [OF assms(1)])
  have refl: "others_kept (writer_temp w i) fs fs" for fs by (simp add: others_kept_def)
  show "triple P m Q (\<lambda>_ _. True)"
  proof (rule tripleI)
    fix fs sch r fs' sch'
    assume "P fs" and run: "m fs sch = (r, fs', sch')"
    then show "case r of Inl e \<Rightarrow> True | Inr x \<Rightarrow> Q x fs'"
      using tripleD [OF assms(2) [of fs] conjI run] refl by (cases r) simp_all
  qed
  show "triple (\<lambda>fs. fs = fs0) m (\<lambda>_. writer_guar w i fs0) (\<lambda>_. writer_guar w i fs0)" if "P fs0" for fs0
    by (rule triple_conseq [OF assms(2) [of fs0]]) (use refl that in \<open>auto intro: others_kept_guar\<close>)
qed

text \<open>Calls that leave even the temporary file alone.\<close>

lemma rg_quiet_call:
  assumes "stable P (writer_rely w i)" and "\<And>fs0. triple (\<lambda>fs. fs = fs0) m (\<lambda>_ fs. P fs0 \<longrightarrow> P fs \<and> fs_files fs = fs_files fs0)
      (\<lambda>_ fs. fs_files fs = fs_files fs0)"
  shows "rg P (writer_rely w i) (call m) (writer_guar w i) (\<lambda>_. P) (\<lambda>_ _. True)"
proof (rule rg_call [OF assms(1)])
  show "triple P m (\<lambda>_. P) (\<lambda>_ _. True)"
  proof (rule tripleI)
    fix fs sch r fs' sch'
    assume "P fs" "m fs sch = (r, fs', sch')"
    then show "case r of Inl e \<Rightarrow> True | Inr x \<Rightarrow> P fs'"
      using tripleD [OF assms(2) [of fs] refl, of sch r fs' sch'] by (cases r) auto
  qed
  show "triple (\<lambda>fs. fs = fs0) m (\<lambda>_. writer_guar w i fs0) (\<lambda>_. writer_guar w i fs0)" if "P fs0" for fs0
    by (rule triple_conseq [OF assms(2) [of fs0]]) (use that in \<open>auto simp: writer_guar_def\<close>)
qed

lemma rg_sync: "stable P (writer_rely w i) \<Longrightarrow> (\<And>fs. P fs \<Longrightarrow> P (synced q fs)) \<Longrightarrow>
    rg P (writer_rely w i) (call (sync_all q)) (writer_guar w i) (\<lambda>_. P) (\<lambda>_ _. True)"
  unfolding sync_all_def by (rule rg_quiet_call) (auto intro: triple_syscall)

lemma rg_open_read: "stable P (writer_rely w i) \<Longrightarrow>
    rg P (writer_rely w i) (call (open_read q)) (writer_guar w i) (\<lambda>_. P) (\<lambda>_ _. True)"
  unfolding open_read_def by (rule rg_quiet_call) (auto intro!: triple_syscall split: if_splits)

lemma rg_make_parent:
  "rg (\<lambda>_. True) (writer_rely w i)
     (case path_parent path of Some parent \<Rightarrow> call (create_dir_all parent) | None \<Rightarrow> Done (Inr ()))
     (writer_guar w i) (\<lambda>_ _. True) (\<lambda>_ _. True)"
proof (cases "path_parent path")
  case (Some parent)
  have "rg (\<lambda>_. True) (writer_rely w i) (call (create_dir_all parent)) (writer_guar w i) (\<lambda>_ _. True) (\<lambda>_ _. True)"
    by (rule rg_own_call) (auto simp: stable_def intro!: create_dir_all_triple)
  then show ?thesis by (simp add: Some)
qed (simp add: rg_def)

text \<open>A seek and a write on the own file, with its own position.\<close>

lemma rg_positioned_write:
  assumes "rg (\<lambda>fs. fs_files fs (writer_temp w i) = Some (write_at (unat n) ys c)) (writer_rely w i) p
    (writer_guar w i) Q (\<lambda>_ _. True)"
  shows "rg (\<lambda>fs. fs_files fs (writer_temp w i) = Some c) (writer_rely w i)
    (bind_prog (call (seek_start n)) (\<lambda>_. bind_prog (call (write_all (writer_temp w i) ys)) (\<lambda>_. p)))
    (writer_guar w i) Q (\<lambda>_ _. True)"
proof (rule rg_bind)
  show "rg (\<lambda>fs. fs_files fs (writer_temp w i) = Some c) (writer_rely w i) (call (seek_start n)) (writer_guar w i)
      (\<lambda>_ fs. fs_files fs (writer_temp w i) = Some c \<and> fs_cursor fs = unat n) (\<lambda>_ _. True)"
    by (rule rg_own_call [OF stable_own(1) seek_triple])
  have "rg (\<lambda>fs. fs_files fs (writer_temp w i) = Some c \<and> fs_cursor fs = unat n) (writer_rely w i)
      (call (write_all (writer_temp w i) ys)) (writer_guar w i)
      (\<lambda>_ fs. fs_files fs (writer_temp w i) = Some (write_at (unat n) ys c)) (\<lambda>_ _. True)"
    by (rule rg_own_call [OF stable_own(2) write_all_triple])
  from rg_bind [OF this assms]
  show "rg (\<lambda>fs. fs_files fs (writer_temp w i) = Some c \<and> fs_cursor fs = unat n) (writer_rely w i)
      (bind_prog (call (write_all (writer_temp w i) ys)) (\<lambda>_. p)) (writer_guar w i) Q (\<lambda>_ _. True)" .
qed

lemma rg_write_rows:
  "rg (\<lambda>fs. fs_files fs (writer_temp w i) = Some c) (writer_rely w i)
     (write_rows_prog (writer_temp w i) src plan doff pls row) (writer_guar w i)
     (\<lambda>_ fs. \<exists>c'. fill_rows src plan doff pls row c = Inr c' \<and> fs_files fs (writer_temp w i) = Some c')
     (\<lambda>_ _. True)"
proof (induction pls arbitrary: row c)
  case (Cons pl pls)
  let ?own = "\<lambda>fs. fs_files fs (writer_temp w i) = Some c"
  have given: "rg ?own (writer_rely w i) (pure r) (writer_guar w i) (\<lambda>x fs. r = Inr x \<and> ?own fs) (\<lambda>_ _. True)"
    for r :: "ple_pack_io_error + 'x"
    by (rule rg_pure) auto
  show ?case
    unfolding write_rows_prog.simps
    apply (rule rg_bind [OF given], rule rg_guard)
    apply (rule rg_bind [OF given], rule rg_guard)
    apply (rule rg_bind [OF given], rule rg_guard)
    apply (rule rg_positioned_write)
    apply (rule rg_conseq [OF Cons.IH])
      apply (auto simp: result_simps)
    done
qed (auto intro: rg_done)

lemma rg_fill:
  "rg (\<lambda>fs. fs_files fs (writer_temp w i) = Some []) (writer_rely w i)
     (fill_sidecar_prog (writer_temp w i) src plan parts) (writer_guar w i)
     (\<lambda>_ fs. \<exists>c. parts_image src plan parts = Inr c \<and> fs_files fs (writer_temp w i) = Some c) (\<lambda>_ _. True)"
  unfolding fill_sidecar_prog_def
  apply (rule rg_bind [OF rg_own_call [OF stable_own(1) set_len_triple]])
  apply (rule rg_positioned_write, rule rg_positioned_write)
  apply (rule rg_conseq [OF rg_write_rows])
    apply (simp_all add: parts_image_def DISK_HEADER_BYTES_def)
  done

text \<open>After the rename the destination is an image, and stays one: the others publish images too.\<close>

definition writer_done :: "'i writers \<Rightarrow> 'i \<Rightarrow> fs \<Rightarrow> bool" where
  "writer_done w i fs \<longleftrightarrow>
     fs_files fs (writer_temp w i) = None \<and> fs_files fs (ww_path w) \<in> published_images w"

lemma stable_done: "stable (writer_done w i) (writer_rely w i)"
  by (simp add: stable_def writer_done_def writer_rely_def)

lemma rg_rename:
  "rg (\<lambda>fs. \<exists>c. writer_image w i = Inr c \<and> fs_files fs (writer_temp w i) = Some c) (writer_rely w i)
     (call (rename_file (writer_temp w i) (ww_path w))) (writer_guar w i) (\<lambda>_. writer_done w i) (\<lambda>_ _. True)"
proof (rule rg_call)
  show "stable (\<lambda>fs. \<exists>c. writer_image w i = Inr c \<and> fs_files fs (writer_temp w i) = Some c) (writer_rely w i)"
    by (rule stable_own(1))
  show "triple (\<lambda>fs. \<exists>c. writer_image w i = Inr c \<and> fs_files fs (writer_temp w i) = Some c)
      (rename_file (writer_temp w i) (ww_path w)) (\<lambda>_. writer_done w i) (\<lambda>_ _. True)"
    unfolding rename_file_def using writer_temp_neq [of w i]
    by (intro triple_syscall) (auto simp: writer_done_def published_images_def split: if_splits)
  fix fs0 :: fs
  assume "\<exists>c. writer_image w i = Inr c \<and> fs_files fs0 (writer_temp w i) = Some c"
  then show "triple (\<lambda>fs. fs = fs0) (rename_file (writer_temp w i) (ww_path w))
      (\<lambda>_. writer_guar w i fs0) (\<lambda>_. writer_guar w i fs0)"
    unfolding rename_file_def
    by (intro triple_syscall) (auto simp: writer_guar_def all_or_nothing_def split: if_splits)
qed

lemma rg_publish:
  assumes "parts_image src plan parts = writer_image w i"
  shows "rg (\<lambda>_. True) (writer_rely w i)
    (publish_sidecar_prog (ww_path w) (writer_temp w i) src plan parts) (writer_guar w i)
    (\<lambda>_. writer_done w i) (\<lambda>_ _. True)"
proof -
  let ?full = "\<lambda>fs. \<exists>c. writer_image w i = Inr c \<and> fs_files fs (writer_temp w i) = Some c"
  have new: "rg (\<lambda>_. True) (writer_rely w i) (call (open_create_new (writer_temp w i))) (writer_guar w i)
      (\<lambda>_ fs. fs_files fs (writer_temp w i) = Some []) (\<lambda>_ _. True)"
    by (rule rg_own_call) (use open_create_new_triple in \<open>auto simp: stable_def\<close>)
  have sync: "rg ?full (writer_rely w i) (call (sync_all (writer_temp w i))) (writer_guar w i) (\<lambda>_. ?full) (\<lambda>_ _. True)"
    by (rule rg_sync [OF stable_own(1)]) simp
  have parent: "rg (writer_done w i) (writer_rely w i) (sync_parent_prog (ww_path w)) (writer_guar w i)
      (\<lambda>_. writer_done w i) (\<lambda>_ _. True)"
    unfolding sync_parent_prog_def Let_def
    by (rule rg_bind [OF rg_open_read [OF stable_done] rg_sync [OF stable_done]]) (simp add: writer_done_def)
  show ?thesis
    unfolding publish_sidecar_prog_def
    by (rule rg_bind [OF rg_make_parent], rule rg_bind [OF new],
        rule rg_bind [OF rg_fill [of w i src plan parts, unfolded assms]], rule rg_bind [OF sync],
        rule rg_bind [OF rg_rename], rule rg_bind [OF parent], rule rg_done)
qed

lemma obeys_clean_up:
  assumes "\<And>fs. triple (\<lambda>fs'. fs' = fs) (remove_file temp) (\<lambda>_. G fs) (\<lambda>_. G fs)"
  shows "obeys R G (\<lambda>r. case r of Inl e \<Rightarrow> \<lambda>_. True | Inr x \<Rightarrow> Q x) p fs \<Longrightarrow>
    obeys R G (\<lambda>r. case r of Inl e \<Rightarrow> \<lambda>_. True | Inr x \<Rightarrow> Q x) (clean_up temp p) fs"
proof (induction p arbitrary: fs)
  case (Done r)
  have "G fs0 fs'" if "remove_file temp fs0 sch = (r', fs', sch')" for fs0 sch r' fs' sch'
    using tripleD [OF assms [of fs0] refl that] by (simp split: sum.splits)
  then show ?case
    using Done by (auto intro!: obeys_CallI split: sum.splits io_stop.splits)
next
  case (Call m k)
  then show ?case by (fastforce intro: obeys_CallI dest: obeys_CallD)
qed

lemma rg_writer:
  "rg (\<lambda>_. True) (writer_rely w i) (sys_prog (writers_started w fs) i) (writer_guar w i)
     (\<lambda>_. writer_done w i) (\<lambda>_ _. True)"
proof -
  have remove: "triple (\<lambda>fs'. fs' = fs) (remove_file (writer_temp w i)) (\<lambda>_. writer_guar w i fs)
      (\<lambda>_. writer_guar w i fs)" for fs
    by (rule triple_conseq [OF remove_file_frame [where K = "others_kept (writer_temp w i) fs"]])
       (auto simp: frames_def others_kept_def intro: others_kept_guar [unfolded others_kept_def])
  have "rg (\<lambda>_. True) (writer_rely w i)
      (clean_up (writer_temp w i) (publish_sidecar_prog (ww_path w) (writer_temp w i) src plan parts))
      (writer_guar w i) (\<lambda>_. writer_done w i) (\<lambda>_ _. True)"
    if "parts_image src plan parts = writer_image w i" for src plan parts
    using rg_publish [OF that] unfolding rg_def by (intro allI impI obeys_clean_up [OF remove]) blast
  then show ?thesis
    unfolding writers_started_def write_overlay_prog_def Let_def system.select_convs writer_temp_def [symmetric]
    by (intro rg_bind [OF rg_pure [where Q = "\<lambda>parts _.
          parts_image (ww_source w i) (ww_plan w i) parts = writer_image w i"]])
       (auto simp: writer_image_def sidecar_image_def rg_def)
qed

section \<open>Properties\<close>

text \<open>
  C7. Concurrent writers never damage a sidecar. However many processes publish to one destination at
  the same time, under different process ids or clock readings, and however their calls interleave,
  fail or are cut off: at every moment the destination holds its old content or the complete image of
  one of the writers, and no file but the destination and the temporary files is touched. Once some
  writer has returned its report, its temporary file is gone and the destination holds an image.
\<close>

theorem concurrent_writers_atomic:
  assumes "\<And>i j. i \<noteq> j \<Longrightarrow> (ww_pid w i, ww_nonce w i) \<noteq> (ww_pid w j, ww_nonce w j)"
    and "system_steps (writers_started w fs) s"
  shows "(fs_files (sys_fs s) (ww_path w) = fs_files fs (ww_path w) \<or>
      (\<exists>i img. writer_image w i = Inr img \<and> fs_files (sys_fs s) (ww_path w) = Some img)) \<and>
    (\<forall>q. q \<noteq> ww_path w \<longrightarrow> (\<forall>i. q \<noteq> writer_temp w i) \<longrightarrow> fs_files (sys_fs s) q = fs_files fs q) \<and>
    (\<forall>i report. sys_prog s i = Done (Inr report) \<longrightarrow> fs_files (sys_fs s) (writer_temp w i) = None \<and>
      (\<exists>j img. writer_image w j = Inr img \<and> fs_files (sys_fs s) (ww_path w) = Some img))"
proof -
  let ?Q = "\<lambda>i r. case r of Inl e \<Rightarrow> \<lambda>_. True | Inr report \<Rightarrow> writer_done w i"
  let ?I = "\<lambda>fs'. (fs_files fs' (ww_path w) = fs_files fs (ww_path w) \<or> fs_files fs' (ww_path w) \<in> published_images w) \<and>
    (\<forall>q. q \<noteq> ww_path w \<longrightarrow> (\<forall>i. q \<noteq> writer_temp w i) \<longrightarrow> fs_files fs' q = fs_files fs q)"
  have valid: "distinct_writers w" using assms(1) by (simp add: distinct_writers_def)
  have "writers.consistent w ?Q (writers_started w fs)"
    unfolding writers.consistent_def using rg_writer writers.rely_refl by (fastforce simp: rg_def)
  moreover have "?I a \<Longrightarrow> ?I b" if "writer_guar w i a b" for i a b
    using that by (auto simp: writer_guar_def published_images_def)
  moreover have "?I (sys_fs (writers_started w fs))" by (simp add: writers_started_def)
  ultimately have final: "writers.consistent w ?Q s \<and> ?I (sys_fs s)"
    by (intro writers.consistent_steps [OF assms(2) valid]) simp_all
  have "writer_done w i (view s i)" if "sys_prog s i = Done (Inr report)" for i report
    using writers.consistent_done [OF conjunct1 [OF final] that] by (simp add: stable_done)
  then show ?thesis
    using final by (auto simp: writer_done_def view_def published_images_def)
qed

definition test_writers :: "bool writers" where
  "test_writers = \<lparr>ww_digest = test_sha256, ww_path = test_path, ww_pid = (\<lambda>i. if i then 7 else 8),
     ww_nonce = (\<lambda>_. 9), ww_source = (\<lambda>_. raw_as_source test_source), ww_plan = (\<lambda>_. test_overlay_plan)\<rparr>"

lemma test_writers_sel [simp]:
  "ww_digest test_writers = test_sha256" "ww_path test_writers = test_path"
  "ww_pid test_writers i = (if i then 7 else 8)" "ww_nonce test_writers i = 9"
  "ww_source test_writers i = raw_as_source test_source" "ww_plan test_writers i = test_overlay_plan"
  by (simp_all add: test_writers_def)

lemma started_sel [simp]:
  "sys_fs (writers_started w fs) = fs"
  "sys_prog (writers_started w fs) i = write_overlay_prog (ww_digest w) (ww_path w) (ww_pid w i) (ww_nonce w i)
     (ww_source w i) (ww_plan w i)"
  by (simp_all add: writers_started_def)

theorem concurrent_writers_atomic_witness:
  "\<exists>s report i img. system_steps (writers_started test_writers empty_fs) s \<and>
     sys_prog s True = Done (Inr report) \<and> writer_image test_writers i = Inr img \<and>
     fs_files (sys_fs s) test_path = Some img \<and> fs_files (sys_fs s) [Normal [97]] = None"
proof -
  let ?s = "writers_started test_writers empty_fs"
  obtain fs' report where "write_overlay test_sha256 test_path 7 9 (raw_as_source test_source)
      test_overlay_plan empty_fs [] = (Inr report, fs', [])"
    by (rule test_overlay_runs [OF test_publishable])
  then have "run_prog (sys_prog ?s True) (view ?s True) [] = (Inr report, fs', [])"
    by (simp add: run_write_overlay view_def writers_started_def empty_fs_def)
  from run_is_steps [OF refl this] obtain s where
    s: "system_steps ?s s" "sys_prog s True = Done (Inr report)" by auto
  have names: "(ww_pid test_writers i, ww_nonce test_writers i) \<noteq> (ww_pid test_writers j, ww_nonce test_writers j)"
    if "i \<noteq> j" for i j
    using that by simp
  note atomic = concurrent_writers_atomic [OF names s(1), unfolded test_writers_sel]
  have "[Normal [97]] \<noteq> test_path" "[Normal [97]] \<noteq> writer_temp test_writers i" for i
    by (simp_all add: test_path_def writer_temp_def temporary_path_def with_file_name_def Let_def)
  then have "fs_files (sys_fs s) [Normal [97]] = None" using atomic by (simp add: empty_fs_def)
  moreover obtain j img where "writer_image test_writers j = Inr img" "fs_files (sys_fs s) test_path = Some img"
    using atomic s(2) by blast
  ultimately show ?thesis using s by blast
qed

text \<open>
  When the temporary file is there already, the writer fails to create it, and then removes it.
\<close>

lemma write_overlay_name_taken:
  assumes "prepare_sidecar sha256 src plan = Inr parts"
    and "fs_files fs (temporary_path path pid nonce) = Some c"
    and "list_all (\<lambda>q. fs_files fs q = None) (path_prefixes (butlast path))"
  shows "\<exists>fs'. write_overlay sha256 path pid nonce src plan fs [] = (Inl (Failed (Io ''File exists'')), fs', []) \<and>
    fs_files fs' = (fs_files fs)(temporary_path path pid nonce := None)"
proof -
  let ?temp = "temporary_path path pid nonce"
  have "\<exists>fs1. (case path_parent path of Some parent \<Rightarrow> create_dir_all parent | None \<Rightarrow> returnIO ()) fs []
      = (Inr (), fs1, []) \<and> fs_files fs1 = fs_files fs"
    using assms(3) by (auto simp: create_dir_all_def returnIO_def syscall_def path_parent_def
        list_all_iff list_ex_iff split: option.split)
  then obtain fs1 where made: "(case path_parent path of Some parent \<Rightarrow> create_dir_all parent | None \<Rightarrow> returnIO ()) fs []
      = (Inr (), fs1, [])" "fs_files fs1 = fs_files fs" by blast
  have "open_create_new ?temp fs1 [] = (Inl (Failed (Io ''File exists'')), fs1, [])"
    using assms(2) made(2) by (simp add: open_create_new_def syscall_def)
  then have "publish_sidecar path ?temp src plan parts fs [] = (Inl (Failed (Io ''File exists'')), fs1, [])"
    unfolding publish_sidecar_def by (simp add: bindIO_def made(1))
  then show ?thesis
    using assms(1,2) made(2)
    by (simp add: write_overlay_def bindIO_def liftIO_def Let_def remove_file_def syscall_def)
qed

text \<open>
  C30. What goes wrong when two writers have the same name for their temporary file (two threads of one
  process in one clock reading): if one has created the file when the other starts, then the other,
  run to its end without any failure of a call, reports that the file exists and has removed the file
  of the first, which is still being written.
\<close>

theorem same_name_removes_temporary:
  assumes "writer_temp w j = writer_temp w i" and "fs_files (sys_fs s) (writer_temp w i) = Some c"
    and "sys_prog s j = sys_prog (writers_started w fs) j"
    and "prepare_sidecar (ww_digest w) (ww_source w j) (ww_plan w j) = Inr parts"
    and "list_all (\<lambda>q. fs_files (sys_fs s) q = None) (path_prefixes (butlast (ww_path w)))"
  shows "\<exists>s'. system_steps s s' \<and>
    sys_prog s' = (sys_prog s)(j := Done (Inl (Failed (Io ''File exists'')))) \<and>
    fs_files (sys_fs s') = (fs_files (sys_fs s))(writer_temp w i := None)"
proof -
  have "fs_files (view s j) = fs_files (sys_fs s)" by (simp add: view_def)
  with write_overlay_name_taken [OF assms(4), of "view s j" "ww_path w" "ww_pid w j" "ww_nonce w j" c]
  obtain fs' where run: "run_prog (sys_prog s j) (view s j) []
      = (Inl (Failed (Io ''File exists'')), fs', [])"
    and files: "fs_files fs' = (fs_files (sys_fs s))(writer_temp w i := None)"
    using assms(1,2,5) by (auto simp: assms(3) run_write_overlay writer_temp_def [symmetric])
  from run_is_steps [OF refl run] obtain s' where
    s': "system_steps s s'" "sys_prog s' = (sys_prog s)(j := Done (Inl (Failed (Io ''File exists''))))"
    "view s' j = fs'" by blast
  then have "fs_files (sys_fs s') = fs_files fs'" by (auto simp: view_def)
  then show ?thesis using s'(1,2) files by auto
qed

definition test_twins :: "bool writers" where
  "test_twins = test_writers\<lparr>ww_pid := (\<lambda>_. 7)\<rparr>"

text \<open>The first twin has just created its file.\<close>

definition test_twins_created :: "(bool, write_report) system" where
  "test_twins_created = (writers_started test_twins empty_fs)
     \<lparr>sys_fs := put_file (writer_temp test_twins True) [] empty_fs\<rparr>"

theorem same_name_removes_temporary_witness:
  "\<exists>s'. system_steps test_twins_created s' \<and>
     sys_prog s' False = Done (Inl (Failed (Io ''File exists''))) \<and>
     fs_files (sys_fs s') (writer_temp test_twins True) = None"
proof -
  obtain parts where parts: "prepare_sidecar test_sha256 (raw_as_source test_source) test_overlay_plan = Inr parts"
    using prepare_sidecar_eq [of _ _ test_sha256, OF planned_matches [OF test_source_wf test_overlay_planned]
        length_test_sha256]
    by (simp add: test_overlay_size)
  have temp: "writer_temp test_twins False = writer_temp test_twins True"
    by (simp add: writer_temp_def test_twins_def)
  have away: "temporary_path test_path 7 9 \<notin> set (path_prefixes (butlast test_path))"
  proof
    assume "temporary_path test_path 7 9 \<in> set (path_prefixes (butlast test_path))"
    then have "length (temporary_path test_path 7 9) < length test_path"
      by (auto simp: path_prefixes_def test_path_def dest!: arg_cong [where f = length])
    then show False using length_temporary_path_le [of test_path 7 9] by simp
  qed
  have "list_all (\<lambda>q. fs_files (sys_fs test_twins_created) q = None) (path_prefixes (butlast (ww_path test_twins)))"
    using away by (auto simp: list_all_iff test_twins_created_def test_twins_def empty_fs_def writer_temp_def)
  from same_name_removes_temporary [OF temp _ _ _ this, of "[]" empty_fs parts] parts show ?thesis
    by (auto simp: test_twins_created_def test_twins_def)
qed

end
