(* ===== verification/Platform.thy ===== *)
theory Platform
  imports Prelude
begin

text \<open>
  The platform facts (\<open>crates/gb10x-core/src/platform.rs\<close>) shared by the runtime, and Rust's text:
  a \<open>String\<close> is the list of its Unicode scalar values, \<open>trim\<close> removes the characters with the
  property \<open>White_Space\<close> at both ends.
\<close>

section \<open>Text\<close>

type_synonym unicode = "u32 list"

definition ascii :: "string \<Rightarrow> unicode" where
  "ascii s = map of_char s"

definition is_whitespace :: "u32 \<Rightarrow> bool" where
  "is_whitespace c \<longleftrightarrow>
     9 \<le> c \<and> c \<le> 13 \<or> c = 32 \<or> c = 133 \<or> c = 160 \<or> c = 5760 \<or> 8192 \<le> c \<and> c \<le> 8202 \<or>
     c = 8232 \<or> c = 8233 \<or> c = 8239 \<or> c = 8287 \<or> c = 12288"

definition trim_start :: "unicode \<Rightarrow> unicode" where
  "trim_start s = dropWhile is_whitespace s"

definition trim_end :: "unicode \<Rightarrow> unicode" where
  "trim_end s = rev (dropWhile is_whitespace (rev s))"

definition trim :: "unicode \<Rightarrow> unicode" where
  "trim s = trim_end (trim_start s)"

lemma trim_Nil [simp]: "trim [] = []"
  by (simp add: trim_def trim_start_def trim_end_def)

lemma trim_empty_iff: "trim s = [] \<longleftrightarrow> list_all is_whitespace s"
proof -
  have "trim s = [] \<longleftrightarrow> (\<forall>c \<in> set (dropWhile is_whitespace s). is_whitespace c)"
    by (simp add: trim_def trim_end_def trim_start_def dropWhile_eq_Nil_conv)
  also have "\<dots> \<longleftrightarrow> list_all is_whitespace s"
    by (induction s) auto
  finally show ?thesis .
qed

section \<open>Caches and snapshots\<close>

datatype cache_type = Instruction | Data | Unified

record cpu_cache =
  cc_level :: u8
  cc_type :: cache_type
  cc_size_bytes :: u64
  cc_line_bytes :: u32
  cc_shared_cpu_ids :: "u32 list"

record gpu_snapshot =
  gpu_name :: unicode
  gpu_compute_major :: u32
  gpu_compute_minor :: u32
  gpu_l2_bytes :: u64
  gpu_persisting_l2_max_bytes :: u64
  gpu_total_memory_bytes :: u64

record platform_snapshot =
  ps_arch :: unicode
  ps_kernel_release :: unicode
  ps_cpu_model :: unicode
  ps_online_cpus :: "u32 list"
  ps_caches :: "cpu_cache list"
  ps_gpu :: gpu_snapshot
  ps_mem_total_bytes :: u64
  ps_page_size_bytes :: u64

end
