(* ===== verification/RustText.thy ===== *)
theory RustText
  imports Platform Bytes "HOL-Library.Sublist"
begin

text \<open>
  The operations of Rust's \<open>str\<close> that the platform gate and the host probe use, on lists of
  Unicode scalar values: upper-casing and searching, splitting at a separator, at line ends and at
  white space, and parsing unsigned integers. Printing an unsigned integer is their inverse.
\<close>

section \<open>Searching\<close>

definition ascii_uppercase :: "u32 \<Rightarrow> u32" where
  "ascii_uppercase c = (if 97 \<le> c \<and> c \<le> 122 then c - 32 else c)"

definition to_ascii_uppercase :: "unicode \<Rightarrow> unicode" where
  "to_ascii_uppercase = map ascii_uppercase"

fun str_contains :: "unicode \<Rightarrow> unicode \<Rightarrow> bool" where
  "str_contains [] needle \<longleftrightarrow> needle = []"
| "str_contains (c # cs) needle \<longleftrightarrow> prefix needle (c # cs) \<or> str_contains cs needle"

definition strip_prefix :: "'a list \<Rightarrow> 'a list \<Rightarrow> 'a list option" where
  "strip_prefix p s = (if prefix p s then Some (drop (length p) s) else None)"

section \<open>Splitting\<close>

text \<open>\<open>s.split(c)\<close> for a separator given as a predicate: always at least one piece.\<close>

fun split_at :: "(u32 \<Rightarrow> bool) \<Rightarrow> unicode \<Rightarrow> unicode list" where
  "split_at sep [] = [[]]"
| "split_at sep (c # cs) =
     (if sep c then [] # split_at sep cs
      else case split_at sep cs of
        [] \<Rightarrow> [[c]]
      | piece # pieces \<Rightarrow> (c # piece) # pieces)"

definition split_once :: "u32 \<Rightarrow> unicode \<Rightarrow> (unicode \<times> unicode) option" where
  "split_once c s =
     (case dropWhile (\<lambda>d. d \<noteq> c) s of
        [] \<Rightarrow> None
      | _ # rest \<Rightarrow> Some (takeWhile (\<lambda>d. d \<noteq> c) s, rest))"

definition split_whitespace :: "unicode \<Rightarrow> unicode list" where
  "split_whitespace s = filter (\<lambda>piece. piece \<noteq> []) (split_at is_whitespace s)"

text \<open>
  \<open>s.lines()\<close>: the pieces between line feeds, each without a final carriage return; the piece
  after the last line feed is a line when it is not empty, and keeps its carriage return.
\<close>

definition strip_cr :: "unicode \<Rightarrow> unicode" where
  "strip_cr s = (if s \<noteq> [] \<and> last s = 13 then butlast s else s)"

definition str_lines :: "unicode \<Rightarrow> unicode list" where
  "str_lines s =
     (let pieces = split_at (\<lambda>c. c = 10) s; rest = last pieces
      in map strip_cr (butlast pieces) @ (if rest = [] then [] else [rest]))"

section \<open>Unsigned integers\<close>

definition is_digit :: "u32 \<Rightarrow> bool" where
  "is_digit c \<longleftrightarrow> 48 \<le> c \<and> c \<le> 57"

definition digits_value :: "unicode \<Rightarrow> nat" where
  "digits_value s = foldl (\<lambda>v c. 10 * v + (unat c - 48)) 0 s"

text \<open>\<open>s.parse::<T>()\<close>: one leading plus sign is allowed, and the value must fit the type.\<close>

definition parse_unsigned :: "unicode \<Rightarrow> 'a::len word option" where
  "parse_unsigned s =
     (let digits = (if s \<noteq> [] \<and> hd s = 43 then tl s else s)
      in if digits \<noteq> [] \<and> list_all is_digit digits \<and> digits_value digits < 2 ^ LENGTH('a)
         then Some (word_of_nat (digits_value digits)) else None)"

fun to_digits :: "nat \<Rightarrow> unicode" where
  "to_digits n = (if n < 10 then [] else to_digits (n div 10)) @ [word_of_nat (48 + n mod 10)]"

declare to_digits.simps [simp del]

lemma to_digits_nonempty [simp]: "to_digits n \<noteq> []"
  by (subst to_digits.simps) simp

lemma is_digit_of_nat: "d < 10 \<Longrightarrow> is_digit (word_of_nat (48 + d))"
  and unat_digit: "d < 10 \<Longrightarrow> unat (word_of_nat (48 + d) :: u32) = 48 + d"
proof -
  assume "d < 10"
  then show u: "unat (word_of_nat (48 + d) :: u32) = 48 + d"
    by (intro unat_of_nat_u32) simp
  then show "is_digit (word_of_nat (48 + d))"
    using \<open>d < 10\<close> by (simp add: is_digit_def word_le_nat_alt del: of_nat_add)
qed

lemma to_digits_all: "list_all is_digit (to_digits n)"
proof (induction n rule: to_digits.induct)
  case (1 n)
  then show ?case
    using is_digit_of_nat [of "n mod 10"] by (subst to_digits.simps) (simp del: of_nat_add)
qed

lemma digits_value_to_digits [simp]: "digits_value (to_digits n) = n"
proof (induction n rule: to_digits.induct)
  case (1 n)
  then show ?case
    using unat_digit [of "n mod 10"]
    by (subst to_digits.simps) (auto simp: digits_value_def simp del: of_nat_add)
qed

lemma not_digit [simp]: "\<not> is_digit 43" "\<not> is_digit 44" "\<not> is_digit 45"
  by (simp_all add: is_digit_def)

lemma parse_unsigned_digits:
  "parse_unsigned (to_digits n) = (if n < 2 ^ LENGTH('a) then Some (word_of_nat n :: 'a::len word) else None)"
proof -
  have "is_digit (hd (to_digits n))"
    using to_digits_all [of n] to_digits_nonempty [of n] by (cases "to_digits n") auto
  then have "hd (to_digits n) \<noteq> 43" by auto
  then show ?thesis
    using to_digits_all [of n] by (simp add: parse_unsigned_def)
qed

section \<open>Text that is free of separators\<close>

lemma split_at_nonempty [simp]: "split_at sep s \<noteq> []"
  by (induction s) (auto split: list.splits)

lemma split_at_none: "list_all (\<lambda>c. \<not> sep c) s \<Longrightarrow> split_at sep s = [s]"
  by (induction s) auto

lemma split_at_append:
  "list_all (\<lambda>c. \<not> sep c) s \<Longrightarrow> sep c \<Longrightarrow> split_at sep (s @ c # rest) = s # split_at sep rest"
  by (induction s) auto

lemma split_once_append:
  "list_all (\<lambda>d. d \<noteq> c) s \<Longrightarrow> split_once c (s @ c # rest) = Some (s, rest)"
  by (simp add: split_once_def dropWhile_append takeWhile_append list_all_iff)

lemma split_once_none: "list_all (\<lambda>d. d \<noteq> c) s \<Longrightarrow> split_once c s = None"
  by (simp add: split_once_def list_all_iff dropWhile_eq_Nil_conv [THEN iffD2])

lemma dropWhile_none: "list_all (\<lambda>c. \<not> P c) s \<Longrightarrow> dropWhile P s = s"
  by (cases s) simp_all

lemma trim_id: "list_all (\<lambda>c. \<not> is_whitespace c) s \<Longrightarrow> trim s = s"
  by (simp add: trim_def trim_start_def trim_end_def dropWhile_none)

lemma digit_no_space: "is_digit c \<Longrightarrow> \<not> is_whitespace c"
  by (auto simp: is_digit_def is_whitespace_def word_le_nat_alt word_unat_eq_iff)

end
