(* ===== verification/Comparators.thy ===== *)
theory Comparators
  imports Prelude "HOL-Library.Multiset" "HOL-Library.Product_Lexorder"
begin

text \<open>
  Rust's \<open>std::cmp::Ordering\<close> and sorting by a comparator, as \<open>sort_by\<close> and \<open>sort_unstable_by\<close> of
  its slices: an insertion sort, which is stable. The locale \<open>comparator\<close> is what such a sort needs of
  the function it is given: on the values it is called with it compares ranks of a linear order. Then
  the sorted list is \<open>sort_key\<close> of the ranks; on lists whose values have different ranks stability
  does not matter, and every permutation sorts to the same list. In a \<open>total_comparator\<close> different
  values always have different ranks.
\<close>

section \<open>Orderings\<close>

datatype ordering = Less | Equal | Greater

definition cmp :: "'a::linorder \<Rightarrow> 'a \<Rightarrow> ordering" where
  "cmp a b = (if a < b then Less else if a = b then Equal else Greater)"

fun then_with :: "ordering \<Rightarrow> ordering \<Rightarrow> ordering" where
  "then_with Equal other = other"
| "then_with Less other = Less"
| "then_with Greater other = Greater"

lemma cmp_Greater_iff [simp]: "cmp a b = Greater \<longleftrightarrow> b < a"
  by (auto simp: cmp_def)

lemma then_with_cmp: "then_with (cmp a b) (cmp c d) = cmp (a, c) (b, d)"
  by (auto simp: cmp_def less_prod_def)

lemma then_with_assoc: "then_with (then_with x y) z = then_with x (then_with y z)"
  by (cases x) simp_all

lemma then_with_Greater_iff [simp]:
  "then_with x y = Greater \<longleftrightarrow> x = Greater \<or> x = Equal \<and> y = Greater"
  by (cases x) simp_all

section \<open>Sorting\<close>

fun insert_by :: "('a \<Rightarrow> 'a \<Rightarrow> ordering) \<Rightarrow> 'a \<Rightarrow> 'a list \<Rightarrow> 'a list" where
  "insert_by compare x [] = [x]"
| "insert_by compare x (y # ys) =
     (if compare x y \<noteq> Greater then x # y # ys else y # insert_by compare x ys)"

fun sort_by :: "('a \<Rightarrow> 'a \<Rightarrow> ordering) \<Rightarrow> 'a list \<Rightarrow> 'a list" where
  "sort_by compare [] = []"
| "sort_by compare (x # xs) = insert_by compare x (sort_by compare xs)"

definition not_after :: "('a \<Rightarrow> 'a \<Rightarrow> ordering) \<Rightarrow> 'a \<Rightarrow> 'a \<Rightarrow> bool" where
  "not_after compare x y \<longleftrightarrow> compare x y \<noteq> Greater"

lemma mset_sort_by [simp]: "mset (sort_by compare xs) = mset xs"
proof -
  have "mset (insert_by compare x xs) = add_mset x (mset xs)" for x xs
    by (induction xs) auto
  then show ?thesis by (induction xs) auto
qed

lemma set_sort_by [simp]: "set (sort_by compare xs) = set xs"
  by (metis mset_sort_by set_mset_mset)

locale comparator =
  fixes compare :: "'a \<Rightarrow> 'a \<Rightarrow> ordering"
    and valid :: "'a \<Rightarrow> bool"
    and rank :: "'a \<Rightarrow> 'r::linorder"
  assumes compare_ranks: "valid x \<Longrightarrow> valid y \<Longrightarrow> compare x y = cmp (rank x) (rank y)"
begin

lemma insert_by_eq:
  "valid x \<Longrightarrow> \<forall>y \<in> set ys. valid y \<Longrightarrow> insert_by compare x ys = insort_key rank x ys"
  by (induction ys) (auto simp: compare_ranks not_le not_less)

lemma sort_by_eq: "\<forall>x \<in> set xs. valid x \<Longrightarrow> sort_by compare xs = sort_key rank xs"
  by (induction xs) (simp_all add: insert_by_eq)

lemma sorted_sort_by:
  assumes "\<forall>x \<in> set xs. valid x"
  shows "sorted_wrt (not_after compare) (sort_by compare xs)"
proof -
  have "sorted_wrt (\<lambda>x y. rank x \<le> rank y) (sort_key rank xs)"
    by (metis sorted_map sorted_sort_key)
  then have "sorted_wrt (not_after compare) (sort_key rank xs)"
    by (rule sorted_wrt_mono_rel [rotated]) (use assms in \<open>simp add: not_after_def compare_ranks not_less\<close>)
  then show ?thesis using assms by (simp add: sort_by_eq)
qed

lemma sort_by_permuted:
  assumes "mset xs = mset ys" and "\<forall>x \<in> set xs. valid x" and "inj_on rank (set xs)"
  shows "sort_by compare xs = sort_by compare ys"
proof -
  have "set ys = set xs" using assms(1) by (metis set_mset_mset)
  moreover have "sort_key rank xs = sort_key rank ys"
    using assms(1,3) by (intro sort_key_inj_key_eq) simp_all
  ultimately show ?thesis using assms(2) by (simp add: sort_by_eq)
qed

end

locale total_comparator = comparator +
  assumes rank_inj: "inj rank"
begin

lemma sort_by_order_free:
  "mset xs = mset ys \<Longrightarrow> \<forall>x \<in> set xs. valid x \<Longrightarrow> sort_by compare xs = sort_by compare ys"
  by (rule sort_by_permuted) (auto intro: inj_on_subset [OF rank_inj])

end

end
