(* ===== verification/HostProbe.thy ===== *)
theory HostProbe
  imports RustText FileIo Comparators "HOL-Library.List_Lexorder" "HOL-Library.Product_Lexorder"
begin

text \<open>
  The Linux host probe (\<open>crates/gb10x-runtime/src/linux_probe.rs\<close>): the parsers of the values found
  in \<open>/sys\<close> and \<open>/proc\<close>, the walk over the cache topology, and the probe composed of them.

  What the operating system answers is the argument \<open>host_files\<close>: the text of a file, the entries
  of a directory (each may be an error of its own, as in \<open>std::fs::ReadDir\<close>) and whether a path is a
  directory. Errors carry the path itself where the code formats it.
\<close>

section \<open>Errors and facts\<close>

datatype probe_error =
    ProbeIo path string
  | InvalidValue string unicode
  | NoCaches path

record host_probe =
  pr_arch :: unicode
  pr_kernel_release :: unicode
  pr_cpu_model :: unicode
  pr_online_cpus :: "u32 list"
  pr_caches :: "cpu_cache list"
  pr_mem_total_bytes :: u64
  pr_page_size_bytes :: u64

definition into_platform_snapshot :: "host_probe \<Rightarrow> gpu_snapshot \<Rightarrow> platform_snapshot" where
  "into_platform_snapshot p gpu =
     \<lparr>ps_arch = pr_arch p, ps_kernel_release = pr_kernel_release p, ps_cpu_model = pr_cpu_model p,
      ps_online_cpus = pr_online_cpus p, ps_caches = pr_caches p, ps_gpu = gpu,
      ps_mem_total_bytes = pr_mem_total_bytes p, ps_page_size_bytes = pr_page_size_bytes p\<rparr>"

record host_files =
  hf_read_to_string :: "path \<Rightarrow> string + unicode"
  hf_read_dir :: "path \<Rightarrow> string + (string + bytes) list"
  hf_is_dir :: "path \<Rightarrow> bool"

definition read_trimmed :: "host_files \<Rightarrow> path \<Rightarrow> probe_error + unicode" where
  "read_trimmed h p =
     bindE (map_err (ProbeIo p) (hf_read_to_string h p)) (\<lambda>value.
     Inr (trim value))"

section \<open>Parsers\<close>

definition parse_u32 :: "string \<Rightarrow> unicode \<Rightarrow> probe_error + u32" where
  "parse_u32 what value = ok_or (parse_unsigned (trim value)) (InvalidValue what value)"

text \<open>\<open>start..=end\<close>\<close>

definition inclusive_range :: "u32 \<Rightarrow> u32 \<Rightarrow> u32 list" where
  "inclusive_range a b = map word_of_nat [unat a ..< Suc (unat b)]"

fun parse_segments ::
    "string \<Rightarrow> unicode \<Rightarrow> unicode list \<Rightarrow> u32 list \<Rightarrow> probe_error + u32 list" where
  "parse_segments what value [] cpus = Inr cpus"
| "parse_segments what value (piece # pieces) cpus =
     (let segment = trim piece in
      if segment = [] then Inl (InvalidValue what value)
      else case split_once 45 segment of
        Some (first, final) \<Rightarrow>
          bindE (parse_u32 what first) (\<lambda>a.
          bindE (parse_u32 what final) (\<lambda>b.
          if b < a then Inl (InvalidValue what value)
          else parse_segments what value pieces (cpus @ inclusive_range a b)))
      | None \<Rightarrow>
          bindE (parse_u32 what segment) (\<lambda>cpu.
          parse_segments what value pieces (cpus @ [cpu])))"

definition parse_cpu_list_for :: "string \<Rightarrow> unicode \<Rightarrow> probe_error + u32 list" where
  "parse_cpu_list_for what value =
     (let value = trim value in
      if value = [] then Inl (InvalidValue what value)
      else
      bindE (parse_segments what value (split_at (\<lambda>c. c = 44) value) []) (\<lambda>cpus.
      Inr (remdups_adj (sort cpus))))"

definition parse_cpu_list :: "unicode \<Rightarrow> probe_error + u32 list" where
  "parse_cpu_list value = parse_cpu_list_for ''shared_cpu_list'' value"

text \<open>The suffixes \<open>K\<close>, \<open>M\<close> and \<open>G\<close> of a size, of either case.\<close>

definition size_suffix :: "unicode \<Rightarrow> unicode \<times> u64" where
  "size_suffix value =
     (if last value \<in> {75, 107} then (butlast value, 1024)
      else if last value \<in> {77, 109} then (butlast value, 1048576)
      else if last value \<in> {71, 103} then (butlast value, 1073741824)
      else (value, 1))"

definition parse_cache_size :: "unicode \<Rightarrow> probe_error + u64" where
  "parse_cache_size value =
     (let value = trim value in
      if value = [] then Inl (InvalidValue ''cache size'' value)
      else
        (let (number, multiplier) = size_suffix value in
         bindE (ok_or (parse_unsigned number) (InvalidValue ''cache size'' value)) (\<lambda>base.
         ok_or (checked_mul base multiplier) (InvalidValue ''cache size'' value))))"

definition parse_cache_type :: "unicode \<Rightarrow> probe_error + cache_type" where
  "parse_cache_type value =
     (let value = trim value in
      if value = ascii ''Data'' then Inr Data
      else if value = ascii ''Instruction'' then Inr Instruction
      else if value = ascii ''Unified'' then Inr Unified
      else Inl (InvalidValue ''cache type'' value))"

fun cache_type_rank :: "cache_type \<Rightarrow> u8" where
  "cache_type_rank Instruction = 0"
| "cache_type_rank Data = 1"
| "cache_type_rank Unified = 2"

definition is_numbered_dir :: "path \<Rightarrow> string \<Rightarrow> bool" where
  "is_numbered_dir p pre =
     (case path_file_name p of
        None \<Rightarrow> False
      | Some name \<Rightarrow> utf8_valid name \<and>
          (case strip_prefix (map of_char pre) name of
             None \<Rightarrow> False
           | Some number \<Rightarrow> number \<noteq> [] \<and> list_all (\<lambda>b. 48 \<le> b \<and> b \<le> 57) number))"

text \<open>The value of the first line, candidate by candidate, whose key is the candidate.\<close>

definition model_on_line :: "unicode \<Rightarrow> unicode \<Rightarrow> unicode option" where
  "model_on_line candidate line =
     (case split_once 58 line of
        None \<Rightarrow> None
      | Some (key, value) \<Rightarrow>
          if trim key = candidate \<and> trim value \<noteq> [] then Some (trim value) else None)"

fun first_some :: "('a \<Rightarrow> 'b option) \<Rightarrow> 'a list \<Rightarrow> 'b option" where
  "first_some f [] = None"
| "first_some f (x # xs) = (case f x of None \<Rightarrow> first_some f xs | Some y \<Rightarrow> Some y)"

definition parse_cpu_model :: "unicode \<Rightarrow> probe_error + unicode" where
  "parse_cpu_model cpuinfo =
     ok_or
       (first_some (\<lambda>candidate. first_some (model_on_line (ascii candidate)) (str_lines cpuinfo))
          [''model name'', ''Model'', ''Processor'', ''Hardware''])
       (InvalidValue ''CPU model'' (ascii ''missing from /proc/cpuinfo''))"

definition mem_total_on_line :: "unicode \<Rightarrow> unicode \<Rightarrow> probe_error + u64" where
  "mem_total_on_line line rest =
     (case split_whitespace rest of
        [] \<Rightarrow> Inl (InvalidValue ''MemTotal'' line)
      | number # words \<Rightarrow>
          bindE (ok_or (parse_unsigned number) (InvalidValue ''MemTotal'' line)) (\<lambda>value.
          if words \<noteq> [ascii ''kB''] then Inl (InvalidValue ''MemTotal'' line)
          else ok_or (checked_mul value 1024) (InvalidValue ''MemTotal'' line)))"

fun mem_total_in_lines :: "unicode list \<Rightarrow> probe_error + u64" where
  "mem_total_in_lines [] = Inl (InvalidValue ''MemTotal'' (ascii ''missing from /proc/meminfo''))"
| "mem_total_in_lines (line # lines) =
     (case strip_prefix (ascii ''MemTotal:'') line of
        None \<Rightarrow> mem_total_in_lines lines
      | Some rest \<Rightarrow> mem_total_on_line line rest)"

definition parse_mem_total_bytes :: "unicode \<Rightarrow> probe_error + u64" where
  "parse_mem_total_bytes meminfo = mem_total_in_lines (str_lines meminfo)"

section \<open>The cache topology\<close>

definition join :: "path \<Rightarrow> string \<Rightarrow> path" where
  "join p name = p @ [Normal (map of_char name)]"

definition entry_path :: "path \<Rightarrow> bytes \<Rightarrow> path" where
  "entry_path p name = p @ [Normal name]"

definition read_cache_object :: "host_files \<Rightarrow> path \<Rightarrow> probe_error + cpu_cache" where
  "read_cache_object h index_path =
     bindE (read_trimmed h (join index_path ''level'')) (\<lambda>value.
     bindE (parse_u32 ''cache level'' value) (\<lambda>wide.
     bindE (ok_or (try_narrow wide) (InvalidValue ''cache level'' (to_digits (unat wide)))) (\<lambda>level.
     bindE (read_trimmed h (join index_path ''type'')) (\<lambda>value.
     bindE (parse_cache_type value) (\<lambda>cache_type.
     bindE (read_trimmed h (join index_path ''size'')) (\<lambda>value.
     bindE (parse_cache_size value) (\<lambda>size_bytes.
     bindE (read_trimmed h (join index_path ''coherency_line_size'')) (\<lambda>value.
     bindE (parse_u32 ''coherency_line_size'' value) (\<lambda>line_bytes.
     bindE (read_trimmed h (join index_path ''shared_cpu_list'')) (\<lambda>value.
     bindE (parse_cpu_list value) (\<lambda>shared_cpu_ids.
     Inr \<lparr>cc_level = level, cc_type = cache_type, cc_size_bytes = size_bytes,
          cc_line_bytes = line_bytes, cc_shared_cpu_ids = shared_cpu_ids\<rparr>)))))))))))"

fun read_index_entries ::
    "host_files \<Rightarrow> path \<Rightarrow> (string + bytes) list \<Rightarrow> cpu_cache list \<Rightarrow> probe_error + cpu_cache list" where
  "read_index_entries h cache_root [] caches = Inr caches"
| "read_index_entries h cache_root (index_entry # entries) caches =
     bindE (map_err (ProbeIo cache_root) index_entry) (\<lambda>name.
     let index_path = entry_path cache_root name in
     if \<not> is_numbered_dir index_path ''index'' then read_index_entries h cache_root entries caches
     else
     bindE (read_cache_object h index_path) (\<lambda>cache.
     read_index_entries h cache_root entries
       (if cache \<in> set caches then caches else caches @ [cache])))"

fun read_cpu_entries ::
    "host_files \<Rightarrow> path \<Rightarrow> (string + bytes) list \<Rightarrow> cpu_cache list \<Rightarrow> probe_error + cpu_cache list" where
  "read_cpu_entries h root [] caches = Inr caches"
| "read_cpu_entries h root (cpu_entry # entries) caches =
     bindE (map_err (ProbeIo root) cpu_entry) (\<lambda>name.
     let cpu_path = entry_path root name; cache_root = join cpu_path ''cache'' in
     if \<not> is_numbered_dir cpu_path ''cpu'' then read_cpu_entries h root entries caches
     else if \<not> hf_is_dir h cache_root then read_cpu_entries h root entries caches
     else
     bindE (map_err (ProbeIo cache_root) (hf_read_dir h cache_root)) (\<lambda>index_entries.
     bindE (read_index_entries h cache_root index_entries caches) (\<lambda>caches.
     read_cpu_entries h root entries caches)))"

instantiation cache_type :: linorder
begin

definition less_eq_cache_type :: "cache_type \<Rightarrow> cache_type \<Rightarrow> bool" where
  "less_eq_cache_type a b \<longleftrightarrow> cache_type_rank a \<le> cache_type_rank b"

definition less_cache_type :: "cache_type \<Rightarrow> cache_type \<Rightarrow> bool" where
  "less_cache_type a b \<longleftrightarrow> cache_type_rank a < cache_type_rank b"

instance
proof
  fix a b :: cache_type
  assume "a \<le> b" "b \<le> a"
  then show "a = b"
    by (cases a; cases b) (simp_all add: less_eq_cache_type_def word_le_nat_alt)
qed (auto simp: less_eq_cache_type_def less_cache_type_def)

end

text \<open>The comparator of \<open>sort_by\<close>, which is stable: level, type, shared CPUs, then size.\<close>

definition compare_caches :: "cpu_cache \<Rightarrow> cpu_cache \<Rightarrow> ordering" where
  "compare_caches left right =
     then_with (then_with (then_with
       (cmp (cc_level left) (cc_level right))
       (cmp (cache_type_rank (cc_type left)) (cache_type_rank (cc_type right))))
       (cmp (cc_shared_cpu_ids left) (cc_shared_cpu_ids right)))
       (cmp (cc_size_bytes left) (cc_size_bytes right))"

definition cache_order :: "cpu_cache \<Rightarrow> u8 \<times> cache_type \<times> u32 list \<times> u64" where
  "cache_order c = (cc_level c, cc_type c, cc_shared_cpu_ids c, cc_size_bytes c)"

lemma cmp_cache_type_rank: "cmp (cache_type_rank a) (cache_type_rank b) = cmp a b"
  by (cases a; cases b) (simp_all add: cmp_def less_cache_type_def)

interpretation cache_sort: comparator compare_caches "\<lambda>_. True" cache_order
  unfolding compare_caches_def cache_order_def then_with_assoc
  by unfold_locales (simp add: cmp_cache_type_rank then_with_cmp)

definition read_cpu_cache_tree :: "host_files \<Rightarrow> path \<Rightarrow> probe_error + cpu_cache list" where
  "read_cpu_cache_tree h root =
     bindE (map_err (ProbeIo root) (hf_read_dir h root)) (\<lambda>cpu_entries.
     bindE (read_cpu_entries h root cpu_entries []) (\<lambda>caches.
     if caches = [] then Inl (NoCaches root) else Inr (sort_by compare_caches caches)))"

section \<open>The probe\<close>

definition probe_host_from_paths ::
    "host_files \<Rightarrow> path \<Rightarrow> path \<Rightarrow> path \<Rightarrow> path \<Rightarrow> unicode \<Rightarrow> unicode \<Rightarrow> u64 \<Rightarrow>
      probe_error + host_probe" where
  "probe_host_from_paths h cpu_root online_path cpuinfo_path meminfo_path arch kernel_release page_size =
     (if trim arch = [] then Inl (InvalidValue ''architecture'' arch)
      else if trim kernel_release = [] then Inl (InvalidValue ''kernel release'' kernel_release)
      else if page_size = 0 then Inl (InvalidValue ''page size'' (to_digits (unat page_size)))
      else
      bindE (read_trimmed h online_path) (\<lambda>online.
      bindE (parse_cpu_list_for ''online CPUs'' online) (\<lambda>online_cpus.
      bindE (read_trimmed h cpuinfo_path) (\<lambda>cpuinfo.
      bindE (parse_cpu_model cpuinfo) (\<lambda>cpu_model.
      bindE (read_trimmed h meminfo_path) (\<lambda>meminfo.
      bindE (parse_mem_total_bytes meminfo) (\<lambda>mem_total_bytes.
      bindE (read_cpu_cache_tree h cpu_root) (\<lambda>caches.
      Inr \<lparr>pr_arch = arch, pr_kernel_release = kernel_release, pr_cpu_model = cpu_model,
           pr_online_cpus = online_cpus, pr_caches = caches, pr_mem_total_bytes = mem_total_bytes,
           pr_page_size_bytes = page_size\<rparr>))))))))"

text \<open>\<open>arch\<close> is \<open>std::env::consts::ARCH\<close>, \<open>raw_page_size\<close> what \<open>sysconf(_SC_PAGESIZE)\<close> returned.\<close>

definition i64_digits :: "int \<Rightarrow> unicode" where
  "i64_digits n = (if n < 0 then 45 # to_digits (nat (- n)) else to_digits (nat n))"

definition absolute :: "string list \<Rightarrow> path" where
  "absolute names = RootDir # map (\<lambda>name. Normal (map of_char name)) names"

definition probe_host :: "host_files \<Rightarrow> unicode \<Rightarrow> int \<Rightarrow> probe_error + host_probe" where
  "probe_host h arch raw_page_size =
     (if raw_page_size \<le> 0 then Inl (InvalidValue ''page size'' (i64_digits raw_page_size))
      else
      bindE (read_trimmed h (absolute [''proc'', ''sys'', ''kernel'', ''osrelease''])) (\<lambda>kernel_release.
      probe_host_from_paths h
        (absolute [''sys'', ''devices'', ''system'', ''cpu''])
        (absolute [''sys'', ''devices'', ''system'', ''cpu'', ''online''])
        (absolute [''proc'', ''cpuinfo''])
        (absolute [''proc'', ''meminfo''])
        arch kernel_release (word_of_int raw_page_size)))"

section \<open>CPU lists\<close>

text \<open>The format in which the kernel prints a list of CPU ranges, \<open>0-3,8,10-11\<close>.\<close>

definition render_range :: "u32 \<times> u32 \<Rightarrow> unicode" where
  "render_range r = (case r of (a, b) \<Rightarrow>
     if a = b then to_digits (unat a) else to_digits (unat a) @ 45 # to_digits (unat b))"

fun render_cpu_list :: "(u32 \<times> u32) list \<Rightarrow> unicode" where
  "render_cpu_list [] = []"
| "render_cpu_list [r] = render_range r"
| "render_cpu_list (r # rs) = render_range r @ 44 # render_cpu_list rs"

lemma set_inclusive_range [simp]: "set (inclusive_range a b) = {a..b}"
proof -
  have "c \<in> word_of_nat ` {unat a..unat b}" if "a \<le> c" "c \<le> b" for c
    using that by (intro image_eqI [of _ _ "unat c"]) (auto simp: word_le_nat_alt)
  moreover have "a \<le> word_of_nat n \<and> word_of_nat n \<le> b" if "unat a \<le> n" "n \<le> unat b" for n
    using that less_le_trans [OF le_less_trans [OF that(2) unat_u32_lt]]
    by (simp add: word_le_nat_alt unat_of_nat_u32)
  ultimately show ?thesis
    by (auto simp: inclusive_range_def atLeastLessThanSuc_atLeastAtMost simp del: upt_Suc)
qed

lemma inclusive_range_single [simp]: "inclusive_range a a = [a]"
  by (simp add: inclusive_range_def)

lemma inclusive_range_Nil_iff [simp]: "inclusive_range a b = [] \<longleftrightarrow> b < a"
  by (metis atLeastatMost_empty_iff not_le set_empty set_inclusive_range)

lemma punctuation_no_space [simp]:
  "\<not> is_whitespace 44" "\<not> is_whitespace 45" "is_whitespace 10"
  by (simp_all add: is_whitespace_def word_le_nat_alt)

lemma digits_free:
  assumes "\<And>c. is_digit c \<Longrightarrow> P c"
  shows "list_all P (to_digits n)"
  using to_digits_all [of n] assms by (auto simp: list_all_iff)

lemma digits_not [simp]:
  "list_all (\<lambda>c. c \<noteq> 44) (to_digits n)" "list_all (\<lambda>c. c \<noteq> 45) (to_digits n)"
  "list_all (\<lambda>c. \<not> is_whitespace c) (to_digits n)"
  by (rule digits_free; auto simp: digit_no_space)+

lemma render_range_free:
  "list_all (\<lambda>c. c \<noteq> 44) (render_range r)" "list_all (\<lambda>c. \<not> is_whitespace c) (render_range r)"
  by (simp_all add: render_range_def split: prod.split)

lemma render_range_nonempty [simp]: "render_range r \<noteq> []"
  by (simp add: render_range_def split: prod.split)

lemma render_cpu_list_no_space: "list_all (\<lambda>c. \<not> is_whitespace c) (render_cpu_list rs)"
  by (induction rs rule: render_cpu_list.induct)
     (simp_all add: render_range_free)

lemma split_rendered: "rs \<noteq> [] \<Longrightarrow> split_at (\<lambda>c. c = 44) (render_cpu_list rs) = map render_range rs"
  by (induction rs rule: render_cpu_list.induct)
     (simp_all add: split_at_none split_at_append render_range_free)

lemma parse_u32_digits [simp]: "parse_u32 what (to_digits (unat a)) = Inr a"
  by (simp add: parse_u32_def trim_id parse_unsigned_digits)

lemma parse_rendered:
  "list_all (\<lambda>(a, b). a \<le> b) rs \<Longrightarrow>
   parse_segments what v (map render_range rs) cpus
     = Inr (cpus @ concat (map (\<lambda>(a, b). inclusive_range a b) rs))"
proof (induction rs arbitrary: cpus)
  case (Cons r rs)
  obtain a b where r: "r = (a, b)" by fastforce
  show ?case
  proof (cases "a = b")
    case True
    then show ?thesis
      using Cons r by (simp add: trim_id render_range_free render_range_def split_once_none)
  next
    case False
    then have "split_once 45 (trim (render_range r)) = Some (to_digits (unat a), to_digits (unat b))"
      by (simp add: trim_id render_range_free) (simp add: render_range_def r split_once_append)
    then show ?thesis
      using Cons r False by (simp add: trim_id render_range_free Let_def not_less [symmetric])
  qed
qed simp

lemma distinct_remdups_adj: "sorted xs \<Longrightarrow> distinct (remdups_adj (xs :: 'a::linorder list))"
proof (induction xs rule: remdups_adj.induct)
  case (3 x y xs)
  then show ?case by (auto simp: order.antisym)
qed simp_all

lemma sort_dedup: "remdups_adj (sort xs) = sorted_list_of_set (set (xs :: 'a::linorder list))"
  by (rule sorted_distinct_set_unique) (simp_all add: distinct_remdups_adj)

lemma trim_newline:
  "list_all (\<lambda>c. \<not> is_whitespace c) s \<Longrightarrow> trim (s @ [10]) = s"
  by (cases s) (simp_all add: trim_def trim_start_def trim_end_def dropWhile_none)

lemma parse_cpu_list_rendered:
  assumes "rs \<noteq> []" and "list_all (\<lambda>(a, b). a \<le> b) rs"
  shows "parse_cpu_list_for what (render_cpu_list rs @ [10])
    = Inr (sorted_list_of_set (\<Union>(a, b) \<in> set rs. {a..b}))"
proof -
  have "render_cpu_list rs \<noteq> []" using assms(1) by (cases rs rule: render_cpu_list.cases) simp_all
  moreover have "set (concat (map (\<lambda>(a, b). inclusive_range a b) rs)) = (\<Union>(a, b) \<in> set rs. {a..b})"
    by (induction rs) auto
  ultimately show ?thesis
    using assms
    by (simp add: parse_cpu_list_for_def trim_newline render_cpu_list_no_space split_rendered
        parse_rendered sort_dedup del: set_concat)
qed

text \<open>
  Every CPU list the kernel prints, ranges and single CPUs separated by commas and ended by a
  line feed, in any order and with overlaps, is read as the ascending list of the CPUs it names,
  each once.
\<close>

theorem parse_cpu_list_reads_kernel_lists:
  assumes "rs \<noteq> []" and "list_all (\<lambda>(a, b). a \<le> b) rs"
  shows "parse_cpu_list_for what (render_cpu_list rs @ [10])
    = Inr (sorted_list_of_set (\<Union>(a, b) \<in> set rs. {a..b}))"
  using assms by (rule parse_cpu_list_rendered)

lemma parse_segments_Cons:
  assumes "parse_segments what v (piece # pieces) cpus = Inr cpus'"
  obtains found where "found \<noteq> []" "parse_segments what v pieces (cpus @ found) = Inr cpus'"
  using assms
  by (auto simp: Let_def result_simps split: option.splits prod.splits if_splits)
     (metis inclusive_range_Nil_iff)

lemma parse_segments_nonempty:
  "parse_segments what v pieces cpus = Inr cpus' \<Longrightarrow> pieces \<noteq> [] \<or> cpus \<noteq> [] \<Longrightarrow> cpus' \<noteq> []"
proof (induction pieces arbitrary: cpus)
  case (Cons piece pieces)
  from Cons.prems(1) obtain found where
    found: "found \<noteq> []" "parse_segments what v pieces (cpus @ found) = Inr cpus'"
    by (rule parse_segments_Cons)
  from Cons.IH [OF found(2)] found(1) show ?case by simp
qed simp

lemma parse_cpu_list_for_sound:
  assumes "parse_cpu_list_for what v = Inr cpus"
  shows "cpus \<noteq> [] \<and> sorted_wrt (<) cpus"
proof -
  obtain found where found: "parse_segments what (trim v) (split_at (\<lambda>c. c = 44) (trim v)) [] = Inr found"
    "cpus = remdups_adj (sort found)"
    using assms by (auto simp: parse_cpu_list_for_def Let_def result_simps)
  have "found \<noteq> []" using parse_segments_nonempty [OF found(1)] by simp
  then have "set cpus \<noteq> {}" using found(2) by simp
  then show ?thesis using found(2) by (simp add: sort_dedup sorted_list_of_set.strict_sorted_key_list_of_set)
qed

section \<open>The walk over the topology\<close>

text \<open>The numbered entries of a directory, and the index directories of all CPUs, in listing order.\<close>

definition numbered_entries :: "host_files \<Rightarrow> path \<Rightarrow> string \<Rightarrow> path list" where
  "numbered_entries h dir pre =
     (case hf_read_dir h dir of
        Inl _ \<Rightarrow> []
      | Inr entries \<Rightarrow>
          filter (\<lambda>p. is_numbered_dir p pre)
            (map (entry_path dir) (List.map_filter (\<lambda>e. case e of Inl _ \<Rightarrow> None | Inr name \<Rightarrow> Some name) entries)))"

definition cache_dirs :: "host_files \<Rightarrow> path \<Rightarrow> path list" where
  "cache_dirs h root =
     filter (hf_is_dir h) (map (\<lambda>cpu. join cpu ''cache'') (numbered_entries h root ''cpu''))"

definition index_paths :: "host_files \<Rightarrow> path \<Rightarrow> path list" where
  "index_paths h root = concat (map (\<lambda>dir. numbered_entries h dir ''index'') (cache_dirs h root))"

definition listing_ok :: "host_files \<Rightarrow> path \<Rightarrow> bool" where
  "listing_ok h dir \<longleftrightarrow>
     (case hf_read_dir h dir of Inl _ \<Rightarrow> False | Inr entries \<Rightarrow> list_all is_ok entries)"

text \<open>The values of the successful results of a list, and appending what is not there yet.\<close>

definition oks :: "('e + 'a) list \<Rightarrow> 'a list" where
  "oks rs = List.map_filter (\<lambda>r. case r of Inl _ \<Rightarrow> None | Inr x \<Rightarrow> Some x) rs"

lemma oks_simps [simp]: "oks [] = []" "oks (Inl e # rs) = oks rs" "oks (Inr x # rs) = x # oks rs"
  by (simp_all add: oks_def map_filter_simps)

lemma oks_append: "oks (rs @ ss) = oks rs @ oks ss"
  by (simp add: oks_def map_filter_def)

definition add_new :: "'a list \<Rightarrow> 'a list \<Rightarrow> 'a list" where
  "add_new xs ys = fold (\<lambda>y acc. if y \<in> set acc then acc else acc @ [y]) ys xs"

lemma add_new_simps [simp]:
  "add_new xs [] = xs"
  "add_new xs (y # ys) = add_new (if y \<in> set xs then xs else xs @ [y]) ys"
  by (simp_all add: add_new_def)

lemma add_new_append: "add_new xs (ys @ zs) = add_new (add_new xs ys) zs"
  by (simp add: add_new_def)

lemma set_add_new [simp]: "set (add_new xs ys) = set xs \<union> set ys"
  by (induction ys arbitrary: xs) auto

lemma distinct_add_new: "distinct xs \<Longrightarrow> distinct (add_new xs ys)"
  by (induction ys arbitrary: xs) simp_all

lemma numbered_entries_eq:
  "hf_read_dir h dir = Inr entries \<Longrightarrow>
   numbered_entries h dir pre = filter (\<lambda>p. is_numbered_dir p pre) (map (entry_path dir) (oks entries))"
  by (simp add: numbered_entries_def oks_def)

text \<open>Reading a list of objects: all must be read, and each new one is kept.\<close>

definition objects_read :: "host_files \<Rightarrow> path list \<Rightarrow> cpu_cache list \<Rightarrow> bool" where
  "objects_read h ps objs \<longleftrightarrow> map (read_cache_object h) ps = map Inr objs"

lemma objects_read_Nil [simp]: "objects_read h [] objs \<longleftrightarrow> objs = []"
  by (auto simp: objects_read_def)

lemma objects_read_Cons:
  "objects_read h (p # ps) objs \<longleftrightarrow>
     (\<exists>c rest. objs = c # rest \<and> read_cache_object h p = Inr c \<and> objects_read h ps rest)"
  by (cases objs) (auto simp: objects_read_def)

lemma objects_read_append:
  "objects_read h (ps @ qs) objs \<longleftrightarrow>
     (\<exists>os os'. objs = os @ os' \<and> objects_read h ps os \<and> objects_read h qs os')"
proof (induction ps arbitrary: objs)
  case (Cons p ps)
  then show ?case
    by (auto simp: objects_read_Cons) (metis append_Cons)+
qed simp

lemma read_index_entries_iff:
  "read_index_entries h dir entries caches = Inr caches' \<longleftrightarrow>
     list_all is_ok entries \<and>
     (\<exists>objs. objects_read h
         (filter (\<lambda>p. is_numbered_dir p ''index'') (map (entry_path dir) (oks entries))) objs \<and>
       caches' = add_new caches objs)"
proof (induction entries arbitrary: caches)
  case (Cons e entries)
  show ?case
  proof (cases e)
    case (Inr name)
    show ?thesis
    proof (cases "is_numbered_dir (entry_path dir name) ''index''")
      case True
      show ?thesis
      proof (cases "read_cache_object h (entry_path dir name)")
        case Inl
        then show ?thesis using True by (simp add: \<open>e = Inr name\<close> objects_read_Cons)
      next
        case (Inr c)
        then have step: "read_index_entries h dir (e # entries) caches
            = read_index_entries h dir entries (if c \<in> set caches then caches else caches @ [c])"
          using True by (simp add: \<open>e = Inr name\<close>)
        have objs: "(\<exists>objs. objects_read h (entry_path dir name # ps) objs \<and> caches' = add_new caches objs) \<longleftrightarrow>
            (\<exists>objs. objects_read h ps objs \<and>
              caches' = add_new (if c \<in> set caches then caches else caches @ [c]) objs)" for ps
          using Inr by (auto simp: objects_read_Cons)
        show ?thesis
          unfolding step Cons.IH using True objs
          by (simp add: \<open>e = Inr name\<close> split del: if_split)
      qed
    next
      case False
      then show ?thesis using Cons.IH by (simp add: Inr)
    qed
  qed simp
qed auto

definition cache_dirs_of :: "host_files \<Rightarrow> path list \<Rightarrow> path list" where
  "cache_dirs_of h cpus = filter (hf_is_dir h) (map (\<lambda>cpu. join cpu ''cache'') cpus)"

lemma cache_dirs_of_simps [simp]:
  "cache_dirs_of h [] = []"
  "cache_dirs_of h (cpu # cpus) =
     (if hf_is_dir h (join cpu ''cache'') then join cpu ''cache'' # cache_dirs_of h cpus
      else cache_dirs_of h cpus)"
  by (simp_all add: cache_dirs_of_def)

lemma read_cache_dir_iff:
  "bindE (map_err (ProbeIo dir) (hf_read_dir h dir)) (\<lambda>entries. read_index_entries h dir entries caches)
      = Inr caches' \<longleftrightarrow>
     listing_ok h dir \<and>
     (\<exists>objs. objects_read h (numbered_entries h dir ''index'') objs \<and> caches' = add_new caches objs)"
  by (cases "hf_read_dir h dir")
     (simp_all add: listing_ok_def numbered_entries_eq read_index_entries_iff)

lemma read_cpu_entries_iff:
  "read_cpu_entries h root entries caches = Inr caches' \<longleftrightarrow>
     list_all is_ok entries \<and>
     (let dirs = cache_dirs_of h
        (filter (\<lambda>p. is_numbered_dir p ''cpu'') (map (entry_path root) (oks entries)))
      in list_all (listing_ok h) dirs \<and>
        (\<exists>objs. objects_read h (concat (map (\<lambda>dir. numbered_entries h dir ''index'') dirs)) objs \<and>
          caches' = add_new caches objs))"
proof (induction entries arbitrary: caches)
  case (Cons e entries)
  show ?case
  proof (cases e)
    case (Inr name)
    let ?cpu = "entry_path root name" and ?dir = "join (entry_path root name) ''cache''"
    show ?thesis
    proof (cases "is_numbered_dir ?cpu ''cpu'' \<and> hf_is_dir h ?dir")
      case True
      have "read_cpu_entries h root (e # entries) caches = Inr caches' \<longleftrightarrow>
          (\<exists>caches1. bindE (map_err (ProbeIo ?dir) (hf_read_dir h ?dir))
              (\<lambda>index_entries. read_index_entries h ?dir index_entries caches) = Inr caches1 \<and>
            read_cpu_entries h root entries caches1 = Inr caches')"
        using True by (simp add: Inr Let_def bindE_Inr_iff) blast
      then show ?thesis
        using True unfolding read_cache_dir_iff Cons.IH
        by (simp add: Inr Let_def objects_read_append) (metis add_new_append)
    next
      case False
      then show ?thesis using Cons.IH by (auto simp: Inr Let_def)
    qed
  qed (simp add: Let_def)
qed auto

lemma read_cpu_cache_tree_iff:
  "read_cpu_cache_tree h root = Inr caches \<longleftrightarrow>
     listing_ok h root \<and> list_all (listing_ok h) (cache_dirs h root) \<and>
     (\<exists>objs. objects_read h (index_paths h root) objs \<and> objs \<noteq> [] \<and>
       caches = sort_key cache_order (add_new [] objs))"
proof (cases "hf_read_dir h root")
  case (Inr entries)
  have dirs: "cache_dirs_of h (filter (\<lambda>p. is_numbered_dir p ''cpu'') (map (entry_path root) (oks entries)))
      = cache_dirs h root"
    by (simp add: cache_dirs_def cache_dirs_of_def numbered_entries_eq [OF Inr])
  have "add_new [] objs = [] \<longleftrightarrow> objs = []" for objs :: "cpu_cache list"
    by (metis set_add_new set_empty Un_empty_left)
  then show ?thesis
    by (auto simp: read_cpu_cache_tree_def cache_sort.sort_by_eq Inr bindE_Inr_iff if_Inl_eq_Inr_iff read_cpu_entries_iff dirs
        Let_def index_paths_def listing_ok_def)
qed (simp add: read_cpu_cache_tree_def listing_ok_def)

lemma objects_read_exists: "(\<exists>objs. objects_read h ps objs) \<longleftrightarrow> list_all (\<lambda>p. is_ok (read_cache_object h p)) ps"
  by (induction ps) (auto simp: objects_read_Cons is_ok_iff)

lemma read_cpu_cache_tree_ok_iff:
  "is_ok (read_cpu_cache_tree h root) \<longleftrightarrow>
     listing_ok h root \<and> list_all (listing_ok h) (cache_dirs h root) \<and> index_paths h root \<noteq> [] \<and>
     list_all (\<lambda>p. is_ok (read_cache_object h p)) (index_paths h root)"
proof -
  have "objects_read h ps objs \<Longrightarrow> objs = [] \<longleftrightarrow> ps = []" for ps objs
    by (auto simp: objects_read_def)
  then show ?thesis
    unfolding is_ok_iff [of "read_cpu_cache_tree h root"] read_cpu_cache_tree_iff
      objects_read_exists [symmetric] by blast
qed

lemma read_cpu_cache_tree_sound:
  assumes "read_cpu_cache_tree h root = Inr caches"
  shows "distinct caches" and "sorted (map cache_order caches)" and "caches \<noteq> []"
    and "Inr ` set caches = read_cache_object h ` set (index_paths h root)"
proof -
  from assms obtain objs where objs: "objects_read h (index_paths h root) objs" "objs \<noteq> []"
    "caches = sort_key cache_order (add_new [] objs)"
    by (auto simp: read_cpu_cache_tree_iff)
  show "distinct caches" "sorted (map cache_order caches)"
    using objs(3) by (simp_all add: distinct_add_new)
  have set: "set caches = set objs" using objs(3) by simp
  then show "caches \<noteq> []" using objs(2) by (metis set_empty)
  have "set (map (read_cache_object h) (index_paths h root)) = set (map Inr objs)"
    using objs(1) by (simp only: objects_read_def)
  then have "Inr ` set objs = read_cache_object h ` set (index_paths h root)" by simp
  then show "Inr ` set caches = read_cache_object h ` set (index_paths h root)"
    using set by simp
qed

text \<open>
  C24. The walk over the topology succeeds exactly when every directory it lists can be listed, there
  is an index directory of some CPU and each describes a cache. The result then holds every cache
  that is described, each once however many CPUs report it, ordered by level, type, shared CPUs and
  size.
\<close>

theorem read_cpu_cache_tree_exact:
  "(is_ok (read_cpu_cache_tree h root) \<longleftrightarrow>
     listing_ok h root \<and> list_all (listing_ok h) (cache_dirs h root) \<and> index_paths h root \<noteq> [] \<and>
     list_all (\<lambda>p. is_ok (read_cache_object h p)) (index_paths h root)) \<and>
   (read_cpu_cache_tree h root = Inr caches \<longrightarrow>
     distinct caches \<and> sorted (map cache_order caches) \<and>
     Inr ` set caches = read_cache_object h ` set (index_paths h root))"
  using read_cpu_cache_tree_ok_iff read_cpu_cache_tree_sound by blast

text \<open>What every cache that was read satisfies, and every host that was probed.\<close>

lemma read_cache_object_sound:
  assumes "read_cache_object h p = Inr c"
  shows "cc_shared_cpu_ids c \<noteq> []" and "sorted_wrt (<) (cc_shared_cpu_ids c)"
proof -
  obtain v where "parse_cpu_list v = Inr (cc_shared_cpu_ids c)"
    using assms by (auto simp: read_cache_object_def bindE_Inr_iff)
  from parse_cpu_list_for_sound [OF this [unfolded parse_cpu_list_def]]
  show "cc_shared_cpu_ids c \<noteq> []" "sorted_wrt (<) (cc_shared_cpu_ids c)" by blast+
qed

lemma probe_host_from_paths_sound:
  assumes "probe_host_from_paths h root online cpuinfo meminfo arch release page_size = Inr p"
  shows "pr_arch p = arch" and "pr_online_cpus p \<noteq> []" and "sorted_wrt (<) (pr_online_cpus p)"
    and "pr_caches p \<noteq> []" and "\<forall>c \<in> set (pr_caches p). cc_shared_cpu_ids c \<noteq> []"
    and "pr_page_size_bytes p = page_size" and "page_size \<noteq> 0"
proof -
  from assms obtain v where v: "parse_cpu_list_for ''online CPUs'' v = Inr (pr_online_cpus p)"
    "read_cpu_cache_tree h root = Inr (pr_caches p)"
    "pr_arch p = arch" "pr_page_size_bytes p = page_size" "page_size \<noteq> 0"
    by (auto simp: probe_host_from_paths_def result_simps)
  then show "pr_arch p = arch" "pr_page_size_bytes p = page_size" "page_size \<noteq> 0" by blast+
  show "pr_online_cpus p \<noteq> []" "sorted_wrt (<) (pr_online_cpus p)"
    using parse_cpu_list_for_sound [OF v(1)] by blast+
  note caches = read_cpu_cache_tree_sound [OF v(2)]
  then show "pr_caches p \<noteq> []" by blast
  show "\<forall>c \<in> set (pr_caches p). cc_shared_cpu_ids c \<noteq> []"
    using caches(4) read_cache_object_sound(1) by (metis image_iff)
qed

section \<open>Total memory\<close>

lemma str_lines_Cons:
  assumes "list_all (\<lambda>c. c \<noteq> 10) line"
  shows "str_lines (line @ 10 # rest) = strip_cr line # str_lines rest"
  by (simp add: str_lines_def Let_def split_at_append [where sep = "\<lambda>c. c = 10", OF assms])

lemma strip_cr_prefix: "strip_prefix p line = None \<Longrightarrow> strip_prefix p (strip_cr line) = None"
  by (auto simp: strip_prefix_def strip_cr_def split: if_splits)
     (metis append_butlast_last_id prefix_append prefix_def)

lemma mem_total_skips:
  assumes "list_all (\<lambda>line. list_all (\<lambda>c. c \<noteq> 10) line \<and> strip_prefix (ascii ''MemTotal:'') line = None) before"
  shows "parse_mem_total_bytes (concat (map (\<lambda>line. line @ [10]) before) @ rest) = parse_mem_total_bytes rest"
  using assms
  by (induction before) (simp_all add: parse_mem_total_bytes_def str_lines_Cons strip_cr_prefix)

lemma unit_letters [simp]: "is_whitespace 32" "\<not> is_whitespace 107" "\<not> is_whitespace 66"
  by (simp_all add: is_whitespace_def word_le_nat_alt)

lemma split_whitespace_spaces:
  "split_whitespace (replicate k 32 @ s) = split_whitespace s"
  by (induction k) (simp_all add: split_whitespace_def)

lemma split_whitespace_fields:
  "split_whitespace (to_digits n @ 32 # ascii ''kB'') = [to_digits n, ascii ''kB'']"
  by (simp add: split_whitespace_def split_at_append split_at_none ascii_def)

text \<open>The line the kernel prints.\<close>

definition mem_total_line :: "nat \<Rightarrow> nat \<Rightarrow> unicode" where
  "mem_total_line k n = ascii ''MemTotal:'' @ replicate k 32 @ to_digits n @ ascii '' kB''"

lemma mem_total_line_parts:
  "list_all (\<lambda>c. c \<noteq> 10) (mem_total_line k n)" "strip_cr (mem_total_line k n) = mem_total_line k n"
proof -
  have "is_digit c \<Longrightarrow> c \<noteq> 10" for c by (auto simp: is_digit_def word_le_nat_alt)
  then have "list_all (\<lambda>c. c \<noteq> 10) (to_digits n)" by (rule digits_free)
  then show "list_all (\<lambda>c. c \<noteq> 10) (mem_total_line k n)"
    by (auto simp: mem_total_line_def ascii_def list_all_iff)
  show "strip_cr (mem_total_line k n) = mem_total_line k n"
    by (simp add: strip_cr_def mem_total_line_def ascii_def)
qed

text \<open>
  The line \<open>MemTotal: n kB\<close> of \<open>/proc/meminfo\<close>, however many spaces precede the number and
  whatever other lines stand before and after it, gives \<open>1024 n\<close> bytes when that fits 64 bits and is
  an error that quotes the line otherwise.
\<close>

theorem mem_total_reads_kernel_line:
  assumes "list_all (\<lambda>line. list_all (\<lambda>c. c \<noteq> 10) line \<and> strip_prefix (ascii ''MemTotal:'') line = None) before"
  shows "parse_mem_total_bytes (concat (map (\<lambda>line. line @ [10]) before) @ mem_total_line k n @ 10 # rest)
    = (if n * 1024 < 2 ^ 64 then Inr (word_of_nat (n * 1024))
       else Inl (InvalidValue ''MemTotal'' (mem_total_line k n)))"
proof -
  have fields: "split_whitespace (replicate k 32 @ to_digits n @ ascii '' kB'') = [to_digits n, ascii ''kB'']"
    using split_whitespace_fields [of n] by (simp add: split_whitespace_spaces ascii_def)
  have "parse_mem_total_bytes (mem_total_line k n @ 10 # rest)
      = mem_total_on_line (mem_total_line k n) (replicate k 32 @ to_digits n @ ascii '' kB'')"
    by (simp add: parse_mem_total_bytes_def str_lines_Cons mem_total_line_parts)
       (simp add: mem_total_line_def strip_prefix_def)
  also have "\<dots> = (if n * 1024 < 2 ^ 64 then Inr (word_of_nat (n * 1024))
       else Inl (InvalidValue ''MemTotal'' (mem_total_line k n)))"
    by (auto simp: mem_total_on_line_def fields parse_unsigned_digits checked_mul_def unat_of_nat_u64)
  finally show ?thesis by (simp add: mem_total_skips [OF assms])
qed

section \<open>A host\<close>

text \<open>A host with two CPUs that report the same L3, and an entry that is no CPU.\<close>

definition test_text :: "bytes \<Rightarrow> unicode" where
  "test_text name =
     (if name = map of_char ''level'' then [51, 10]
      else if name = map of_char ''type'' then ascii ''Unified''
      else if name = map of_char ''size'' then ascii ''8M''
      else if name = map of_char ''coherency_line_size'' then ascii ''64''
      else if name = map of_char ''cpuinfo'' then ascii ''Model: GB10''
      else if name = map of_char ''meminfo'' then ascii ''MemTotal: 8 kB''
      else [48, 45, 49, 10])"

definition test_host :: host_files where
  "test_host =
     \<lparr>hf_read_to_string = (\<lambda>p. case rev p of
          Normal name # _ \<Rightarrow> Inr (test_text name)
        | _ \<Rightarrow> Inl ''Is a directory''),
      hf_read_dir = (\<lambda>p.
          if length p = 1 then Inr [Inr [99, 112, 117, 48], Inr [99, 112, 117, 102], Inr [99, 112, 117, 49]]
          else Inr [Inr [105, 110, 100, 101, 120, 48]]),
      hf_is_dir = (\<lambda>p. length p = 3)\<rparr>"

definition test_l3 :: cpu_cache where
  "test_l3 = \<lparr>cc_level = 3, cc_type = Unified, cc_size_bytes = 8388608, cc_line_bytes = 64,
     cc_shared_cpu_ids = [0, 1]\<rparr>"

lemma test_text_values:
  "test_text (map of_char ''level'') = [51, 10]"
  "test_text (map of_char ''type'') = ascii ''Unified''"
  "test_text (map of_char ''size'') = ascii ''8M''"
  "test_text (map of_char ''coherency_line_size'') = ascii ''64''"
  "test_text (map of_char ''cpuinfo'') = ascii ''Model: GB10''"
  "test_text (map of_char ''meminfo'') = ascii ''MemTotal: 8 kB''"
  "test_text (map of_char ''shared_cpu_list'') = [48, 45, 49, 10]"
  "test_text (map of_char ''online'') = [48, 45, 49, 10]"
  by (simp_all add: test_text_def)

lemmas test_text_simps [simp] = test_text_values [simplified]

lemma test_host_dirs [simp]:
  "hf_read_dir test_host p =
     (if length p = 1 then Inr [Inr [99, 112, 117, 48], Inr [99, 112, 117, 102], Inr [99, 112, 117, 49]]
      else Inr [Inr [105, 110, 100, 101, 120, 48]])"
  "hf_is_dir test_host p \<longleftrightarrow> length p = 3"
  by (simp_all add: test_host_def)

lemma read_trimmed_test:
  "read_trimmed test_host (join p name) = Inr (trim (test_text (map of_char name)))"
  by (simp add: read_trimmed_def test_host_def join_def)

lemmas text_eval = trim_def trim_start_def trim_end_def is_whitespace_def ascii_def parse_unsigned_def
  is_digit_def digits_value_def Let_def word_le_nat_alt

lemma parse_test_texts:
  "parse_u32 what (trim [51, 10]) = Inr 3" "parse_u32 what (trim (ascii ''64'')) = Inr 64"
  "parse_cache_type (trim (ascii ''Unified'')) = Inr Unified"
  "parse_cache_size (trim (ascii ''8M'')) = Inr 8388608"
  by (simp_all add: parse_u32_def parse_cache_type_def parse_cache_size_def size_suffix_def
      checked_mul_def text_eval)

lemma parse_test_list: "parse_cpu_list_for what (trim [48, 45, 49, 10]) = Inr [0, 1]"
  by (simp add: parse_cpu_list_for_def split_once_def parse_u32_def inclusive_range_def text_eval
      word_less_nat_alt upt_rec)

lemma read_test_l3: "read_cache_object test_host p = Inr test_l3"
  using parse_test_list
  by (simp add: read_cache_object_def read_trimmed_test parse_test_texts parse_cpu_list_def try_narrow_def
      test_l3_def)

lemma test_numbered:
  "is_numbered_dir [RootDir, Normal [99, 112, 117, 48]] ''cpu''"
  "is_numbered_dir [RootDir, Normal [99, 112, 117, 49]] ''cpu''"
  "\<not> is_numbered_dir [RootDir, Normal [99, 112, 117, 102]] ''cpu''"
  "is_numbered_dir [a, b, c, Normal [105, 110, 100, 101, 120, 48]] ''index''"
  by (simp_all add: is_numbered_dir_def path_file_name_def strip_prefix_def word_less_nat_alt
      word_le_nat_alt)

lemma read_test_tree: "read_cpu_cache_tree test_host [RootDir] = Inr [test_l3]"
  by (simp add: read_cpu_cache_tree_def entry_path_def join_def test_numbered read_test_l3 Let_def)

definition test_probe :: host_probe where
  "test_probe = \<lparr>pr_arch = ascii ''aarch64'', pr_kernel_release = [54], pr_cpu_model = ascii ''GB10'',
     pr_online_cpus = [0, 1], pr_caches = [test_l3], pr_mem_total_bytes = 8192,
     pr_page_size_bytes = 4096\<rparr>"

lemma parse_test_model: "parse_cpu_model (trim (ascii ''Model: GB10'')) = Inr (ascii ''GB10'')"
  by (simp add: parse_cpu_model_def model_on_line_def split_once_def str_lines_def strip_cr_def text_eval)

lemma parse_test_memory: "parse_mem_total_bytes (trim (ascii ''MemTotal: 8 kB'')) = Inr 8192"
  by (simp add: parse_mem_total_bytes_def mem_total_on_line_def strip_prefix_def str_lines_def strip_cr_def
      split_whitespace_def checked_mul_def text_eval)

lemma test_host_probed:
  "probe_host_from_paths test_host [RootDir] (join [RootDir] ''online'') (join [RootDir] ''cpuinfo'')
     (join [RootDir] ''meminfo'') (ascii ''aarch64'') [54] 4096 = Inr test_probe"
proof -
  have "trim (ascii ''aarch64'') \<noteq> []" "trim [54] \<noteq> []"
    by (simp_all add: text_eval)
  then show ?thesis
    by (simp add: probe_host_from_paths_def read_trimmed_test parse_test_list parse_test_model
        parse_test_memory read_test_tree test_probe_def)
qed

theorem parse_cpu_list_reads_kernel_lists_witness:
  "parse_cpu_list_for ''online CPUs'' (render_cpu_list [(8, 8), (0, 2)] @ [10]) = Inr [0, 1, 2, 8]"
proof -
  have "(\<Union>(a, b) \<in> set [(8, 8), (0, 2)]. {a..b}) = set [8, 0, 1, 2 :: u32]"
    using set_inclusive_range [of 0 2] by (auto simp: inclusive_range_def upt_rec)
  moreover have "sorted_list_of_set (set [8, 0, 1, 2 :: u32]) = [0, 1, 2, 8]"
    unfolding sorted_list_of_set_sort_remdups by (simp add: word_le_nat_alt)
  ultimately show ?thesis
    using parse_cpu_list_reads_kernel_lists [of "[(8, 8), (0, 2)]" "''online CPUs''"]
    by (simp add: word_le_nat_alt)
qed

theorem read_cpu_cache_tree_exact_witness:
  "\<exists>caches. read_cpu_cache_tree test_host [RootDir] = Inr caches \<and> distinct caches \<and>
    Inr ` set caches = read_cache_object test_host ` set (index_paths test_host [RootDir])"
  using read_cpu_cache_tree_exact [of test_host "[RootDir]" "[test_l3]"] read_test_tree by blast

theorem mem_total_reads_kernel_line_witness:
  "parse_mem_total_bytes (ascii ''MemFree: 3 kB'' @ 10 # mem_total_line 2 131072000 @ [10])
     = Inr 134217728000"
  using mem_total_reads_kernel_line [of "[ascii ''MemFree: 3 kB'']" 2 131072000 "[]"]
  by (simp add: ascii_def strip_prefix_def)

end
