(* ===== verification/SysfsCaches.thy ===== *)
theory SysfsCaches
  imports HostProbe
begin

text \<open>
  The cache topology as the kernel shows it (\<open>crates/gb10x-runtime/src/linux_probe.rs\<close>, the part that
  reads \<open>cpuN/cache/indexM\<close>): an index directory printed from the facts of a cache is read as that
  cache, and the list that is returned depends on which caches are described, not on the order in
  which the directories are listed.
\<close>

section \<open>One index directory\<close>

fun cache_type_name :: "cache_type \<Rightarrow> string" where
  "cache_type_name Instruction = ''Instruction''"
| "cache_type_name Data = ''Data''"
| "cache_type_name Unified = ''Unified''"

text \<open>
  The files of an index directory, each ended by a line feed: the level and the line size in decimal,
  the type by name, the size in KiB with the suffix \<open>K\<close>, and the CPUs as a list of ranges.
\<close>

definition kernel_shows ::
    "host_files \<Rightarrow> path \<Rightarrow> u8 \<Rightarrow> cache_type \<Rightarrow> nat \<Rightarrow> u32 \<Rightarrow> (u32 \<times> u32) list \<Rightarrow> bool" where
  "kernel_shows h p level ty kib line_bytes ranges \<longleftrightarrow>
     hf_read_to_string h (join p ''level'') = Inr (to_digits (unat level) @ [10]) \<and>
     hf_read_to_string h (join p ''type'') = Inr (ascii (cache_type_name ty) @ [10]) \<and>
     hf_read_to_string h (join p ''size'') = Inr (to_digits kib @ [75, 10]) \<and>
     hf_read_to_string h (join p ''coherency_line_size'') = Inr (to_digits (unat line_bytes) @ [10]) \<and>
     hf_read_to_string h (join p ''shared_cpu_list'') = Inr (render_cpu_list ranges @ [10])"

lemma parse_level_digits:
  "parse_u32 what (to_digits (unat (level :: u8))) = Inr (ucast level)"
proof -
  have "unat (ucast level :: u32) = unat level" by (rule unat_ucast_up) simp
  then show ?thesis using parse_u32_digits [of what "ucast level"] by simp
qed

lemma narrow_level: "try_narrow (ucast (level :: u8) :: u32) = Some level"
proof -
  have lt: "unat level < 256" using unsigned_less [of level, where 'a = nat] by simp
  have "unat (ucast level :: u32) = unat level" by (rule unat_ucast_up) simp
  moreover from this have "unat (ucast (ucast level :: u32) :: u8) = unat level"
    using lt unat_ucast_small [of "ucast level :: u32", where 'b = 8] by simp
  ultimately show ?thesis using lt by (simp add: try_narrow_def word_unat_eq_iff)
qed

lemma cache_type_name_no_space: "list_all (\<lambda>c. \<not> is_whitespace c) (ascii (cache_type_name ty))"
  by (cases ty) (simp_all add: ascii_def is_whitespace_def)

lemma parse_cache_type_name: "parse_cache_type (ascii (cache_type_name ty)) = Inr ty"
  unfolding parse_cache_type_def Let_def trim_id [OF cache_type_name_no_space]
  by (cases ty) (simp_all add: ascii_def)

text \<open>Sizes in KiB: the product is checked, so what does not fit 64 bits is an error.\<close>

lemma unit_K [simp]: "\<not> is_whitespace 75"
  by (simp add: is_whitespace_def word_le_nat_alt)

lemma parse_cache_size_kib:
  "parse_cache_size (to_digits kib @ [75]) =
     (if kib * 1024 < 2 ^ 64 then Inr (word_of_nat (kib * 1024))
      else Inl (InvalidValue ''cache size'' (to_digits kib @ [75])))"
proof -
  have trimmed: "trim (to_digits kib @ [75]) = to_digits kib @ [75]"
    by (rule trim_id) simp
  show ?thesis
    by (auto simp: parse_cache_size_def trimmed size_suffix_def parse_unsigned_digits checked_mul_def
        unat_of_nat_u64)
qed

lemma read_shown_cache:
  assumes "kernel_shows h p level ty kib line_bytes ranges"
    and "ranges \<noteq> []" and "list_all (\<lambda>(a, b). a \<le> b) ranges"
  shows "read_cache_object h p =
    (if kib * 1024 < 2 ^ 64
     then Inr \<lparr>cc_level = level, cc_type = ty, cc_size_bytes = word_of_nat (kib * 1024),
       cc_line_bytes = line_bytes,
       cc_shared_cpu_ids = sorted_list_of_set (\<Union>(a, b) \<in> set ranges. {a..b})\<rparr>
     else Inl (InvalidValue ''cache size'' (to_digits kib @ [75])))"
proof -
  note shown = assms(1) [unfolded kernel_shows_def]
  have "trim (to_digits kib @ [75, 10]) = to_digits kib @ [75]"
    using trim_newline [of "to_digits kib @ [75]"] by simp
  then have texts: "read_trimmed h (join p ''level'') = Inr (to_digits (unat level))"
    "read_trimmed h (join p ''type'') = Inr (ascii (cache_type_name ty))"
    "read_trimmed h (join p ''size'') = Inr (to_digits kib @ [75])"
    "read_trimmed h (join p ''coherency_line_size'') = Inr (to_digits (unat line_bytes))"
    "read_trimmed h (join p ''shared_cpu_list'') = Inr (render_cpu_list ranges)"
    using shown
    by (simp_all add: read_trimmed_def trim_newline cache_type_name_no_space render_cpu_list_no_space)
  have "parse_cpu_list (render_cpu_list ranges) = Inr (sorted_list_of_set (\<Union>(a, b) \<in> set ranges. {a..b}))"
    using parse_cpu_list_rendered [OF assms(2,3), of "''shared_cpu_list''"]
    by (simp add: parse_cpu_list_def parse_cpu_list_for_def trim_newline render_cpu_list_no_space trim_id)
  then show ?thesis
    by (simp add: read_cache_object_def texts parse_level_digits narrow_level parse_cache_type_name
        parse_cache_size_kib)
qed

text \<open>
  C26. An index directory as the kernel prints it is read as the cache it describes, for every level,
  type, line size and list of CPU ranges; a size in KiB that does not fit 64 bits when it is counted in
  bytes is refused, and the error quotes it.
\<close>

theorem cache_object_reads_kernel_files:
  assumes "kernel_shows h p level ty kib line_bytes ranges"
    and "ranges \<noteq> []" and "list_all (\<lambda>(a, b). a \<le> b) ranges"
  shows "read_cache_object h p =
    (if kib * 1024 < 2 ^ 64
     then Inr \<lparr>cc_level = level, cc_type = ty, cc_size_bytes = word_of_nat (kib * 1024),
       cc_line_bytes = line_bytes,
       cc_shared_cpu_ids = sorted_list_of_set (\<Union>(a, b) \<in> set ranges. {a..b})\<rparr>
     else Inl (InvalidValue ''cache size'' (to_digits kib @ [75])))"
  by (rule read_shown_cache [OF assms])

section \<open>The order of the listing\<close>

lemma sorted_by_injective_ranks:
  assumes "set xs = set ys" and "distinct xs" and "distinct ys" and "inj_on f (set xs)"
    and "sorted (map f xs)" and "sorted (map f ys)"
  shows "xs = ys"
proof -
  have "map f xs = map f ys"
    using assms by (intro sorted_distinct_set_unique) (simp_all add: distinct_map)
  then show ?thesis using assms(1,4) by (intro map_inj_on [of f]) simp_all
qed

text \<open>
  C25. The list of caches does not depend on the order in which the directories are listed, nor on how
  often a cache is described: two trees that describe the same caches are read as the same list, as
  long as no two of these caches agree in level, type, CPUs and size and differ in their line size,
  which the comparator does not look at.
\<close>

theorem cache_tree_order_free:
  assumes "read_cpu_cache_tree h root = Inr caches" and "read_cpu_cache_tree h' root' = Inr caches'"
    and "read_cache_object h ` set (index_paths h root) = read_cache_object h' ` set (index_paths h' root')"
    and "inj_on cache_order (set caches)"
  shows "caches' = caches"
proof -
  note sound = read_cpu_cache_tree_sound [OF assms(1)] read_cpu_cache_tree_sound [OF assms(2)]
  have "Inr ` set caches = (Inr ` set caches' :: (probe_error + cpu_cache) set)"
    using sound(4,8) assms(3) by simp
  then have "set caches = set caches'" by (simp add: inj_image_eq_iff)
  then show ?thesis
    using sorted_by_injective_ranks [of caches caches' cache_order] sound assms(4) by simp
qed

section \<open>Two private caches\<close>

text \<open>
  Two CPUs with an L2 of 2 MiB each, listed in the order of the argument; the other files are those of
  \<open>test_host\<close>.
\<close>

definition test_shown :: "u32 \<Rightarrow> bytes \<Rightarrow> unicode" where
  "test_shown cpu name =
     (if name = map of_char ''level'' then to_digits 2 @ [10]
      else if name = map of_char ''type'' then ascii ''Unified'' @ [10]
      else if name = map of_char ''size'' then to_digits 2048 @ [75, 10]
      else if name = map of_char ''coherency_line_size'' then to_digits 64 @ [10]
      else render_cpu_list [(cpu, cpu)] @ [10])"

definition test_sysfs :: "u8 list \<Rightarrow> host_files" where
  "test_sysfs cpus =
     \<lparr>hf_read_to_string = (\<lambda>p. case p of
          [_, Normal cpu, _, _, Normal name] \<Rightarrow> Inr (test_shown (ucast (last cpu) - 48) name)
        | _ \<Rightarrow> hf_read_to_string test_host p),
      hf_read_dir = (\<lambda>p.
          if length p = 1 then Inr (map (\<lambda>d. Inr [99, 112, 117, d]) cpus)
          else Inr [Inr [105, 110, 100, 101, 120, 48]]),
      hf_is_dir = (\<lambda>p. length p = 3)\<rparr>"

definition test_index :: "u8 \<Rightarrow> path" where
  "test_index d = [RootDir, Normal [99, 112, 117, d], Normal (map of_char ''cache''), Normal [105, 110, 100, 101, 120, 48]]"

definition test_l2 :: "u32 \<Rightarrow> cpu_cache" where
  "test_l2 cpu = \<lparr>cc_level = 2, cc_type = Unified, cc_size_bytes = 2097152, cc_line_bytes = 64,
     cc_shared_cpu_ids = [cpu]\<rparr>"

lemma test_sysfs_shows:
  "kernel_shows (test_sysfs cpus) (test_index d) 2 Unified 2048 64 [(ucast d - 48, ucast d - 48)]"
  by (simp add: kernel_shows_def test_sysfs_def test_index_def test_shown_def join_def)

lemma test_sysfs_object: "read_cache_object (test_sysfs cpus) (test_index d) = Inr (test_l2 (ucast d - 48))"
  using read_shown_cache [OF test_sysfs_shows [of cpus d]] by (simp add: test_l2_def)

lemma test_sysfs_paths:
  "list_all (\<lambda>d. 48 \<le> d \<and> d \<le> 57) cpus \<Longrightarrow> index_paths (test_sysfs cpus) [RootDir] = map test_index cpus"
  "listing_ok (test_sysfs cpus) p"
proof -
  have cpu: "is_numbered_dir [RootDir, Normal [99, 112, 117, d]] ''cpu''" if "48 \<le> d" "d \<le> 57" for d
    using that by (simp add: is_numbered_dir_def path_file_name_def strip_prefix_def word_less_nat_alt word_le_nat_alt)
  have "filter (\<lambda>p. length p = 3) (map (\<lambda>c. join c ''cache'') (filter (\<lambda>p. is_numbered_dir p ''cpu'')
      (map (entry_path [RootDir]) (List.map_filter (\<lambda>e. case e of Inl _ \<Rightarrow> None | Inr name \<Rightarrow> Some name)
        (map (\<lambda>d. Inr [99, 112, 117, d]) ds)))))
      = map (\<lambda>d. [RootDir, Normal [99, 112, 117, d], Normal (map of_char ''cache'')]) ds"
    if "list_all (\<lambda>d. 48 \<le> d \<and> d \<le> 57) ds" for ds
    using that by (induction ds) (simp_all add: List.map_filter_simps entry_path_def join_def cpu)
  then have "cache_dirs (test_sysfs cpus) [RootDir]
      = map (\<lambda>d. [RootDir, Normal [99, 112, 117, d], Normal (map of_char ''cache'')]) cpus"
    if "list_all (\<lambda>d. 48 \<le> d \<and> d \<le> 57) cpus"
    using that by (simp only: cache_dirs_def numbered_entries_def test_sysfs_def host_files.simps
        list.size if_True sum.case One_nat_def add_0 simp_thms)
  then show "list_all (\<lambda>d. 48 \<le> d \<and> d \<le> 57) cpus \<Longrightarrow> index_paths (test_sysfs cpus) [RootDir] = map test_index cpus"
    by (simp add: index_paths_def numbered_entries_def test_sysfs_def entry_path_def test_numbered
        test_index_def comp_def List.map_filter_simps)
  show "listing_ok (test_sysfs cpus) p"
    by (simp add: listing_ok_def test_sysfs_def list_all_iff)
qed

lemma test_sysfs_read:
  assumes "list_all (\<lambda>d. 48 \<le> d \<and> d \<le> 57) cpus" and "cpus \<noteq> []"
  shows "\<exists>caches. read_cpu_cache_tree (test_sysfs cpus) [RootDir] = Inr caches"
  using assms
  by (simp add: is_ok_iff [symmetric] read_cpu_cache_tree_ok_iff test_sysfs_paths list_all_iff test_sysfs_object)

theorem cache_tree_order_free_witness:
  "\<exists>caches. read_cpu_cache_tree (test_sysfs [48, 49]) [RootDir] = Inr caches \<and>
     read_cpu_cache_tree (test_sysfs [49, 48, 49]) [RootDir] = Inr caches \<and>
     set caches = {test_l2 0, test_l2 1}"
proof -
  obtain caches caches' where read: "read_cpu_cache_tree (test_sysfs [48, 49]) [RootDir] = Inr caches"
    "read_cpu_cache_tree (test_sysfs [49, 48, 49]) [RootDir] = Inr caches'"
    using test_sysfs_read [of "[48, 49]"] test_sysfs_read [of "[49, 48, 49]"] by auto
  have "Inr ` set caches = (Inr ` {test_l2 0, test_l2 1} :: (probe_error + cpu_cache) set)"
    using read_cpu_cache_tree_sound(4) [OF read(1)] by (simp add: test_sysfs_paths test_sysfs_object)
  then have set: "set caches = {test_l2 0, test_l2 1}" by (simp only: inj_image_eq_iff inj_Inr)
  have "inj_on cache_order (set caches)"
    by (auto simp: set inj_on_def cache_order_def test_l2_def)
  from cache_tree_order_free [OF read _ this] have "caches' = caches"
    by (auto simp: test_sysfs_paths test_sysfs_object)
  then show ?thesis using read set by simp
qed

theorem cache_object_reads_kernel_files_witness:
  "read_cache_object (test_sysfs [48, 49]) (test_index 49) = Inr (test_l2 1)"
  using cache_object_reads_kernel_files [OF test_sysfs_shows [of "[48, 49]" 49]] by (simp add: test_l2_def)

end
