(* ===== verification/Ownership.thy ===== *)
theory Ownership
  imports Prelude
begin

text \<open>
  What the runtime relies on when keys have owners: in a valid state every key has one owner, and it
  is one of the owners the state lists, each once. Counting keys owner by owner then counts every
  key exactly once. The CPU cache fabric provides it and the PLE-Hydra hierarchy uses it.
\<close>

lemma sum_list_indicator:
  "distinct xs \<Longrightarrow> sum_list (map (\<lambda>x. if y = x then Suc (f x) else f x) xs)
     = (if y \<in> set xs then Suc (sum_list (map f xs)) else sum_list (map f xs))"
  by (induction xs) auto

locale key_owner =
  fixes valid :: "'f \<Rightarrow> bool"
    and owners :: "'f \<Rightarrow> 'o list"
    and owner_of :: "'f \<Rightarrow> 'k \<Rightarrow> 'o"
  assumes owners_distinct: "valid f \<Longrightarrow> distinct (owners f)"
    and owner_in: "valid f \<Longrightarrow> owner_of f k \<in> set (owners f)"
begin

definition owned :: "'f \<Rightarrow> 'o \<Rightarrow> 'k list \<Rightarrow> 'k list" where
  "owned f cpu = filter (\<lambda>k. owner_of f k = cpu)"

lemma length_owned:
  assumes "valid f"
  shows "sum_list (map (\<lambda>cpu. length (owned f cpu ks)) (owners f)) = length ks"
proof (induction ks)
  case (Cons k ks)
  have "(\<lambda>cpu. length (owned f cpu (k # ks)))
      = (\<lambda>cpu. if owner_of f k = cpu then Suc (length (owned f cpu ks)) else length (owned f cpu ks))"
    by (simp add: owned_def fun_eq_iff)
  then show ?case
    using Cons.IH sum_list_indicator [OF owners_distinct [OF assms]] owner_in [OF assms] by simp
qed (simp add: owned_def)

lemma count_by_owner:
  assumes "valid f"
  shows "sum_list (map (\<lambda>cpu. length (filter (\<lambda>k. P k \<and> owner_of f k = cpu) ks)) (owners f))
      = length (filter P ks)"
  using length_owned [OF assms, of "filter P ks"] by (simp add: owned_def conj_commute)

end

end
