(* ===== verification/CacheFabric.thy ===== *)
theory CacheFabric
  imports Platform Bytes Comparators Ownership Complex_Main "HOL-Library.Product_Lexorder"
    "HOL-Library.Sublist"
begin

text \<open>
  CPU hot-cache ownership (\<open>crates/gb10x-runtime/src/cache_fabric.rs\<close>): the owners a topology
  gives, the canonical owner of a key, and the greedy plan of hot candidates.

  Indexing \<open>owners\<close> and the remainder by its length would panic on an empty fabric, so those
  operations have results of type \<open>fault\<close>; \<open>from_topology\<close> never returns an empty fabric.
  \<open>sort_unstable_by\<close> is \<open>sort_by\<close> with the code's comparator, whose densities are 128-bit
  products; the keys are distinct when it runs, so every sorting algorithm gives that list.
\<close>

section \<open>Fabrics and plans\<close>

datatype cache_fabric_error =
    NoComputeCpus
  | DuplicateComputeCpu u32
  | MissingPrivateL2 u32
  | BudgetExceedsPrivateL2 u32 u64 u64
  | ZeroCandidateBytes u64
  | DuplicateCandidateKey u64

record cpu_cache_owner =
  ow_cpu_id :: u32
  ow_hot_budget_bytes :: u64

record hot_cache_candidate =
  cd_key :: u64
  cd_bytes :: u64
  cd_savings_ns :: u64

record hot_cache_placement =
  hp_key :: u64
  hp_owner_cpu :: u32
  hp_bytes :: u64
  hp_savings_ns :: u64

record cpu_hot_cache_plan =
  hcp_owner_cpus :: "u32 list"
  hcp_budget_per_owner :: u64
  hcp_placements :: "hot_cache_placement list"
  hcp_remaining :: "(u32 \<times> u64) list"

record cpu_cache_fabric =
  fab_owners :: "cpu_cache_owner list"

section \<open>Owners from a topology\<close>

definition private_l2 :: "u32 \<Rightarrow> cpu_cache \<Rightarrow> bool" where
  "private_l2 cpu_id cache \<longleftrightarrow>
     cc_level cache = 2 \<and> cc_type cache \<in> {Data, Unified} \<and> cc_shared_cpu_ids cache = [cpu_id]"

definition private_l2_bytes :: "cpu_cache list \<Rightarrow> u32 \<Rightarrow> u64 option" where
  "private_l2_bytes caches cpu_id =
     (case map cc_size_bytes (filter (private_l2 cpu_id) caches) of
        [] \<Rightarrow> None
      | l2 # l2s \<Rightarrow> Some (fold max l2s l2))"

fun derive_owners ::
    "cpu_cache list \<Rightarrow> u64 \<Rightarrow> u32 list \<Rightarrow> cache_fabric_error + cpu_cache_owner list" where
  "derive_owners caches budget [] = Inr []"
| "derive_owners caches budget (cpu_id # cpus) =
     bindE (ok_or (private_l2_bytes caches cpu_id) (MissingPrivateL2 cpu_id)) (\<lambda>l2_bytes.
     if budget > l2_bytes then Inl (BudgetExceedsPrivateL2 cpu_id budget l2_bytes)
     else
     bindE (derive_owners caches budget cpus) (\<lambda>owners.
     Inr (\<lparr>ow_cpu_id = cpu_id, ow_hot_budget_bytes = budget\<rparr> # owners)))"

definition from_topology ::
    "cpu_cache list \<Rightarrow> u32 list \<Rightarrow> u64 \<Rightarrow> cache_fabric_error + cpu_cache_fabric" where
  "from_topology caches compute_cpus budget =
     (if compute_cpus = [] then Inl NoComputeCpus
      else
        (let owner_cpus = sort compute_cpus
         in case List.find (\<lambda>(a, b). a = b) (pairs owner_cpus) of
              Some (duplicate, _) \<Rightarrow> Inl (DuplicateComputeCpu duplicate)
            | None \<Rightarrow>
                bindE (derive_owners caches budget owner_cpus) (\<lambda>owners.
                Inr \<lparr>fab_owners = owners\<rparr>)))"

section \<open>Ownership of keys\<close>

definition owner_cpus :: "cpu_cache_fabric \<Rightarrow> u32 list" where
  "owner_cpus f = map ow_cpu_id (fab_owners f)"

definition owner_cpu_for_key :: "cpu_cache_fabric \<Rightarrow> u64 \<Rightarrow> 'e fault + u32" where
  "owner_cpu_for_key f key =
     bindE (rem_or_panic key (word_of_nat (length (fab_owners f)))) (\<lambda>owner_index.
     if unat owner_index < length (fab_owners f)
     then Inr (ow_cpu_id (fab_owners f ! unat owner_index)) else Inl Panic)"

definition hot_budget_bytes_per_owner :: "cpu_cache_fabric \<Rightarrow> 'e fault + u64" where
  "hot_budget_bytes_per_owner f =
     (case fab_owners f of [] \<Rightarrow> Inl Panic | owner # _ \<Rightarrow> Inr (ow_hot_budget_bytes owner))"

section \<open>The greedy plan\<close>

text \<open>The comparator of \<open>sort_unstable_by\<close>: denser first, then by key, bytes and savings.\<close>

definition density :: "hot_cache_candidate \<Rightarrow> hot_cache_candidate \<Rightarrow> 128 word" where
  "density c other = ucast (cd_savings_ns c) * ucast (cd_bytes other)"

definition compare_candidates :: "hot_cache_candidate \<Rightarrow> hot_cache_candidate \<Rightarrow> ordering" where
  "compare_candidates left right =
     then_with (then_with (then_with
       (cmp (density right left) (density left right))
       (cmp (cd_key left) (cd_key right)))
       (cmp (cd_bytes left) (cd_bytes right)))
       (cmp (cd_savings_ns left) (cd_savings_ns right))"

text \<open>The candidates whose canonical owner is the given CPU.\<close>

fun owned_candidates ::
    "cpu_cache_fabric \<Rightarrow> u32 \<Rightarrow> hot_cache_candidate list \<Rightarrow> 'e fault + hot_cache_candidate list" where
  "owned_candidates f cpu_id [] = Inr []"
| "owned_candidates f cpu_id (c # cs) =
     bindE (owner_cpu_for_key f (cd_key c)) (\<lambda>cpu.
     bindE (owned_candidates f cpu_id cs) (\<lambda>rest.
     Inr (if cpu = cpu_id then c # rest else rest)))"

fun reserve ::
    "u32 \<Rightarrow> u64 \<Rightarrow> hot_cache_candidate list \<Rightarrow> hot_cache_placement list \<times> u64" where
  "reserve cpu_id remaining [] = ([], remaining)"
| "reserve cpu_id remaining (c # cs) =
     (if cd_savings_ns c = 0 then reserve cpu_id remaining cs
      else if cd_bytes c \<le> remaining then
        (let (placements, rest) = reserve cpu_id (remaining - cd_bytes c) cs
         in (\<lparr>hp_key = cd_key c, hp_owner_cpu = cpu_id, hp_bytes = cd_bytes c,
              hp_savings_ns = cd_savings_ns c\<rparr> # placements, rest))
      else reserve cpu_id remaining cs)"

fun plan_owners ::
    "cpu_cache_fabric \<Rightarrow> hot_cache_candidate list \<Rightarrow> cpu_cache_owner list \<Rightarrow>
      'e fault + hot_cache_placement list \<times> (u32 \<times> u64) list" where
  "plan_owners f candidates [] = Inr ([], [])"
| "plan_owners f candidates (owner # owners) =
     bindE (owned_candidates f (ow_cpu_id owner) candidates) (\<lambda>owned.
       (let (placements, remaining) =
          reserve (ow_cpu_id owner) (ow_hot_budget_bytes owner) (sort_by compare_candidates owned)
        in bindE (plan_owners f candidates owners) (\<lambda>(further, remainings).
           Inr (placements @ further, (ow_cpu_id owner, remaining) # remainings))))"

text \<open>The first candidate whose key was seen before.\<close>

fun first_repeated :: "u64 set \<Rightarrow> hot_cache_candidate list \<Rightarrow> hot_cache_candidate option" where
  "first_repeated seen [] = None"
| "first_repeated seen (c # cs) =
     (if cd_key c \<in> seen then Some c else first_repeated (insert (cd_key c) seen) cs)"

definition plan_hot_candidates ::
    "cpu_cache_fabric \<Rightarrow> hot_cache_candidate list \<Rightarrow> cache_fabric_error fault + cpu_hot_cache_plan" where
  "plan_hot_candidates f candidates =
     (if fab_owners f = [] then Inl (Err NoComputeCpus)
      else case List.find (\<lambda>c. cd_bytes c = 0) candidates of
        Some c \<Rightarrow> Inl (Err (ZeroCandidateBytes (cd_key c)))
      | None \<Rightarrow>
        (case first_repeated {} candidates of
           Some c \<Rightarrow> Inl (Err (DuplicateCandidateKey (cd_key c)))
         | None \<Rightarrow>
             bindE (plan_owners f candidates (fab_owners f)) (\<lambda>(placements, remainings).
             bindE (hot_budget_bytes_per_owner f) (\<lambda>budget.
             Inr \<lparr>hcp_owner_cpus = owner_cpus f, hcp_budget_per_owner = budget,
                  hcp_placements = placements, hcp_remaining = remainings\<rparr>))))"

definition remaining_bytes_for_cpu :: "cpu_hot_cache_plan \<Rightarrow> u32 \<Rightarrow> u64 option" where
  "remaining_bytes_for_cpu plan cpu_id =
     map_option snd (List.find (\<lambda>(owner_cpu, _). owner_cpu = cpu_id) (hcp_remaining plan))"

section \<open>Fabrics of a topology\<close>

definition fabric_of :: "u32 list \<Rightarrow> u64 \<Rightarrow> cpu_cache_fabric" where
  "fabric_of cpus budget =
     \<lparr>fab_owners = map (\<lambda>cpu. \<lparr>ow_cpu_id = cpu, ow_hot_budget_bytes = budget\<rparr>) cpus\<rparr>"

lemma sorted_pairs_le: "sorted xs \<Longrightarrow> p \<in> set (pairs xs) \<Longrightarrow> fst p \<le> snd p"
  by (induction xs rule: induct_list012) auto

lemma find_duplicate_None:
  "List.find (\<lambda>(a, b). a = b) (pairs (sort cpus)) = None \<longleftrightarrow> distinct (cpus :: u32 list)"
proof -
  have "distinct cpus \<longleftrightarrow> sorted_wrt (<) (sort cpus)"
    by (simp add: strict_sorted_iff)
  also have "\<dots> \<longleftrightarrow> (\<forall>p \<in> set (pairs (sort cpus)). fst p < snd p)"
    by (auto simp: strict_sorted_iff_pairs)
  also have "\<dots> \<longleftrightarrow> (\<forall>p \<in> set (pairs (sort cpus)). fst p \<noteq> snd p)"
    using sorted_pairs_le [of "sort cpus"] by (metis less_irrefl order.not_eq_order_implies_strict sorted_sort)
  finally show ?thesis by (auto simp: find_None_iff)
qed

lemma derive_owners_ok_iff:
  "derive_owners caches budget cpus = Inr owners \<longleftrightarrow>
     (\<forall>cpu \<in> set cpus. \<exists>l2. private_l2_bytes caches cpu = Some l2 \<and> budget \<le> l2) \<and>
     owners = fab_owners (fabric_of cpus budget)"
  by (induction cpus arbitrary: owners) (auto simp: result_simps fabric_of_def not_less)

lemma from_topology_ok_iff:
  "from_topology caches cpus budget = Inr f \<longleftrightarrow>
     cpus \<noteq> [] \<and> distinct cpus \<and>
     (\<forall>cpu \<in> set cpus. \<exists>l2. private_l2_bytes caches cpu = Some l2 \<and> budget \<le> l2) \<and>
     f = fabric_of (sort cpus) budget"
  using find_duplicate_None [of cpus]
  by (cases "List.find (\<lambda>(a, b). a = b) (pairs (sort cpus))")
     (auto simp: from_topology_def derive_owners_ok_iff result_simps fabric_of_def)

text \<open>What every fabric of a topology satisfies.\<close>

definition wf_fabric :: "cpu_cache_fabric \<Rightarrow> u64 \<Rightarrow> bool" where
  "wf_fabric f budget \<longleftrightarrow>
     owner_cpus f \<noteq> [] \<and> distinct (owner_cpus f) \<and> f = fabric_of (owner_cpus f) budget"

lemma from_topology_wf:
  "from_topology caches cpus budget = Inr f \<Longrightarrow> wf_fabric f budget"
  by (auto simp: from_topology_ok_iff wf_fabric_def fabric_of_def owner_cpus_def comp_def
      dest: arg_cong [where f = length])

definition canonical_owner :: "cpu_cache_fabric \<Rightarrow> u64 \<Rightarrow> u32" where
  "canonical_owner f key = owner_cpus f ! (unat key mod length (owner_cpus f))"

lemma owner_cpu_for_key_eq:
  assumes "wf_fabric f budget"
  shows "owner_cpu_for_key f key = Inr (canonical_owner f key)"
proof -
  let ?n = "length (fab_owners f)"
  have "?n \<le> 4294967296" and pos: "0 < ?n"
    using assms length_distinct_u32 [of "owner_cpus f"] by (auto simp: wf_fabric_def owner_cpus_def)
  then have n: "unat (word_of_nat ?n :: u64) = ?n" by (intro unat_of_nat_u64) simp
  then have "(word_of_nat ?n :: u64) \<noteq> 0" using pos by (metis unat_0 less_irrefl)
  moreover have "unat key mod ?n < ?n" using pos by simp
  ultimately show ?thesis
    by (simp add: owner_cpu_for_key_def rem_or_panic_def unat_mod n canonical_owner_def owner_cpus_def)
qed

lemma canonical_owner_in: "wf_fabric f budget \<Longrightarrow> canonical_owner f key \<in> set (owner_cpus f)"
  by (simp add: wf_fabric_def canonical_owner_def)

interpretation fabric: key_owner "\<lambda>f. \<exists>budget. wf_fabric f budget" owner_cpus canonical_owner
  by unfold_locales (auto simp: wf_fabric_def intro: canonical_owner_in)

lemma owned_candidates_eq:
  assumes "wf_fabric f budget"
  shows "owned_candidates f cpu cs = Inr (filter (\<lambda>c. canonical_owner f (cd_key c) = cpu) cs)"
  by (induction cs) (simp_all add: owner_cpu_for_key_eq [OF assms])

section \<open>The order of candidates\<close>

definition savings_rate :: "hot_cache_candidate \<Rightarrow> real" where
  "savings_rate c = real (unat (cd_savings_ns c)) / real (unat (cd_bytes c))"

definition rank :: "hot_cache_candidate \<Rightarrow> real \<times> u64 \<times> u64 \<times> u64" where
  "rank c = (- savings_rate c, cd_key c, cd_bytes c, cd_savings_ns c)"

text \<open>The 128-bit products are exact, so the comparator orders by savings per byte.\<close>

lemma unat_density: "unat (density c d) = unat (cd_savings_ns c) * unat (cd_bytes d)"
proof -
  have "unat (cd_savings_ns c) \<le> 18446744073709551615" "unat (cd_bytes d) \<le> 18446744073709551615"
    using unat_u64_lt [of "cd_savings_ns c"] unat_u64_lt [of "cd_bytes d"] by linarith+
  then have "unat (cd_savings_ns c) * unat (cd_bytes d) \<le> 18446744073709551615 * 18446744073709551615"
    by (rule mult_le_mono)
  moreover have "unat (ucast (cd_savings_ns c) :: 128 word) = unat (cd_savings_ns c)"
    "unat (ucast (cd_bytes d) :: 128 word) = unat (cd_bytes d)"
    by (rule unat_ucast_up, simp)+
  ultimately show ?thesis
    using unat_mult_exact [of "ucast (cd_savings_ns c) :: 128 word" "ucast (cd_bytes d)"]
    by (simp add: density_def)
qed

lemma ratio_compare:
  fixes s b s' b' :: nat
  assumes "0 < b" and "0 < b'"
  shows "s' * b < s * b' \<longleftrightarrow> real s' / real b' < real s / real b"
    and "s' * b = s * b' \<longleftrightarrow> real s' / real b' = real s / real b"
proof -
  have "real s' / real b' < real s / real b \<longleftrightarrow> real s' * real b < real s * real b'"
    using assms by (simp add: field_simps)
  then show "s' * b < s * b' \<longleftrightarrow> real s' / real b' < real s / real b"
    by (metis of_nat_less_iff of_nat_mult)
  have "real s' / real b' = real s / real b \<longleftrightarrow> real s' * real b = real s * real b'"
    using assms by (simp add: frac_eq_eq)
  then show "s' * b = s * b' \<longleftrightarrow> real s' / real b' = real s / real b"
    by (metis of_nat_eq_iff of_nat_mult)
qed

lemma density_less_iff:
  assumes "cd_bytes c \<noteq> 0" and "cd_bytes d \<noteq> 0"
  shows "density d c < density c d \<longleftrightarrow> savings_rate d < savings_rate c"
    and "density d c = density c d \<longleftrightarrow> savings_rate d = savings_rate c"
proof -
  have "0 < unat (cd_bytes c)" "0 < unat (cd_bytes d)"
    using assms by (simp_all add: unat_gt_0)
  from ratio_compare [OF this, of "unat (cd_savings_ns d)" "unat (cd_savings_ns c)"]
  show "density d c < density c d \<longleftrightarrow> savings_rate d < savings_rate c"
    and "density d c = density c d \<longleftrightarrow> savings_rate d = savings_rate c"
    by (simp_all only: word_less_nat_alt word_unat_eq_iff unat_density savings_rate_def)
qed

lemma compare_candidates_ranks:
  assumes "cd_bytes c \<noteq> 0" and "cd_bytes d \<noteq> 0"
  shows "compare_candidates c d = cmp (rank c) (rank d)"
proof -
  have "cmp (density d c) (density c d) = cmp (- savings_rate c) (- savings_rate d)"
    by (simp add: cmp_def density_less_iff [OF assms])
  then show ?thesis
    unfolding compare_candidates_def rank_def then_with_assoc by (simp add: then_with_cmp)
qed

lemma rank_inj: "inj rank"
proof (rule injI)
  fix c d
  assume "rank c = rank d"
  then show "c = d" by (cases c, cases d) (simp add: rank_def)
qed

interpretation candidates: total_comparator compare_candidates "\<lambda>c. cd_bytes c \<noteq> 0" rank
  by unfold_locales (simp_all add: compare_candidates_ranks rank_inj)

section \<open>Reservations of one owner\<close>

definition placed :: "u32 \<Rightarrow> hot_cache_candidate \<Rightarrow> hot_cache_placement" where
  "placed cpu c = \<lparr>hp_key = cd_key c, hp_owner_cpu = cpu, hp_bytes = cd_bytes c,
     hp_savings_ns = cd_savings_ns c\<rparr>"

lemma reserve_Cons:
  "reserve cpu b (c # cs) =
     (if cd_savings_ns c \<noteq> 0 \<and> cd_bytes c \<le> b
      then (placed cpu c # fst (reserve cpu (b - cd_bytes c) cs), snd (reserve cpu (b - cd_bytes c) cs))
      else reserve cpu b cs)"
  by (auto simp: placed_def split: prod.split)

declare reserve.simps(2) [simp del]

lemma reserve_budget:
  "sum_list (map (unat \<circ> hp_bytes) (fst (reserve cpu b cs))) + unat (snd (reserve cpu b cs)) = unat b"
proof (induction cs arbitrary: b)
  case (Cons c cs)
  have "cd_bytes c \<le> b \<Longrightarrow> unat (b - cd_bytes c) + unat (cd_bytes c) = unat b"
    by (simp add: unat_sub_exact word_le_nat_alt)
  then show ?case
    using Cons.IH [of b] Cons.IH [of "b - cd_bytes c"] by (auto simp: reserve_Cons placed_def)
qed simp

text \<open>The placements are those of a subsequence of the candidates.\<close>

lemma reserve_subseq:
  "\<exists>chosen. fst (reserve cpu b cs) = map (placed cpu) chosen \<and> subseq chosen cs \<and>
     (\<forall>c \<in> set chosen. cd_savings_ns c \<noteq> 0)"
proof (induction cs arbitrary: b)
  case (Cons c cs)
  show ?case
  proof (cases "cd_savings_ns c \<noteq> 0 \<and> cd_bytes c \<le> b")
    case True
    from Cons.IH [of "b - cd_bytes c"] obtain chosen where
      "fst (reserve cpu (b - cd_bytes c) cs) = map (placed cpu) chosen" "subseq chosen cs"
      "\<forall>c \<in> set chosen. cd_savings_ns c \<noteq> 0" by blast
    then show ?thesis
      using True by (intro exI [of _ "c # chosen"]) (simp add: reserve_Cons)
  next
    case False
    from Cons.IH [of b] obtain chosen where
      "fst (reserve cpu b cs) = map (placed cpu) chosen" "subseq chosen cs"
      "\<forall>c \<in> set chosen. cd_savings_ns c \<noteq> 0" by blast
    then show ?thesis
      using False by (intro exI [of _ chosen]) (auto simp: reserve_Cons)
  qed
qed simp

lemma reserve_remaining_le: "snd (reserve cpu b cs) \<le> b"
  using reserve_budget [of cpu b cs] by (simp add: word_le_nat_alt)

text \<open>Nothing that still fits was left out.\<close>

lemma reserve_maximal:
  "c \<in> set cs \<Longrightarrow> cd_savings_ns c \<noteq> 0 \<Longrightarrow> placed cpu c \<notin> set (fst (reserve cpu b cs)) \<Longrightarrow>
     snd (reserve cpu b cs) < cd_bytes c"
proof (induction cs arbitrary: b)
  case (Cons d cs)
  show ?case
  proof (cases "cd_savings_ns d \<noteq> 0 \<and> cd_bytes d \<le> b")
    case True
    then show ?thesis
      using Cons.IH [of "b - cd_bytes d"] Cons.prems by (auto simp: reserve_Cons)
  next
    case False
    show ?thesis
    proof (cases "c = d")
      case same: True
      then have "b < cd_bytes c" using False Cons.prems(2) by simp
      then show ?thesis
        using False le_less_trans [OF reserve_remaining_le [of cpu b cs]] by (auto simp: reserve_Cons)
    next
      case other: False
      then show ?thesis
        using False Cons.IH [of b] Cons.prems by (auto simp: reserve_Cons)
    qed
  qed
qed simp

section \<open>Plans\<close>

definition owner_plan ::
    "cpu_cache_fabric \<Rightarrow> u64 \<Rightarrow> hot_cache_candidate list \<Rightarrow> u32 \<Rightarrow> hot_cache_placement list \<times> u64" where
  "owner_plan f budget cs cpu =
     reserve cpu budget (sort_by compare_candidates (filter (\<lambda>c. canonical_owner f (cd_key c) = cpu) cs))"

lemma plan_owners_eq:
  assumes "wf_fabric f budget"
  shows "plan_owners f cs (map (\<lambda>cpu. \<lparr>ow_cpu_id = cpu, ow_hot_budget_bytes = budget\<rparr>) cpus)
    = Inr (concat (map (\<lambda>cpu. fst (owner_plan f budget cs cpu)) cpus),
        map (\<lambda>cpu. (cpu, snd (owner_plan f budget cs cpu))) cpus)"
  by (induction cpus)
     (auto simp: owned_candidates_eq [OF assms] owner_plan_def split: prod.split)

lemma first_repeated_None_iff:
  "first_repeated seen cs = None \<longleftrightarrow> distinct (map cd_key cs) \<and> seen \<inter> set (map cd_key cs) = {}"
  by (induction cs arbitrary: seen) auto

definition plan_of :: "cpu_cache_fabric \<Rightarrow> u64 \<Rightarrow> hot_cache_candidate list \<Rightarrow> cpu_hot_cache_plan" where
  "plan_of f budget cs =
     \<lparr>hcp_owner_cpus = owner_cpus f, hcp_budget_per_owner = budget,
      hcp_placements = concat (map (\<lambda>cpu. fst (owner_plan f budget cs cpu)) (owner_cpus f)),
      hcp_remaining = map (\<lambda>cpu. (cpu, snd (owner_plan f budget cs cpu))) (owner_cpus f)\<rparr>"

definition valid_candidates :: "hot_cache_candidate list \<Rightarrow> bool" where
  "valid_candidates cs \<longleftrightarrow> list_all (\<lambda>c. cd_bytes c \<noteq> 0) cs \<and> distinct (map cd_key cs)"

lemma wf_fabric_owners:
  assumes "wf_fabric f budget"
  shows "fab_owners f = map (\<lambda>cpu. \<lparr>ow_cpu_id = cpu, ow_hot_budget_bytes = budget\<rparr>) (owner_cpus f)"
    and "owner_cpus f \<noteq> []" and "distinct (owner_cpus f)"
    and "hot_budget_bytes_per_owner f = Inr budget"
proof -
  show owners: "fab_owners f = map (\<lambda>cpu. \<lparr>ow_cpu_id = cpu, ow_hot_budget_bytes = budget\<rparr>) (owner_cpus f)"
    using assms by (metis cpu_cache_fabric.select_convs(1) fabric_of_def wf_fabric_def)
  show "owner_cpus f \<noteq> []" "distinct (owner_cpus f)" using assms by (simp_all add: wf_fabric_def)
  then show "hot_budget_bytes_per_owner f = Inr budget"
    using owners by (cases "owner_cpus f") (simp_all add: hot_budget_bytes_per_owner_def)
qed

lemma plan_hot_candidates_ok_iff:
  assumes "wf_fabric f budget"
  shows "plan_hot_candidates f cs = Inr plan \<longleftrightarrow> valid_candidates cs \<and> plan = plan_of f budget cs"
proof -
  have run: "plan_owners f cs (fab_owners f)
      = (Inr (hcp_placements (plan_of f budget cs), hcp_remaining (plan_of f budget cs))
         :: cache_fabric_error fault + _)"
    using plan_owners_eq [OF assms, of cs "owner_cpus f"] wf_fabric_owners(1) [OF assms]
    by (simp add: plan_of_def)
  have "fab_owners f \<noteq> []"
    using wf_fabric_owners(1,2) [OF assms] by (metis Nil_is_map_conv)
  moreover have "List.find (\<lambda>c. cd_bytes c = 0) cs = None \<longleftrightarrow> list_all (\<lambda>c. cd_bytes c \<noteq> 0) cs"
    by (auto simp: find_None_iff list_all_iff)
  ultimately show ?thesis
    using first_repeated_None_iff [of "{}" cs]
    by (auto simp: plan_hot_candidates_def valid_candidates_def run wf_fabric_owners(4) [OF assms]
        plan_of_def split: option.splits)
qed

lemma placed_inverse: "placed cpu c = placed cpu' d \<longleftrightarrow> cpu = cpu' \<and> c = d"
  by (cases c, cases d) (auto simp: placed_def)

lemma owner_plan_placements:
  assumes "pl \<in> set (fst (owner_plan f budget cs cpu))"
  shows "\<exists>c \<in> set cs. pl = placed cpu c \<and> cd_savings_ns c \<noteq> 0 \<and> canonical_owner f (cd_key c) = cpu"
proof -
  from reserve_subseq obtain chosen where chosen:
    "fst (owner_plan f budget cs cpu) = map (placed cpu) chosen"
    "subseq chosen (sort_by compare_candidates (filter (\<lambda>c. canonical_owner f (cd_key c) = cpu) cs))"
    "\<forall>c \<in> set chosen. cd_savings_ns c \<noteq> 0"
    unfolding owner_plan_def by metis
  then have "set chosen \<subseteq> {c \<in> set cs. canonical_owner f (cd_key c) = cpu}"
    by (auto simp: subseq_conv_nths set_sort_by dest!: in_set_nthsD)
  then show ?thesis using assms chosen(1,3) by auto
qed

lemma plan_of_placement_iff:
  "pl \<in> set (hcp_placements (plan_of f budget cs)) \<longleftrightarrow>
     (\<exists>cpu \<in> set (owner_cpus f). pl \<in> set (fst (owner_plan f budget cs cpu)))"
  by (simp add: plan_of_def)

lemma owner_plan_owner: "pl \<in> set (fst (owner_plan f budget cs cpu)) \<Longrightarrow> hp_owner_cpu pl = cpu"
  using owner_plan_placements by (fastforce simp: placed_def)

lemma plan_of_owner_filter:
  assumes "distinct cpus" and "cpu \<in> set cpus"
  shows "filter (\<lambda>pl. hp_owner_cpu pl = cpu) (concat (map (\<lambda>cpu. fst (owner_plan f budget cs cpu)) cpus))
    = fst (owner_plan f budget cs cpu)"
  using assms
proof (induction cpus)
  case (Cons x xs)
  have own: "filter (\<lambda>pl. hp_owner_cpu pl = cpu) (fst (owner_plan f budget cs x))
      = (if x = cpu then fst (owner_plan f budget cs x) else [])"
    using owner_plan_owner by (auto simp: filter_id_conv filter_empty_conv)
  have "filter (\<lambda>pl. hp_owner_cpu pl = cpu) (concat (map (\<lambda>cpu. fst (owner_plan f budget cs cpu)) xs)) = []"
    if "cpu \<notin> set xs"
    using that owner_plan_owner by (fastforce simp: filter_empty_conv)
  then show ?case using Cons own by auto
qed simp

lemma remaining_of_plan:
  "cpu \<in> set (owner_cpus f) \<Longrightarrow>
     remaining_bytes_for_cpu (plan_of f budget cs) cpu = Some (snd (owner_plan f budget cs cpu))"
proof -
  have "List.find (\<lambda>(o', _). o' = cpu) (map (\<lambda>cpu. (cpu, g cpu)) cpus) = Some (cpu, g cpu)"
    if "cpu \<in> set cpus" for g :: "u32 \<Rightarrow> u64" and cpus
    using that by (induction cpus) auto
  then show "cpu \<in> set (owner_cpus f) \<Longrightarrow> ?thesis"
    by (simp add: remaining_bytes_for_cpu_def plan_of_def)
qed

lemma owner_plan_mset:
  assumes "valid_candidates cs" and "mset cs = mset cs'"
  shows "owner_plan f budget cs cpu = owner_plan f budget cs' cpu"
proof -
  let ?own = "filter (\<lambda>c. canonical_owner f (cd_key c) = cpu)"
  have "sort_by compare_candidates (?own cs) = sort_by compare_candidates (?own cs')"
    using assms
    by (intro candidates.sort_by_order_free) (auto simp: mset_filter valid_candidates_def list_all_iff)
  then show ?thesis by (simp add: owner_plan_def)
qed

lemma owner_plan_distinct_keys:
  assumes "distinct (map cd_key cs)"
  shows "distinct (map hp_key (fst (owner_plan f budget cs cpu)))"
proof -
  let ?sorted = "sort_by compare_candidates (filter (\<lambda>c. canonical_owner f (cd_key c) = cpu) cs)"
  obtain chosen where chosen: "fst (owner_plan f budget cs cpu) = map (placed cpu) chosen"
    "subseq chosen ?sorted"
    using reserve_subseq unfolding owner_plan_def by metis
  have "mset (map cd_key ?sorted) = mset (map cd_key (filter (\<lambda>c. canonical_owner f (cd_key c) = cpu) cs))"
    by (simp add: mset_sort_by)
  moreover have "distinct (map cd_key (filter (\<lambda>c. canonical_owner f (cd_key c) = cpu) cs))"
    using assms by (simp add: distinct_map_filter)
  ultimately have "distinct (map cd_key ?sorted)" by (metis mset_eq_imp_distinct_iff)
  moreover have "subseq (map cd_key chosen) (map cd_key ?sorted)"
    by (rule subseq_map [OF chosen(2)])
  ultimately have "distinct (map cd_key chosen)" by (auto simp: subseq_conv_nths)
  then show ?thesis by (simp add: chosen(1) placed_def comp_def)
qed

lemma plan_distinct_keys:
  assumes "distinct (map cd_key cs)" and "distinct cpus"
  shows "distinct (map hp_key (concat (map (\<lambda>cpu. fst (owner_plan f budget cs cpu)) cpus)))"
  using assms(2)
proof (induction cpus)
  case (Cons x xs)
  have "hp_key pl \<noteq> hp_key pl'"
    if "pl \<in> set (fst (owner_plan f budget cs x))" "pl' \<in> set (fst (owner_plan f budget cs y))" "y \<in> set xs"
    for pl pl' y
    using owner_plan_placements [OF that(1)] owner_plan_placements [OF that(2)] that(3) Cons.prems
    by (auto simp: placed_def)
  then show ?case
    using Cons owner_plan_distinct_keys [OF assms(1), of f budget x] by fastforce
qed simp

lemma reserve_members:
  "pl \<in> set (fst (reserve cpu b cs)) \<Longrightarrow> \<exists>c \<in> set cs. pl = placed cpu c"
  using reserve_subseq [of cpu b cs] by (fastforce simp: subseq_conv_nths dest: in_set_nthsD)

lemma not_after_rate:
  "not_after compare_candidates c d \<Longrightarrow> unat (cd_savings_ns d) * unat (cd_bytes c) \<le> unat (cd_savings_ns c) * unat (cd_bytes d)"
  by (simp add: not_after_def compare_candidates_def not_less word_le_nat_alt unat_density)

lemma reserve_sorted:
  "sorted_wrt (not_after compare_candidates) cs \<Longrightarrow>
     sorted_wrt (\<lambda>a b. unat (hp_savings_ns b) * unat (hp_bytes a) \<le> unat (hp_savings_ns a) * unat (hp_bytes b))
       (fst (reserve cpu b cs))"
proof (induction cs arbitrary: b)
  case (Cons c cs)
  have "unat (cd_savings_ns d) * unat (cd_bytes c) \<le> unat (cd_savings_ns c) * unat (cd_bytes d)"
    if "d \<in> set cs" for d
    using Cons.prems that by (intro not_after_rate) simp
  then have "\<forall>pl \<in> set (fst (reserve cpu b' cs)). unat (hp_savings_ns pl) * unat (cd_bytes c)
      \<le> unat (cd_savings_ns c) * unat (hp_bytes pl)" for b'
    using reserve_members [of _ cpu b' cs] by (fastforce simp: placed_def)
  then show ?case
    using Cons by (auto simp: reserve_Cons placed_def)
qed simp

lemma owner_plan_sorted:
  assumes "valid_candidates cs"
  shows "sorted_wrt (\<lambda>a b. unat (hp_savings_ns b) * unat (hp_bytes a) \<le> unat (hp_savings_ns a) * unat (hp_bytes b))
    (fst (owner_plan f budget cs cpu))"
  using assms unfolding owner_plan_def
  by (intro reserve_sorted candidates.sorted_sort_by) (auto simp: valid_candidates_def list_all_iff)

text \<open>The keys that are placed are those of candidates that were placed at their owner.\<close>

lemma key_placed_iff:
  assumes "valid_candidates cs" and "c \<in> set cs" and "canonical_owner f (cd_key c) \<in> set (owner_cpus f)"
  shows "cd_key c \<in> hp_key ` set (hcp_placements (plan_of f budget cs)) \<longleftrightarrow>
    placed (canonical_owner f (cd_key c)) c \<in> set (fst (owner_plan f budget cs (canonical_owner f (cd_key c))))"
    (is "?key \<longleftrightarrow> ?placed")
proof
  assume ?key
  then obtain pl cpu where pl: "hp_key pl = cd_key c" "pl \<in> set (fst (owner_plan f budget cs cpu))"
    by (auto simp: plan_of_placement_iff)
  from owner_plan_placements [OF pl(2)] obtain d where
    d: "d \<in> set cs" "pl = placed cpu d" "canonical_owner f (cd_key d) = cpu" by auto
  have "cd_key d = cd_key c" using d(2) pl(1) by (simp add: placed_def)
  then have "d = c"
    using assms(1,2) d(1) by (auto simp: valid_candidates_def distinct_map inj_on_def)
  then show ?placed using d pl(2) by simp
next
  assume ?placed
  then have "placed (canonical_owner f (cd_key c)) c \<in> set (hcp_placements (plan_of f budget cs))"
    using assms(3) by (auto simp: plan_of_placement_iff)
  then show ?key by (rule rev_image_eqI) (simp add: placed_def)
qed

section \<open>Properties\<close>

text \<open>
  A fabric is derived exactly when at least one CPU is selected, no CPU twice, and the largest
  private data-capable L2 of each holds the budget; its owners are then the selected CPUs in
  ascending order, each with that budget.
\<close>

theorem from_topology_exact:
  "from_topology caches cpus budget = Inr f \<longleftrightarrow>
     cpus \<noteq> [] \<and> distinct cpus \<and>
     list_all (\<lambda>cpu. case private_l2_bytes caches cpu of None \<Rightarrow> False | Some l2 \<Rightarrow> budget \<le> l2) cpus \<and>
     f = fabric_of (sort cpus) budget"
  by (auto simp: from_topology_ok_iff list_all_iff split: option.splits)

text \<open>
  Every key has one canonical owner: in a fabric derived from a topology the owner of a key is
  the CPU at position \<open>key mod n\<close> of the sorted selection, it is one of the selected CPUs, and
  neither the remainder nor the indexing panics.
\<close>

theorem owner_cpu_canonical:
  assumes "from_topology caches cpus budget = Inr f"
  shows "owner_cpu_for_key f key = Inr (sort cpus ! (unat key mod length cpus)) \<and>
    sort cpus ! (unat key mod length cpus) \<in> set cpus"
proof -
  have wf: "wf_fabric f budget" by (rule from_topology_wf [OF assms])
  have owners: "owner_cpus f = sort cpus"
    using assms by (simp add: from_topology_ok_iff owner_cpus_def fabric_of_def comp_def)
  show ?thesis
    using owner_cpu_for_key_eq [OF wf, of key] canonical_owner_in [OF wf, of key]
    by (simp add: canonical_owner_def owners)
qed

text \<open>
  C27. The plan accepts exactly the candidate lists without a zero size and without a repeated key,
  never panics, and does not depend on the order in which the candidates are given.
\<close>

theorem plan_hot_candidates_order_free:
  assumes "from_topology caches cpus budget = Inr f" and "mset cs = mset cs'"
  shows "(is_ok (plan_hot_candidates f cs) \<longleftrightarrow>
      list_all (\<lambda>c. cd_bytes c \<noteq> 0) cs \<and> distinct (map cd_key cs)) \<and>
    plan_hot_candidates f cs \<noteq> Inl Panic \<and>
    (is_ok (plan_hot_candidates f cs) \<longrightarrow> plan_hot_candidates f cs = plan_hot_candidates f cs')"
proof -
  have wf: "wf_fabric f budget" by (rule from_topology_wf [OF assms(1)])
  note iff = plan_hot_candidates_ok_iff [OF wf]
  have ok: "is_ok (plan_hot_candidates f cs) \<longleftrightarrow> valid_candidates cs" for cs
    by (simp add: is_ok_iff iff)
  have "plan_hot_candidates f cs \<noteq> Inl Panic"
  proof (cases "valid_candidates cs")
    case True
    then show ?thesis using iff [of cs "plan_of f budget cs"] by simp
  next
    case False
    then show ?thesis
      using first_repeated_None_iff [of "{}" cs]
      by (auto simp: plan_hot_candidates_def valid_candidates_def find_None_iff list_all_iff
          split: option.split)
  qed
  moreover have "plan_hot_candidates f cs = plan_hot_candidates f cs'" if "valid_candidates cs"
  proof -
    have "mset (map cd_key cs) = mset (map cd_key cs')" using assms(2) by simp
    then have "distinct (map cd_key cs) = distinct (map cd_key cs')" by (rule mset_eq_imp_distinct_iff)
    moreover have "set cs = set cs'" using assms(2) by (metis set_mset_mset)
    ultimately have "valid_candidates cs'"
      using that by (simp add: valid_candidates_def list_all_iff)
    moreover have "plan_of f budget cs = plan_of f budget cs'"
      using owner_plan_mset [OF that assms(2)] by (simp add: plan_of_def)
    ultimately show ?thesis using iff that by (metis (full_types))
  qed
  ultimately show ?thesis using ok [of cs] by (simp add: valid_candidates_def)
qed

text \<open>
  C13. The greedy plan of an owner is exact about its budget: the bytes of its placements and the
  recorded remainder add up to the budget, the placements are in order of savings per byte, and
  every positive-savings candidate of the owner that was left out is larger than what remains.
\<close>

theorem hot_plan_fills_budgets:
  assumes "from_topology caches cpus budget = Inr f" and "plan_hot_candidates f cs = Inr plan"
    and "cpu \<in> set cpus"
  shows "\<exists>rest. remaining_bytes_for_cpu plan cpu = Some rest \<and>
    sum_list (map (unat \<circ> hp_bytes) (filter (\<lambda>pl. hp_owner_cpu pl = cpu) (hcp_placements plan)))
      + unat rest = unat budget \<and>
    sorted_wrt (\<lambda>a b. unat (hp_savings_ns b) * unat (hp_bytes a) \<le> unat (hp_savings_ns a) * unat (hp_bytes b))
      (filter (\<lambda>pl. hp_owner_cpu pl = cpu) (hcp_placements plan)) \<and>
    (\<forall>c \<in> set cs. canonical_owner f (cd_key c) = cpu \<longrightarrow> cd_savings_ns c \<noteq> 0 \<longrightarrow>
       cd_key c \<notin> hp_key ` set (hcp_placements plan) \<longrightarrow> rest < cd_bytes c)"
proof -
  have wf: "wf_fabric f budget" by (rule from_topology_wf [OF assms(1)])
  have valid: "valid_candidates cs" and plan: "plan = plan_of f budget cs"
    using assms(2) by (simp_all add: plan_hot_candidates_ok_iff [OF wf])
  have cpu: "cpu \<in> set (owner_cpus f)"
    using assms(1,3) by (simp add: from_topology_ok_iff owner_cpus_def fabric_of_def comp_def)
  let ?own = "filter (\<lambda>c. canonical_owner f (cd_key c) = cpu) cs"
  have own: "filter (\<lambda>pl. hp_owner_cpu pl = cpu) (hcp_placements plan) = fst (owner_plan f budget cs cpu)"
    using plan_of_owner_filter [OF wf_fabric_owners(3) [OF wf] cpu] by (simp add: plan plan_of_def)
  have "snd (owner_plan f budget cs cpu) < cd_bytes c"
    if "c \<in> set cs" "canonical_owner f (cd_key c) = cpu" "cd_savings_ns c \<noteq> 0"
      "cd_key c \<notin> hp_key ` set (hcp_placements plan)" for c
    using that key_placed_iff [OF valid that(1), of f budget] cpu unfolding owner_plan_def plan
    by (intro reserve_maximal) (simp_all add: set_sort_by)
  then show ?thesis
    using remaining_of_plan [OF cpu, of budget cs] owner_plan_sorted [OF valid, of f budget cpu]
      reserve_budget [of cpu budget "sort_by compare_candidates ?own"]
    unfolding own by (auto simp: plan owner_plan_def)
qed

text \<open>
  C23. Every placement is a candidate with positive savings, at the canonical owner of its key, with
  its bytes and savings, and no key is placed twice.
\<close>

theorem hot_plan_placements_canonical:
  assumes "from_topology caches cpus budget = Inr f" and "plan_hot_candidates f cs = Inr plan"
    and "pl \<in> set (hcp_placements plan)"
  shows "\<exists>c \<in> set cs. pl = placed (hp_owner_cpu pl) c \<and> cd_savings_ns c \<noteq> 0 \<and>
    owner_cpu_for_key f (hp_key pl) = Inr (hp_owner_cpu pl) \<and> distinct (map hp_key (hcp_placements plan))"
proof -
  have wf: "wf_fabric f budget" by (rule from_topology_wf [OF assms(1)])
  have valid: "valid_candidates cs" and plan: "plan = plan_of f budget cs"
    using assms(2) by (simp_all add: plan_hot_candidates_ok_iff [OF wf])
  obtain cpu where "pl \<in> set (fst (owner_plan f budget cs cpu))"
    using assms(3) by (auto simp: plan plan_of_placement_iff)
  then obtain c where "c \<in> set cs" "pl = placed cpu c" "cd_savings_ns c \<noteq> 0"
    "canonical_owner f (cd_key c) = cpu"
    using owner_plan_placements by blast
  moreover have "distinct (map hp_key (hcp_placements plan))"
    using plan_distinct_keys [OF _ wf_fabric_owners(3) [OF wf]] valid
    by (simp add: plan plan_of_def valid_candidates_def)
  ultimately show ?thesis
    by (intro bexI [of _ c]) (simp_all add: owner_cpu_for_key_eq [OF wf] placed_def)
qed

section \<open>A small fabric\<close>

definition test_cache :: "u32 \<Rightarrow> u64 \<Rightarrow> cpu_cache" where
  "test_cache cpu l2 = \<lparr>cc_level = 2, cc_type = Unified, cc_size_bytes = l2, cc_line_bytes = 64,
     cc_shared_cpu_ids = [cpu]\<rparr>"

definition test_caches :: "cpu_cache list" where
  "test_caches = [test_cache 5 4096, test_cache 2 2048]"

definition test_candidate :: "u64 \<Rightarrow> u64 \<Rightarrow> u64 \<Rightarrow> hot_cache_candidate" where
  "test_candidate key n ns = \<lparr>cd_key = key, cd_bytes = n, cd_savings_ns = ns\<rparr>"

definition test_candidates :: "hot_cache_candidate list" where
  "test_candidates = [test_candidate 4 600 60, test_candidate 6 500 5000, test_candidate 3 900 1]"

lemma test_fabric: "from_topology test_caches [5, 2] 1000 = Inr (fabric_of [2, 5] 1000)"
  by (simp add: from_topology_ok_iff test_caches_def test_cache_def private_l2_bytes_def private_l2_def
      word_le_nat_alt)

lemma test_fabric_plan:
  "plan_hot_candidates (fabric_of [2, 5] 1000) test_candidates
     = Inr (plan_of (fabric_of [2, 5] 1000) 1000 test_candidates)"
  by (simp add: plan_hot_candidates_ok_iff [OF from_topology_wf [OF test_fabric]] valid_candidates_def
      test_candidates_def test_candidate_def)

theorem owner_cpu_canonical_witness:
  "owner_cpu_for_key (fabric_of [2, 5] 1000) 7 = (Inr 5 :: cache_fabric_error fault + u32)"
  using owner_cpu_canonical [OF test_fabric, of 7] by (simp add: word_le_nat_alt numeral_2_eq_2 [symmetric])

theorem plan_hot_candidates_order_free_witness:
  "plan_hot_candidates (fabric_of [2, 5] 1000) test_candidates
     = plan_hot_candidates (fabric_of [2, 5] 1000) (rev test_candidates)"
  using plan_hot_candidates_order_free [OF test_fabric, of test_candidates "rev test_candidates"]
  by (simp add: test_candidates_def test_candidate_def)

theorem hot_plan_fills_budgets_witness:
  "\<exists>rest. remaining_bytes_for_cpu (plan_of (fabric_of [2, 5] 1000) 1000 test_candidates) 2 = Some rest"
  using hot_plan_fills_budgets [OF test_fabric test_fabric_plan, of 2] by auto

lemma test_fabric_placement:
  "placed 2 (test_candidate 6 500 5000)
     \<in> set (hcp_placements (plan_of (fabric_of [2, 5] 1000) 1000 test_candidates))"
  by (simp add: plan_of_def owner_plan_def owner_cpus_def fabric_of_def canonical_owner_def
      test_candidates_def test_candidate_def compare_candidates_def cmp_def density_def placed_def reserve_Cons
      numeral_2_eq_2 [symmetric])

theorem hot_plan_placements_canonical_witness:
  "owner_cpu_for_key (fabric_of [2, 5] 1000) 6 = (Inr 2 :: cache_fabric_error fault + u32)"
  using hot_plan_placements_canonical [OF test_fabric test_fabric_plan test_fabric_placement]
  by (auto simp: placed_def test_candidate_def)

end
