(* ===== verification/HotPlanQuality.thy ===== *)
theory HotPlanQuality
  imports CacheFabric
begin

text \<open>
  How good the greedy plan of \<open>crates/gb10x-runtime/src/cache_fabric.rs\<close> is. Choosing the candidates
  of an owner is a knapsack problem: the budget is the capacity, the expected savings are the value.
  The plan takes candidates by savings per byte and passes over those that do not fit. It saves less
  than any other choice by less than what one candidate saves that was left out, and it is optimal
  when all candidates of the owner have the same size, as the rows of one table have.
\<close>

section \<open>Exchanging candidates\<close>

text \<open>
  Items in \<open>A\<close> are worth at least \<open>r\<close> per unit of weight, the others at most \<open>r\<close>: a choice that
  weighs \<open>t\<close> more than \<open>A\<close> is worth at most \<open>r * t\<close> more.
\<close>

lemma exchange_bound:
  fixes worth weight :: "'a \<Rightarrow> real"
  assumes "finite A" and "finite S"
    and "\<And>x. x \<in> A \<Longrightarrow> r * weight x \<le> worth x" and "\<And>x. x \<in> S - A \<Longrightarrow> worth x \<le> r * weight x"
  shows "sum worth S \<le> sum worth A + r * (sum weight S - sum weight A)"
proof -
  let ?gain = "\<lambda>x. worth x - r * weight x"
  have total: "sum ?gain X = sum worth X - r * sum weight X" for X
    by (simp add: sum_subtractf sum_distrib_left)
  have "sum ?gain S = sum ?gain (S \<inter> A) + sum ?gain (S - A)"
    using assms(2) by (simp add: sum.Int_Diff)
  also have "\<dots> \<le> sum ?gain A + 0"
    using assms by (intro add_mono sum_mono2 sum_nonpos) auto
  finally show ?thesis by (simp add: total algebra_simps)
qed

section \<open>The first candidate that does not fit\<close>

definition positive :: "hot_cache_candidate list \<Rightarrow> hot_cache_candidate list" where
  "positive = filter (\<lambda>c. cd_savings_ns c \<noteq> 0)"

lemma positive_simps [simp]:
  "positive [] = []"
  "positive (c # cs) = (if cd_savings_ns c \<noteq> 0 then c # positive cs else positive cs)"
  by (simp_all add: positive_def)

definition total_bytes :: "hot_cache_candidate list \<Rightarrow> nat" where
  "total_bytes cs = sum_list (map (unat \<circ> cd_bytes) cs)"

text \<open>
  Either every candidate that saves anything is placed, or there is a first one that does not fit:
  all before it are placed, and it is larger than what they leave of the budget.
\<close>

lemma reserve_first_rejected:
  obtains (all) "fst (reserve cpu b cs) = map (placed cpu) (positive cs)"
  | (rejected) taken c rest more where "cs = taken @ c # rest" and "cd_savings_ns c \<noteq> 0"
      and "fst (reserve cpu b cs) = map (placed cpu) (positive taken) @ fst (reserve cpu more rest)"
      and "total_bytes (positive taken) \<le> unat b"
      and "unat b < total_bytes (positive taken) + unat (cd_bytes c)"
proof (atomize_elim, induction cs arbitrary: b)
  case (Cons c cs)
  show ?case
  proof (cases "cd_savings_ns c \<noteq> 0 \<and> \<not> cd_bytes c \<le> b")
    case True
    moreover from this have "unat b < unat (cd_bytes c)" by (simp add: not_le word_less_nat_alt)
    ultimately have "c # cs = [] @ c # cs \<and> cd_savings_ns c \<noteq> 0 \<and>
        fst (reserve cpu b (c # cs)) = map (placed cpu) (positive []) @ fst (reserve cpu b cs) \<and>
        total_bytes (positive []) \<le> unat b \<and> unat b < total_bytes (positive []) + unat (cd_bytes c)"
      by (simp add: reserve_Cons total_bytes_def)
    then show ?thesis by blast
  next
    case False
    define b' where "b' = (if cd_savings_ns c \<noteq> 0 then b - cd_bytes c else b)"
    have fits: "cd_savings_ns c \<noteq> 0 \<Longrightarrow> unat b = unat b' + unat (cd_bytes c)"
      using False by (simp add: b'_def unat_sub_exact word_le_nat_alt)
    have step: "fst (reserve cpu b (c # cs)) = map (placed cpu) (positive [c]) @ fst (reserve cpu b' cs)"
      using False by (auto simp: reserve_Cons b'_def)
    have same: "cd_savings_ns c = 0 \<Longrightarrow> b' = b" by (simp add: b'_def)
    from Cons.IH [of b'] show ?thesis
    proof (elim disjE exE conjE)
      fix taken d rest more
      assume "cs = taken @ d # rest" "cd_savings_ns d \<noteq> 0"
        "fst (reserve cpu b' cs) = map (placed cpu) (positive taken) @ fst (reserve cpu more rest)"
        "total_bytes (positive taken) \<le> unat b'" "unat b' < total_bytes (positive taken) + unat (cd_bytes d)"
      then show ?thesis
        using step fits same
        by (intro disjI2 exI [of _ "c # taken"] exI [of _ d] exI [of _ rest] exI [of _ more])
           (auto simp: total_bytes_def)
    qed (simp add: step)
  qed
qed simp

section \<open>What is saved\<close>

definition saved_ns :: "hot_cache_placement list \<Rightarrow> nat" where
  "saved_ns pls = sum_list (map (unat \<circ> hp_savings_ns) pls)"

lemma saved_ns_append [simp]: "saved_ns (xs @ ys) = saved_ns xs + saved_ns ys"
  by (simp add: saved_ns_def)

lemma saved_placed:
  "distinct cs \<Longrightarrow> saved_ns (map (placed cpu) cs) = (\<Sum>c \<in> set cs. unat (cd_savings_ns c))"
  by (simp add: saved_ns_def placed_def comp_def sum_list_distinct_conv_sum_set)

lemma total_bytes_set: "distinct cs \<Longrightarrow> total_bytes cs = (\<Sum>c \<in> set cs. unat (cd_bytes c))"
  by (simp add: total_bytes_def comp_def sum_list_distinct_conv_sum_set)

lemma set_positive: "set (positive cs) = {c \<in> set cs. cd_savings_ns c \<noteq> 0}"
  by (auto simp: positive_def)

lemma distinct_positive: "distinct cs \<Longrightarrow> distinct (positive cs)"
  by (simp add: positive_def)

lemma savings_rate_facts:
  assumes "cd_bytes c \<noteq> 0"
  shows "0 < real (unat (cd_bytes c))" and "0 \<le> savings_rate c"
    and "savings_rate c * real (unat (cd_bytes c)) = real (unat (cd_savings_ns c))"
    and "cd_savings_ns c \<noteq> 0 \<Longrightarrow> 0 < savings_rate c"
proof -
  have "0 < unat (cd_bytes c)" using assms by (simp add: unat_gt_0)
  then show pos: "0 < real (unat (cd_bytes c))" by (rule of_nat_0_less_iff [THEN iffD2])
  then show "savings_rate c * real (unat (cd_bytes c)) = real (unat (cd_savings_ns c))"
    unfolding savings_rate_def by (intro nonzero_eq_divide_eq [THEN iffD1]) simp_all
  show "0 \<le> savings_rate c" unfolding savings_rate_def by (rule divide_nonneg_nonneg; rule of_nat_0_le_iff)
  assume "cd_savings_ns c \<noteq> 0"
  then have "0 < unat (cd_savings_ns c)" by (simp add: unat_gt_0)
  then show "0 < savings_rate c"
    unfolding savings_rate_def using pos by (rule divide_pos_pos [OF of_nat_0_less_iff [THEN iffD2]])
qed

text \<open>Against the candidates that were taken before the first rejected one.\<close>

lemma better_choice_bound:
  assumes sorted: "sorted_wrt (not_after compare_candidates) (taken @ c # rest)"
    and distinct: "distinct (taken @ c # rest)" and "cd_bytes c \<noteq> 0"
    and S: "S \<subseteq> set (taken @ c # rest)"
  shows "real (\<Sum>x \<in> S. unat (cd_savings_ns x)) \<le> real (\<Sum>x \<in> set (positive taken). unat (cd_savings_ns x))
    + savings_rate c * (real (\<Sum>x \<in> S. unat (cd_bytes x)) - real (total_bytes (positive taken)))"
proof -
  let ?b = "\<lambda>x. real (unat (cd_bytes x))" and ?s = "\<lambda>x. real (unat (cd_savings_ns x))"
  note pos = savings_rate_facts(1) [OF assms(3)]
  have le: "real (unat s * unat b) \<le> real (unat s' * unat b')" if "unat s * unat b \<le> unat s' * unat b'"
    for s b s' b' :: u64
    using that of_nat_le_iff by blast
  have before: "savings_rate c * ?b x \<le> ?s x" if "x \<in> set taken" for x
    using le [OF not_after_rate [of x c]] sorted that pos
    by (simp add: sorted_wrt_append savings_rate_def field_simps)
  have after: "?s x \<le> savings_rate c * ?b x" if "x \<in> set (c # rest)" for x
  proof (cases "x = c")
    case True
    then show ?thesis using pos by (simp add: savings_rate_def)
  next
    case False
    then have "not_after compare_candidates c x" using sorted that by (simp add: sorted_wrt_append)
    from le [OF not_after_rate [OF this]] show ?thesis
      using pos by (simp add: savings_rate_def field_simps)
  qed
  have "?s x \<le> savings_rate c * ?b x" if "x \<in> S - set (positive taken)" for x
  proof (cases "cd_savings_ns x = 0")
    case True
    then show ?thesis
      using mult_nonneg_nonneg [OF savings_rate_facts(2) [OF assms(3)] of_nat_0_le_iff [of "unat (cd_bytes x)"]]
      by simp
  next
    case False
    then show ?thesis using that S after by (auto simp: set_positive)
  qed
  moreover have "finite S" using S finite_subset by blast
  ultimately show ?thesis
    using exchange_bound [of "set (positive taken)" S "savings_rate c" ?b ?s] before distinct
    by (simp add: total_bytes_set distinct_positive set_positive)
qed

text \<open>A choice that fits the budget is worth less than what was taken and the rejected candidate.\<close>

lemma taken_nearly_best:
  assumes "sorted_wrt (not_after compare_candidates) (taken @ c # rest)" and "distinct (taken @ c # rest)"
    and "cd_bytes c \<noteq> 0" and "cd_savings_ns c \<noteq> 0" and "S \<subseteq> set (taken @ c # rest)"
    and fits: "(\<Sum>x \<in> S. unat (cd_bytes x)) \<le> b" and rejected: "b < total_bytes (positive taken) + unat (cd_bytes c)"
  shows "(\<Sum>x \<in> S. unat (cd_savings_ns x)) < (\<Sum>x \<in> set (positive taken). unat (cd_savings_ns x)) + unat (cd_savings_ns c)"
    and "\<forall>x \<in> set (taken @ c # rest). cd_bytes x = n \<Longrightarrow>
      (\<Sum>x \<in> S. unat (cd_savings_ns x)) \<le> (\<Sum>x \<in> set (positive taken). unat (cd_savings_ns x))"
proof -
  let ?s = "\<Sum>x \<in> S. unat (cd_savings_ns x)" and ?b = "\<Sum>x \<in> S. unat (cd_bytes x)"
  let ?taken = "\<Sum>x \<in> set (positive taken). unat (cd_savings_ns x)"
  let ?total = "total_bytes (positive taken)"
  note bound = better_choice_bound [OF assms(1-3,5)]
  note rate = savings_rate_facts(2,3) [OF assms(3)] savings_rate_facts(4) [OF assms(3,4)]
  have "savings_rate c * (real ?b - real ?total) < savings_rate c * real (unat (cd_bytes c))"
    using rejected fits rate(3) by (intro mult_strict_left_mono) linarith+
  then have "real ?s < real ?taken + real (unat (cd_savings_ns c))" using bound rate(2) by linarith
  then have "real ?s < real (?taken + unat (cd_savings_ns c))" by (simp only: of_nat_add)
  then show "?s < ?taken + unat (cd_savings_ns c)" by (rule of_nat_less_iff [THEN iffD1])
  assume uniform: "\<forall>x \<in> set (taken @ c # rest). cd_bytes x = n"
  then have "\<forall>x \<in> S. cd_bytes x = n" "\<forall>x \<in> set (positive taken). cd_bytes x = n"
    using assms(5) by (auto simp: set_positive)
  then have sizes: "?b = card S * unat n" "?total = card (set (positive taken)) * unat n"
    using assms(2) by (simp_all add: total_bytes_set distinct_positive)
  have "card S * unat n < Suc (card (set (positive taken))) * unat n"
    using rejected fits sizes uniform by simp
  then have "card S \<le> card (set (positive taken))" by (simp only: mult_less_cancel2) simp
  then have "?b \<le> ?total" unfolding sizes by (rule mult_le_mono1)
  then have "savings_rate c * (real ?b - real ?total) \<le> 0"
    using of_nat_mono [of ?b ?total, where 'a = real] by (intro mult_nonneg_nonpos rate(1)) linarith
  then have "real ?s \<le> real ?taken" using bound by linarith
  then show "?s \<le> ?taken" by (rule of_nat_le_iff [THEN iffD1])
qed

lemma reserve_near_optimal:
  assumes "sorted_wrt (not_after compare_candidates) cs" and "distinct cs"
    and "\<forall>c \<in> set cs. cd_bytes c \<noteq> 0" and "S \<subseteq> set cs" and "(\<Sum>c \<in> S. unat (cd_bytes c)) \<le> unat b"
  shows "(\<Sum>c \<in> S. unat (cd_savings_ns c)) \<le> saved_ns (fst (reserve cpu b cs)) \<or>
      (\<exists>c \<in> set cs. cd_savings_ns c \<noteq> 0 \<and> placed cpu c \<notin> set (fst (reserve cpu b cs)) \<and>
         (\<Sum>c \<in> S. unat (cd_savings_ns c)) < saved_ns (fst (reserve cpu b cs)) + unat (cd_savings_ns c)) \<and>
      ((\<forall>c \<in> set cs. cd_bytes c = n) \<longrightarrow>
         (\<Sum>c \<in> S. unat (cd_savings_ns c)) \<le> saved_ns (fst (reserve cpu b cs)))"
proof (cases rule: reserve_first_rejected [of cpu b cs])
  case all
  have "(\<Sum>c \<in> S. unat (cd_savings_ns c)) \<le> (\<Sum>c \<in> set cs. unat (cd_savings_ns c))"
    using assms(4) by (intro sum_mono2) simp_all
  also have "\<dots> = (\<Sum>c \<in> set (positive cs). unat (cd_savings_ns c))"
    by (rule sum.mono_neutral_right) (auto simp: set_positive)
  finally show ?thesis
    using all assms(2) by (simp add: saved_placed distinct_positive)
next
  case (rejected taken c rest more)
  have c: "c \<in> set cs" "cd_bytes c \<noteq> 0" using rejected(1) assms(3) by simp_all
  note best = taken_nearly_best [OF assms(1,2) [unfolded rejected(1)] c(2) rejected(2)
      assms(4) [unfolded rejected(1)] assms(5) rejected(5), folded rejected(1)]
  have distinct: "distinct (taken @ c # rest)" using assms(2) rejected(1) by simp
  then have "(\<Sum>x \<in> set (positive taken). unat (cd_savings_ns x)) \<le> saved_ns (fst (reserve cpu b cs))"
    by (simp add: rejected(3) saved_placed distinct_positive)
  moreover have "placed cpu c \<notin> set (fst (reserve cpu b cs))"
    using distinct reserve_members [of "placed cpu c" cpu more rest]
    by (auto simp: rejected(3) placed_inverse set_positive)
  ultimately show ?thesis using c(1) rejected(2) best by fastforce
qed

section \<open>The plan of an owner\<close>

definition saved_at :: "cpu_hot_cache_plan \<Rightarrow> u32 \<Rightarrow> nat" where
  "saved_at plan cpu = saved_ns (filter (\<lambda>pl. hp_owner_cpu pl = cpu) (hcp_placements plan))"

text \<open>
  C14. The greedy plan is nearly the best one. For any choice of candidates of one owner that fits its
  budget, the plan saves at least as much as the choice, or it falls short by less than what a single
  candidate saves that was left out; and when all candidates of the owner have the same size, no
  choice that fits saves more.
\<close>

theorem hot_plan_near_optimal:
  assumes "from_topology caches cpus budget = Inr f" and "plan_hot_candidates f cs = Inr plan"
    and "cpu \<in> set cpus" and "S \<subseteq> set cs" and "\<And>c. c \<in> S \<Longrightarrow> canonical_owner f (cd_key c) = cpu"
    and "(\<Sum>c \<in> S. unat (cd_bytes c)) \<le> unat budget"
  shows "((\<Sum>c \<in> S. unat (cd_savings_ns c)) \<le> saved_at plan cpu \<or>
      (\<exists>c \<in> set cs. canonical_owner f (cd_key c) = cpu \<and> cd_savings_ns c \<noteq> 0 \<and>
         cd_key c \<notin> hp_key ` set (hcp_placements plan) \<and>
         (\<Sum>c \<in> S. unat (cd_savings_ns c)) < saved_at plan cpu + unat (cd_savings_ns c))) \<and>
    ((\<forall>c \<in> set cs. canonical_owner f (cd_key c) = cpu \<longrightarrow> cd_bytes c = n) \<longrightarrow>
      (\<Sum>c \<in> S. unat (cd_savings_ns c)) \<le> saved_at plan cpu)"
proof -
  have wf: "wf_fabric f budget" by (rule from_topology_wf [OF assms(1)])
  have valid: "valid_candidates cs" and plan: "plan = plan_of f budget cs"
    using assms(2) by (simp_all add: plan_hot_candidates_ok_iff [OF wf])
  have cpu: "cpu \<in> set (owner_cpus f)"
    using assms(1,3) by (simp add: from_topology_ok_iff owner_cpus_def fabric_of_def comp_def)
  let ?own = "sort_by compare_candidates (filter (\<lambda>c. canonical_owner f (cd_key c) = cpu) cs)"
  have own: "filter (\<lambda>pl. hp_owner_cpu pl = cpu) (hcp_placements plan) = fst (reserve cpu budget ?own)"
    using plan_of_owner_filter [OF wf_fabric_owners(3) [OF wf] cpu]
    by (simp add: plan plan_of_def owner_plan_def)
  have set_own: "set ?own = {c \<in> set cs. canonical_owner f (cd_key c) = cpu}" by (simp add: set_sort_by)
  have sorted: "sorted_wrt (not_after compare_candidates) ?own"
    using valid by (intro candidates.sorted_sort_by) (auto simp: valid_candidates_def list_all_iff)
  have "distinct cs" using valid by (auto simp: valid_candidates_def distinct_map)
  then have distinct: "distinct ?own"
    using mset_eq_imp_distinct_iff [OF mset_sort_by [of compare_candidates]] by simp
  have "\<forall>c \<in> set ?own. cd_bytes c \<noteq> 0" "S \<subseteq> set ?own"
    using valid assms(4,5) by (auto simp: set_own valid_candidates_def list_all_iff)
  note near = reserve_near_optimal [OF sorted distinct this assms(6), where cpu = cpu,
      folded own, folded saved_at_def]
  have left_out: "cd_key c \<notin> hp_key ` set (hcp_placements plan)"
    if "c \<in> set ?own" "placed cpu c \<notin> set (filter (\<lambda>pl. hp_owner_cpu pl = cpu) (hcp_placements plan))" for c
    using that(2) key_placed_iff [OF valid, of c f budget] that(1) cpu
    unfolding own set_own by (simp add: plan owner_plan_def)
  show ?thesis
  proof (intro conjI impI)
    show "(\<Sum>c \<in> S. unat (cd_savings_ns c)) \<le> saved_at plan cpu \<or>
      (\<exists>c \<in> set cs. canonical_owner f (cd_key c) = cpu \<and> cd_savings_ns c \<noteq> 0 \<and>
         cd_key c \<notin> hp_key ` set (hcp_placements plan) \<and>
         (\<Sum>c \<in> S. unat (cd_savings_ns c)) < saved_at plan cpu + unat (cd_savings_ns c))"
      using near left_out set_own by blast
  qed (use near set_own in auto)
qed

text \<open>
  A budget of 1000 bytes: the plan takes the candidate that saves 700 in 600 bytes and leaves out one
  that saves 800 in 900.
\<close>

definition test_knapsack :: "hot_cache_candidate list" where
  "test_knapsack = [test_candidate 2 900 800, test_candidate 4 600 700]"

theorem hot_plan_near_optimal_witness:
  "\<exists>plan. plan_hot_candidates (fabric_of [2, 5] 1000) test_knapsack = Inr plan \<and>
     (800 \<le> saved_at plan 2 \<or>
      (\<exists>c \<in> set test_knapsack. cd_key c \<notin> hp_key ` set (hcp_placements plan) \<and>
         800 < saved_at plan 2 + unat (cd_savings_ns c)))"
proof -
  have plan: "plan_hot_candidates (fabric_of [2, 5] 1000) test_knapsack
      = Inr (plan_of (fabric_of [2, 5] 1000) 1000 test_knapsack)"
    by (simp add: plan_hot_candidates_ok_iff [OF from_topology_wf [OF test_fabric]] valid_candidates_def
        test_knapsack_def test_candidate_def)
  have S: "{test_candidate 2 900 800} \<subseteq> set test_knapsack" by (simp add: test_knapsack_def)
  have "canonical_owner (fabric_of [2, 5] 1000) 2 = 2"
    by (simp add: canonical_owner_def fabric_of_def owner_cpus_def numeral_2_eq_2 [symmetric])
  then show ?thesis
    using hot_plan_near_optimal [OF test_fabric plan _ S, of 2 0] plan
    by (auto simp: test_candidate_def)
qed

end
