(* ===== verification/PleHydra.thy ===== *)
theory PleHydra
  imports CacheFabric
begin

text \<open>
  PLE-Hydra tier resolution (\<open>crates/gb10x-runtime/src/ple_hydra.rs\<close>): the hierarchy built from a
  fabric and one of its plans, the tier of a key, and the simulation of a trace with its saturating
  counters. The \<open>BTreeMap\<close> of owner-hot keys is a map, the \<open>BTreeSet\<close>s are sets. The operations that
  ask the fabric for an owner could panic on an empty fabric and have results of type \<open>fault\<close>.
\<close>

section \<open>Data\<close>

datatype ple_hydra_mode = Exact | ExperimentalApproximate unicode

datatype ple_hydra_tier = OwnerCpuHot u32 | SharedCpuWarm | PageCacheWarm | NvmeCold

record ple_hydra_access =
  ac_key :: u64
  ac_tier :: ple_hydra_tier

record tier_counts =
  owner_cpu_hot_hits :: u64
  shared_cpu_warm_hits :: u64
  page_cache_warm_hits :: u64
  nvme_cold_reads :: u64

record ple_hydra_simulation =
  sim_accesses :: "ple_hydra_access list"
  sim_tier_counts :: tier_counts

datatype ple_hydra_error =
    EmptyExperimentalModeLabel
  | HotPlanFabricMismatch "u32 list" u64 "u32 list" u64
  | HotPlacementOwnerMismatch u64 u32 u32

record ple_hydra =
  hy_mode :: ple_hydra_mode
  hy_fabric :: cpu_cache_fabric
  hy_owner_hot_keys :: "u32 \<Rightarrow> u64 set option"
  hy_shared_cpu_warm_keys :: "u64 set"
  hy_page_cache_warm_keys :: "u64 set"

definition no_counts :: tier_counts where
  "no_counts = \<lparr>owner_cpu_hot_hits = 0, shared_cpu_warm_hits = 0, page_cache_warm_hits = 0,
     nvme_cold_reads = 0\<rparr>"

fun record_tier :: "tier_counts \<Rightarrow> ple_hydra_tier \<Rightarrow> tier_counts" where
  "record_tier t (OwnerCpuHot _) = t\<lparr>owner_cpu_hot_hits := saturating_add (owner_cpu_hot_hits t) 1\<rparr>"
| "record_tier t SharedCpuWarm = t\<lparr>shared_cpu_warm_hits := saturating_add (shared_cpu_warm_hits t) 1\<rparr>"
| "record_tier t PageCacheWarm = t\<lparr>page_cache_warm_hits := saturating_add (page_cache_warm_hits t) 1\<rparr>"
| "record_tier t NvmeCold = t\<lparr>nvme_cold_reads := saturating_add (nvme_cold_reads t) 1\<rparr>"

section \<open>Building a hierarchy\<close>

fun collect_hot_keys ::
    "cpu_cache_fabric \<Rightarrow> hot_cache_placement list \<Rightarrow> (u32 \<Rightarrow> u64 set option) \<Rightarrow>
      ple_hydra_error fault + (u32 \<Rightarrow> u64 set option)" where
  "collect_hot_keys f [] hot = Inr hot"
| "collect_hot_keys f (pl # pls) hot =
     bindE (owner_cpu_for_key f (hp_key pl)) (\<lambda>expected_owner_cpu.
     if hp_owner_cpu pl \<noteq> expected_owner_cpu
     then Inl (Err (HotPlacementOwnerMismatch (hp_key pl) (hp_owner_cpu pl) expected_owner_cpu))
     else collect_hot_keys f pls
       (hot(hp_owner_cpu pl \<mapsto> insert (hp_key pl)
          (case hot (hp_owner_cpu pl) of None \<Rightarrow> {} | Some keys \<Rightarrow> keys))))"

definition blank_label :: "ple_hydra_mode \<Rightarrow> bool" where
  "blank_label mode \<longleftrightarrow> (case mode of Exact \<Rightarrow> False | ExperimentalApproximate label \<Rightarrow> trim label = [])"

definition from_hot_cache_plan_with_mode ::
    "ple_hydra_mode \<Rightarrow> cpu_cache_fabric \<Rightarrow> cpu_hot_cache_plan \<Rightarrow> u64 list \<Rightarrow> u64 list \<Rightarrow>
      ple_hydra_error fault + ple_hydra" where
  "from_hot_cache_plan_with_mode mode f hot_plan shared_keys page_keys =
     (if blank_label mode then Inl (Err EmptyExperimentalModeLabel)
      else
      bindE (hot_budget_bytes_per_owner f) (\<lambda>budget.
      if hcp_owner_cpus hot_plan \<noteq> owner_cpus f \<or> hcp_budget_per_owner hot_plan \<noteq> budget
      then Inl (Err (HotPlanFabricMismatch (hcp_owner_cpus hot_plan) (hcp_budget_per_owner hot_plan)
                       (owner_cpus f) budget))
      else
      bindE (collect_hot_keys f (hcp_placements hot_plan) (\<lambda>_. None)) (\<lambda>hot.
      Inr \<lparr>hy_mode = mode, hy_fabric = f, hy_owner_hot_keys = hot,
           hy_shared_cpu_warm_keys = set shared_keys, hy_page_cache_warm_keys = set page_keys\<rparr>)))"

definition from_hot_cache_plan ::
    "cpu_cache_fabric \<Rightarrow> cpu_hot_cache_plan \<Rightarrow> u64 list \<Rightarrow> u64 list \<Rightarrow>
      ple_hydra_error fault + ple_hydra" where
  "from_hot_cache_plan = from_hot_cache_plan_with_mode Exact"

section \<open>Resolving keys\<close>

definition tier_for_key :: "ple_hydra \<Rightarrow> u64 \<Rightarrow> ple_hydra_error fault + ple_hydra_tier" where
  "tier_for_key h key =
     bindE (owner_cpu_for_key (hy_fabric h) key) (\<lambda>owner_cpu.
     if (case hy_owner_hot_keys h owner_cpu of None \<Rightarrow> False | Some keys \<Rightarrow> key \<in> keys)
     then Inr (OwnerCpuHot owner_cpu)
     else if key \<in> hy_shared_cpu_warm_keys h then Inr SharedCpuWarm
     else if key \<in> hy_page_cache_warm_keys h then Inr PageCacheWarm
     else Inr NvmeCold)"

fun simulate_keys ::
    "ple_hydra \<Rightarrow> u64 list \<Rightarrow> tier_counts \<Rightarrow>
      ple_hydra_error fault + ple_hydra_access list \<times> tier_counts" where
  "simulate_keys h [] counts = Inr ([], counts)"
| "simulate_keys h (key # keys) counts =
     bindE (tier_for_key h key) (\<lambda>tier.
     bindE (simulate_keys h keys (record_tier counts tier)) (\<lambda>(accesses, counts).
     Inr (\<lparr>ac_key = key, ac_tier = tier\<rparr> # accesses, counts)))"

definition simulate_trace :: "ple_hydra \<Rightarrow> u64 list \<Rightarrow> ple_hydra_error fault + ple_hydra_simulation" where
  "simulate_trace h keys =
     bindE (simulate_keys h keys no_counts) (\<lambda>(accesses, counts).
     Inr \<lparr>sim_accesses = accesses, sim_tier_counts = counts\<rparr>)"

section \<open>Lemmas\<close>

text \<open>The owner-hot keys of a list of placements.\<close>

definition hot_keys :: "hot_cache_placement list \<Rightarrow> u32 \<Rightarrow> u64 set" where
  "hot_keys pls cpu = hp_key ` {pl \<in> set pls. hp_owner_cpu pl = cpu}"

definition keys_at :: "(u32 \<Rightarrow> u64 set option) \<Rightarrow> u32 \<Rightarrow> u64 set" where
  "keys_at hot cpu = (case hot cpu of None \<Rightarrow> {} | Some keys \<Rightarrow> keys)"

lemma collect_hot_keys_ok_iff:
  assumes "wf_fabric f budget"
  shows "is_ok (collect_hot_keys f pls hot) \<longleftrightarrow>
    (\<forall>pl \<in> set pls. hp_owner_cpu pl = canonical_owner f (hp_key pl))"
  by (induction pls arbitrary: hot) (simp_all add: owner_cpu_for_key_eq [OF assms])

lemma collect_hot_keys_at:
  assumes "wf_fabric f budget"
  shows "collect_hot_keys f pls hot = Inr hot' \<Longrightarrow> keys_at hot' cpu = keys_at hot cpu \<union> hot_keys pls cpu"
proof (induction pls arbitrary: hot)
  case (Cons pl pls)
  let ?hot = "hot(hp_owner_cpu pl \<mapsto> insert (hp_key pl) (keys_at hot (hp_owner_cpu pl)))"
  have "collect_hot_keys f pls ?hot = Inr hot'"
    using Cons.prems by (simp add: owner_cpu_for_key_eq [OF assms] keys_at_def split: if_splits)
  then have "keys_at hot' cpu = keys_at ?hot cpu \<union> hot_keys pls cpu" by (rule Cons.IH)
  then show ?case by (auto simp: keys_at_def hot_keys_def)
qed (simp add: hot_keys_def)

lemma no_panic_collect:
  "wf_fabric f budget \<Longrightarrow> no_panic (collect_hot_keys f pls hot)"
  by (induction pls arbitrary: hot) (auto simp: owner_cpu_for_key_eq intro!: no_panic_intros)

text \<open>The tier a key has by the plan and the two warm sets.\<close>

definition reference_tier ::
    "cpu_cache_fabric \<Rightarrow> cpu_hot_cache_plan \<Rightarrow> u64 list \<Rightarrow> u64 list \<Rightarrow> u64 \<Rightarrow> ple_hydra_tier" where
  "reference_tier f plan shared_keys page_keys key =
     (if key \<in> hp_key ` set (hcp_placements plan) then OwnerCpuHot (canonical_owner f key)
      else if key \<in> set shared_keys then SharedCpuWarm
      else if key \<in> set page_keys then PageCacheWarm else NvmeCold)"

lemma from_plan_fields:
  assumes "wf_fabric f budget" and "from_hot_cache_plan_with_mode mode f plan sh pg = Inr h"
  shows "hy_fabric h = f" and "hy_shared_cpu_warm_keys h = set sh" and "hy_page_cache_warm_keys h = set pg"
    and "keys_at (hy_owner_hot_keys h) cpu = hot_keys (hcp_placements plan) cpu"
    and "\<forall>pl \<in> set (hcp_placements plan). hp_owner_cpu pl = canonical_owner f (hp_key pl)"
    and "\<not> blank_label mode" and "hcp_owner_cpus plan = owner_cpus f" and "hcp_budget_per_owner plan = budget"
proof -
  obtain hot where hot: "collect_hot_keys f (hcp_placements plan) (\<lambda>_. None) = Inr hot"
    "h = \<lparr>hy_mode = mode, hy_fabric = f, hy_owner_hot_keys = hot,
          hy_shared_cpu_warm_keys = set sh, hy_page_cache_warm_keys = set pg\<rparr>"
    using assms(2) by (auto simp: from_hot_cache_plan_with_mode_def result_simps split: if_splits)
  then show "hy_fabric h = f" "hy_shared_cpu_warm_keys h = set sh" "hy_page_cache_warm_keys h = set pg"
    by simp_all
  show "keys_at (hy_owner_hot_keys h) cpu = hot_keys (hcp_placements plan) cpu"
    using collect_hot_keys_at [OF assms(1) hot(1), of cpu] by (simp add: hot(2) keys_at_def)
  show "\<forall>pl \<in> set (hcp_placements plan). hp_owner_cpu pl = canonical_owner f (hp_key pl)"
    using collect_hot_keys_ok_iff [OF assms(1), of "hcp_placements plan" "\<lambda>_. None"] hot(1) by simp
  show "\<not> blank_label mode" "hcp_owner_cpus plan = owner_cpus f" "hcp_budget_per_owner plan = budget"
    using assms(2) by (auto simp: from_hot_cache_plan_with_mode_def wf_fabric_owners(4) [OF assms(1)]
        split: if_splits)
qed

lemma tier_for_key_eq:
  assumes "wf_fabric f budget" and "from_hot_cache_plan_with_mode mode f plan sh pg = Inr h"
  shows "tier_for_key h key = Inr (reference_tier f plan sh pg key)"
proof -
  note fields = from_plan_fields [OF assms]
  have "(case hy_owner_hot_keys h (canonical_owner f key) of None \<Rightarrow> False | Some keys \<Rightarrow> key \<in> keys)
      \<longleftrightarrow> key \<in> keys_at (hy_owner_hot_keys h) (canonical_owner f key)"
    by (simp add: keys_at_def split: option.split)
  also have "\<dots> \<longleftrightarrow> key \<in> hp_key ` set (hcp_placements plan)"
    using fields(5) by (auto simp: fields(4) hot_keys_def)
  finally show ?thesis
    using fields(1-3)
    by (simp add: tier_for_key_def owner_cpu_for_key_eq [OF assms(1)] reference_tier_def)
qed

text \<open>Counters do not saturate on traces of fewer than \<open>2^64\<close> keys.\<close>

definition counts_of :: "ple_hydra_tier list \<Rightarrow> tier_counts \<Rightarrow> bool" where
  "counts_of tiers t \<longleftrightarrow>
     unat (owner_cpu_hot_hits t) = length (filter (\<lambda>x. \<exists>cpu. x = OwnerCpuHot cpu) tiers) \<and>
     unat (shared_cpu_warm_hits t) = length (filter (\<lambda>x. x = SharedCpuWarm) tiers) \<and>
     unat (page_cache_warm_hits t) = length (filter (\<lambda>x. x = PageCacheWarm) tiers) \<and>
     unat (nvme_cold_reads t) = length (filter (\<lambda>x. x = NvmeCold) tiers)"

lemma unat_count_up:
  "unat (c :: u64) \<le> n \<Longrightarrow> n < 18446744073709551615 \<Longrightarrow> unat (saturating_add c 1) = Suc (unat c)"
  using unat_add_exact [of c 1] by (simp add: saturating_add_def)

lemma record_tier_counts:
  assumes "counts_of tiers t" and "length tiers < 18446744073709551615"
  shows "counts_of (tiers @ [tier]) (record_tier t tier)"
proof -
  have le: "length (filter P tiers) \<le> length tiers" for P by (rule length_filter_le)
  show ?thesis
    using assms unat_count_up [OF _ assms(2)] le
    by (cases tier) (simp_all add: counts_of_def)
qed

lemma simulate_keys_eq:
  assumes "\<And>key. tier_for_key h key = Inr (tier key)"
  shows "counts_of seen t \<Longrightarrow> length seen + length keys < 2 ^ 64 \<Longrightarrow>
    \<exists>t'. simulate_keys h keys t = Inr (map (\<lambda>key. \<lparr>ac_key = key, ac_tier = tier key\<rparr>) keys, t') \<and>
      counts_of (seen @ map tier keys) t'"
proof (induction keys arbitrary: seen t)
  case (Cons key keys)
  have "counts_of (seen @ [tier key]) (record_tier t (tier key))"
    using Cons.prems by (intro record_tier_counts) simp_all
  from Cons.IH [OF this] Cons.prems(2) obtain t' where
    "simulate_keys h keys (record_tier t (tier key))
       = Inr (map (\<lambda>key. \<lparr>ac_key = key, ac_tier = tier key\<rparr>) keys, t')"
    "counts_of (seen @ tier key # map tier keys) t'"
    by auto
  then show ?case by (simp add: assms)
qed simp

lemma owner_hits:
  assumes "wf_fabric f budget"
  shows "length (filter (\<lambda>x. \<exists>cpu. x = OwnerCpuHot cpu) (map (reference_tier f plan sh pg) keys)) =
    (\<Sum>cpu\<leftarrow>owner_cpus f. length (filter (\<lambda>key. reference_tier f plan sh pg key = OwnerCpuHot cpu) keys))"
proof -
  let ?hot = "\<lambda>key. key \<in> hp_key ` set (hcp_placements plan)"
  have "(\<lambda>key. \<exists>cpu. reference_tier f plan sh pg key = OwnerCpuHot cpu) = ?hot"
    "(\<lambda>key. reference_tier f plan sh pg key = OwnerCpuHot cpu)
       = (\<lambda>key. ?hot key \<and> canonical_owner f key = cpu)" for cpu
    by (auto simp: reference_tier_def fun_eq_iff)
  then show ?thesis
    using fabric.count_by_owner [OF exI [of "wf_fabric f", OF assms], of ?hot keys]
    by (simp add: filter_map comp_def)
qed

lemma from_plan_ok_iff:
  assumes "wf_fabric f budget"
  shows "is_ok (from_hot_cache_plan_with_mode mode f plan sh pg) \<longleftrightarrow>
    \<not> blank_label mode \<and> hcp_owner_cpus plan = owner_cpus f \<and> hcp_budget_per_owner plan = budget \<and>
    (\<forall>pl \<in> set (hcp_placements plan). hp_owner_cpu pl = canonical_owner f (hp_key pl))"
  using collect_hot_keys_ok_iff [OF assms, of "hcp_placements plan" "\<lambda>_. None"]
  by (cases "collect_hot_keys f (hcp_placements plan) (\<lambda>_. None)")
     (simp_all add: from_hot_cache_plan_with_mode_def wf_fabric_owners(4) [OF assms])

text \<open>A plan of the fabric itself fits it.\<close>

lemma hierarchy_of_own_plan:
  assumes "wf_fabric f budget" and "plan_hot_candidates f cs = Inr plan"
  shows "is_ok (from_hot_cache_plan f plan sh pg)"
proof -
  have plan: "plan = plan_of f budget cs"
    using assms(2) by (simp add: plan_hot_candidates_ok_iff [OF assms(1)])
  have "hp_owner_cpu pl = canonical_owner f (hp_key pl)" if "pl \<in> set (hcp_placements plan)" for pl
    using that owner_plan_placements by (fastforce simp: plan plan_of_placement_iff placed_def)
  moreover have "hcp_owner_cpus plan = owner_cpus f" "hcp_budget_per_owner plan = budget"
    by (simp_all add: plan plan_of_def)
  ultimately show ?thesis
    unfolding from_hot_cache_plan_def from_plan_ok_iff [OF assms(1)] by (simp add: blank_label_def)
qed

section \<open>Properties\<close>

text \<open>
  A hierarchy is built exactly when an experimental mode has a label that is not blank, the plan
  has the owners and the budget of the fabric, and every placement is at the canonical owner of its
  key; building never panics. So a plan of the fabric itself is always accepted, and a plan of
  another fabric never.
\<close>

theorem hydra_accepts_exactly:
  assumes "from_topology caches cpus budget = Inr f"
  shows "(is_ok (from_hot_cache_plan_with_mode mode f plan shared_keys page_keys) \<longleftrightarrow>
      \<not> blank_label mode \<and> hcp_owner_cpus plan = owner_cpus f \<and> hcp_budget_per_owner plan = budget \<and>
      (\<forall>pl \<in> set (hcp_placements plan). hp_owner_cpu pl = canonical_owner f (hp_key pl))) \<and>
    from_hot_cache_plan_with_mode mode f plan shared_keys page_keys \<noteq> Inl Panic \<and>
    (plan_hot_candidates f cs = Inr plan \<longrightarrow>
       is_ok (from_hot_cache_plan f plan shared_keys page_keys))"
proof -
  have wf: "wf_fabric f budget" by (rule from_topology_wf [OF assms])
  have "no_panic (from_hot_cache_plan_with_mode mode f plan shared_keys page_keys)"
    unfolding from_hot_cache_plan_with_mode_def wf_fabric_owners(4) [OF wf]
    by (intro no_panic_intros no_panic_collect [OF wf])
  then show ?thesis
    using from_plan_ok_iff [OF wf] hierarchy_of_own_plan [OF wf] by (auto simp: no_panic_def)
qed

text \<open>
  The tier of a key is the highest that holds it: its canonical owner when the plan placed the
  key, then the shared warm tier, then the page cache, and the NVMe tier otherwise. Resolving never
  fails and never panics.
\<close>

theorem tier_for_key_exact:
  assumes "from_topology caches cpus budget = Inr f"
    and "from_hot_cache_plan_with_mode mode f plan shared_keys page_keys = Inr h"
  shows "tier_for_key h key = Inr
    (if key \<in> hp_key ` set (hcp_placements plan) then OwnerCpuHot (canonical_owner f key)
     else if key \<in> set shared_keys then SharedCpuWarm
     else if key \<in> set page_keys then PageCacheWarm else NvmeCold)"
  using tier_for_key_eq [OF from_topology_wf [OF assms(1)] assms(2)] by (simp add: reference_tier_def)

text \<open>
  C28. A simulation records one access per key, in order, with the tier of the key, and its four
  counters are the numbers of accesses of each tier and add up to the length of the trace. The
  owner-hot hits are those at the owner CPUs of the fabric, added up.
\<close>

theorem simulate_trace_exact:
  assumes "from_topology caches cpus budget = Inr f"
    and "from_hot_cache_plan_with_mode mode f plan shared_keys page_keys = Inr h"
    and "length keys < 2 ^ 64"
  shows "\<exists>counts. simulate_trace h keys = Inr
      \<lparr>sim_accesses = map (\<lambda>key. \<lparr>ac_key = key, ac_tier = reference_tier f plan shared_keys page_keys key\<rparr>) keys,
       sim_tier_counts = counts\<rparr> \<and>
    counts_of (map (reference_tier f plan shared_keys page_keys) keys) counts \<and>
    unat (owner_cpu_hot_hits counts) + unat (shared_cpu_warm_hits counts) +
      unat (page_cache_warm_hits counts) + unat (nvme_cold_reads counts) = length keys \<and>
    unat (owner_cpu_hot_hits counts) =
      (\<Sum>cpu\<leftarrow>owner_cpus f. length (filter (\<lambda>key.
         reference_tier f plan shared_keys page_keys key = OwnerCpuHot cpu) keys))"
proof -
  have total: "length (filter (\<lambda>x. \<exists>cpu. x = OwnerCpuHot cpu) tiers) + length (filter (\<lambda>x. x = SharedCpuWarm) tiers)
      + length (filter (\<lambda>x. x = PageCacheWarm) tiers) + length (filter (\<lambda>x. x = NvmeCold) tiers)
      = length tiers" for tiers
  proof (induction tiers)
    case (Cons tier tiers)
    then show ?case by (cases tier) simp_all
  qed simp
  have "counts_of [] no_counts" by (simp add: counts_of_def no_counts_def)
  from simulate_keys_eq [OF tier_for_key_eq [OF from_topology_wf [OF assms(1)] assms(2)] this, of keys] assms(3)
  obtain t where "simulate_keys h keys no_counts = Inr
      (map (\<lambda>key. \<lparr>ac_key = key, ac_tier = reference_tier f plan shared_keys page_keys key\<rparr>) keys, t)"
    "counts_of (map (reference_tier f plan shared_keys page_keys) keys) t"
    by auto
  then show ?thesis
    using total [of "map (reference_tier f plan shared_keys page_keys) keys"]
      owner_hits [OF from_topology_wf [OF assms(1)], of plan shared_keys page_keys keys]
    by (simp add: simulate_trace_def counts_of_def)
qed

section \<open>A small hierarchy\<close>

definition test_fabric_value :: cpu_cache_fabric where
  "test_fabric_value = fabric_of [2, 5] 1000"

definition test_hot_plan :: cpu_hot_cache_plan where
  "test_hot_plan = plan_of test_fabric_value 1000 test_candidates"

lemma test_fabric_value: "from_topology test_caches [5, 2] 1000 = Inr test_fabric_value"
  unfolding test_fabric_value_def by (rule test_fabric)

lemma test_hot_plan: "plan_hot_candidates test_fabric_value test_candidates = Inr test_hot_plan"
  unfolding test_fabric_value_def test_hot_plan_def by (rule test_fabric_plan)

lemma test_hot_keys: "hp_key ` set (hcp_placements test_hot_plan) = {3, 6}"
  by (simp add: test_hot_plan_def test_fabric_value_def plan_of_def owner_plan_def owner_cpus_def
      fabric_of_def canonical_owner_def test_candidates_def test_candidate_def compare_candidates_def cmp_def
      density_def placed_def reserve_Cons numeral_2_eq_2 [symmetric]) auto

theorem hydra_accepts_exactly_witness:
  "is_ok (from_hot_cache_plan test_fabric_value test_hot_plan [7] [8]) \<and>
   \<not> is_ok (from_hot_cache_plan_with_mode (ExperimentalApproximate [32, 9]) test_fabric_value test_hot_plan [7] [8])"
  using hydra_accepts_exactly [OF test_fabric_value, of Exact test_hot_plan "[7]" "[8]" test_candidates]
    hydra_accepts_exactly [OF test_fabric_value, of "ExperimentalApproximate [32, 9]" test_hot_plan "[7]" "[8]"]
    test_hot_plan
  by (simp add: blank_label_def trim_empty_iff is_whitespace_def)

lemma test_hydra:
  "\<exists>h. from_hot_cache_plan_with_mode Exact test_fabric_value test_hot_plan [7] [8] = Inr h"
  using hierarchy_of_own_plan [OF from_topology_wf [OF test_fabric_value] test_hot_plan, of "[7]" "[8]"]
  by (simp add: from_hot_cache_plan_def is_ok_iff)

theorem tier_for_key_exact_witness:
  "\<exists>h. from_hot_cache_plan_with_mode Exact test_fabric_value test_hot_plan [7] [8] = Inr h \<and>
     tier_for_key h 7 = Inr SharedCpuWarm \<and> tier_for_key h 8 = Inr PageCacheWarm \<and>
     tier_for_key h 9 = Inr NvmeCold"
  using test_hydra tier_for_key_exact [OF test_fabric_value]
  by (auto simp: test_hot_keys)

theorem simulate_trace_exact_witness:
  "\<exists>h sim. from_hot_cache_plan_with_mode Exact test_fabric_value test_hot_plan [7] [8] = Inr h \<and>
     simulate_trace h [7, 9, 3, 7] = Inr sim \<and> map ac_key (sim_accesses sim) = [7, 9, 3, 7] \<and>
     unat (owner_cpu_hot_hits (sim_tier_counts sim)) = 1 \<and>
     unat (shared_cpu_warm_hits (sim_tier_counts sim)) = 2 \<and>
     unat (nvme_cold_reads (sim_tier_counts sim)) = 1"
proof -
  obtain h where h: "from_hot_cache_plan_with_mode Exact test_fabric_value test_hot_plan [7] [8] = Inr h"
    using test_hydra by blast
  from simulate_trace_exact [OF test_fabric_value h, of "[7, 9, 3, 7]"] show ?thesis
    using h by (auto simp: counts_of_def reference_tier_def test_hot_keys)
qed

end
