(* ===== verification/RuntimePath.thy ===== *)
theory RuntimePath
  imports SysfsCaches HotPlanQuality PleHydra
begin

text \<open>
  The runtime from the probe to the tiers: \<open>linux_probe.rs\<close>, \<open>cache_fabric.rs\<close> and \<open>ple_hydra.rs\<close> in
  sequence. What the kernel prints for a private L2 is enough for the fabric, a fabric for the plan,
  and a plan for the hierarchy.
\<close>

section \<open>Private caches as the kernel prints them\<close>

text \<open>Some index directory below \<open>cpu_root\<close> shows a data or unified L2 of \<open>kib\<close> KiB that only \<open>cpu\<close> uses.\<close>

definition shows_private_l2 :: "host_files \<Rightarrow> path \<Rightarrow> u32 \<Rightarrow> nat \<Rightarrow> bool" where
  "shows_private_l2 h cpu_root cpu kib \<longleftrightarrow>
     (\<exists>p ty line_bytes. p \<in> set (index_paths h cpu_root) \<and> ty \<noteq> Instruction \<and>
        kernel_shows h p 2 ty kib line_bytes [(cpu, cpu)])"

lemma private_l2_found:
  assumes "c \<in> set caches" and "private_l2 cpu c"
  shows "\<exists>l2. private_l2_bytes caches cpu = Some l2 \<and> cc_size_bytes c \<le> l2"
proof -
  let ?sizes = "map cc_size_bytes (filter (private_l2 cpu) caches)"
  have "cc_size_bytes c \<in> set ?sizes" using assms by simp
  then obtain l ls where sizes: "?sizes = l # ls" "cc_size_bytes c \<in> set (l # ls)"
    by (metis in_set_conv_decomp_first neq_Nil_conv empty_iff list.set(1))
  have "cc_size_bytes c \<le> Max (set (l # ls))" using sizes(2) by (intro Max_ge) simp_all
  then show ?thesis unfolding private_l2_bytes_def sizes(1) by (simp only: list.case Max.set_eq_fold) simp
qed

lemma shown_l2_bytes:
  assumes "read_cpu_cache_tree h cpu_root = Inr caches" and "shows_private_l2 h cpu_root cpu kib"
  shows "\<exists>l2. private_l2_bytes caches cpu = Some l2 \<and> kib * 1024 \<le> unat l2"
proof -
  from assms(2) obtain p ty line_bytes where p: "p \<in> set (index_paths h cpu_root)" "ty \<noteq> Instruction"
    "kernel_shows h p 2 ty kib line_bytes [(cpu, cpu)]"
    by (auto simp: shows_private_l2_def)
  note all = read_cpu_cache_tree_sound(4) [OF assms(1)]
  obtain c where c: "c \<in> set caches" "read_cache_object h p = Inr c" using p(1) all by (metis image_iff)
  note shown = read_shown_cache [OF p(3), unfolded c(2)]
  have fits: "kib * 1024 < 2 ^ 64" using shown by (simp split: if_splits)
  then have "unat (word_of_nat (kib * 1024) :: u64) = kib * 1024" by (intro unat_of_nat_u64) simp
  moreover have "cc_size_bytes c = word_of_nat (kib * 1024)" using shown fits by (simp del: of_nat_mult)
  ultimately have "unat (cc_size_bytes c) = kib * 1024" by simp
  moreover have "private_l2 cpu c"
    using shown fits p(2) by (cases ty) (simp_all add: private_l2_def)
  ultimately show ?thesis using private_l2_found [OF c(1), of cpu] by (auto simp: word_le_nat_alt)
qed

section \<open>From the kernel to the tiers\<close>

text \<open>
  C17. The runtime comes up on what the kernel prints. When the host was probed, the selected CPUs are
  distinct and the kernel shows for each a private L2 that holds the budget, then the fabric is
  derived; every list of candidates with distinct keys and no zero size is planned, the exact
  hierarchy is built over the plan, and every key resolves: to the hot tier exactly when it was
  placed, and then at a selected CPU that owns it.
\<close>

theorem probed_caches_serve_keys:
  assumes "probe_host_from_paths h cpu_root online cpuinfo meminfo arch release page_size = Inr p"
    and "cpus \<noteq> []" and "distinct cpus"
    and "\<And>cpu. cpu \<in> set cpus \<Longrightarrow> shows_private_l2 h cpu_root cpu (l2_kib cpu) \<and> unat budget \<le> l2_kib cpu * 1024"
    and "list_all (\<lambda>c. cd_bytes c \<noteq> 0) cs" and "distinct (map cd_key cs)"
  shows "\<exists>f plan hydra. from_topology (pr_caches p) cpus budget = Inr f \<and> plan_hot_candidates f cs = Inr plan \<and>
    from_hot_cache_plan f plan shared_keys page_keys = Inr hydra \<and>
    (\<forall>key. \<exists>tier. tier_for_key hydra key = Inr tier \<and>
      ((\<exists>cpu. tier = OwnerCpuHot cpu) \<longleftrightarrow> key \<in> hp_key ` set (hcp_placements plan)) \<and>
      (\<forall>cpu. tier = OwnerCpuHot cpu \<longrightarrow> cpu \<in> set cpus \<and> owner_cpu_for_key f key = (Inr cpu :: cache_fabric_error fault + u32)))"
proof -
  have tree: "read_cpu_cache_tree h cpu_root = Inr (pr_caches p)"
    using assms(1) by (auto simp: probe_host_from_paths_def result_simps)
  define f where "f = fabric_of (sort cpus) budget"
  have "\<exists>l2. private_l2_bytes (pr_caches p) cpu = Some l2 \<and> budget \<le> l2" if "cpu \<in> set cpus" for cpu
    using shown_l2_bytes [OF tree, of cpu "l2_kib cpu"] assms(4) [OF that] by (auto simp: word_le_nat_alt)
  then have f: "from_topology (pr_caches p) cpus budget = Inr f"
    using assms(2,3) by (simp add: from_topology_ok_iff f_def)
  note wf = from_topology_wf [OF f]
  have owners: "set (owner_cpus f) = set cpus" by (simp add: f_def fabric_of_def owner_cpus_def comp_def)
  define plan where "plan = plan_of f budget cs"
  have plan: "plan_hot_candidates f cs = Inr plan"
    using assms(5,6) by (simp add: plan_hot_candidates_ok_iff [OF wf] valid_candidates_def plan_def)
  obtain hydra where hydra: "from_hot_cache_plan f plan shared_keys page_keys = Inr hydra"
    using hierarchy_of_own_plan [OF wf plan] by (auto simp: is_ok_iff)
  have "\<exists>tier. tier_for_key hydra key = Inr tier \<and>
      ((\<exists>cpu. tier = OwnerCpuHot cpu) \<longleftrightarrow> key \<in> hp_key ` set (hcp_placements plan)) \<and>
      (\<forall>cpu. tier = OwnerCpuHot cpu \<longrightarrow> cpu \<in> set cpus \<and> owner_cpu_for_key f key = (Inr cpu :: cache_fabric_error fault + u32))"
    for key
    using tier_for_key_eq [OF wf hydra [unfolded from_hot_cache_plan_def], of key]
      canonical_owner_in [OF wf, of key] owner_cpu_for_key_eq [OF wf, of key]
    by (auto simp: reference_tier_def owners)
  then show ?thesis using f plan hydra by blast
qed

lemma test_sysfs_probed:
  "\<exists>p. probe_host_from_paths (test_sysfs [48, 49]) [RootDir] (join [RootDir] ''online'') (join [RootDir] ''cpuinfo'')
     (join [RootDir] ''meminfo'') (ascii ''aarch64'') [54] 4096 = Inr p"
proof -
  have "read_trimmed (test_sysfs [48, 49]) (join [RootDir] name) = read_trimmed test_host (join [RootDir] name)"
    for name
    by (simp add: read_trimmed_def test_sysfs_def join_def)
  moreover have "trim (ascii ''aarch64'') \<noteq> []" "trim [54] \<noteq> []" by (simp_all add: text_eval)
  moreover obtain caches where "read_cpu_cache_tree (test_sysfs [48, 49]) [RootDir] = Inr caches"
    using test_sysfs_read [of "[48, 49]"] by auto
  ultimately show ?thesis
    by (simp add: probe_host_from_paths_def read_trimmed_test parse_test_list parse_test_model parse_test_memory)
qed

theorem probed_caches_serve_keys_witness:
  "\<exists>(p :: host_probe) f plan hydra. from_topology (pr_caches p) [1, 0] 1000000 = Inr f \<and>
     plan_hot_candidates f test_candidates = Inr plan \<and> from_hot_cache_plan f plan [7] [8] = Inr hydra \<and>
     is_ok (tier_for_key hydra 9)"
proof -
  obtain p where p: "probe_host_from_paths (test_sysfs [48, 49]) [RootDir] (join [RootDir] ''online'')
      (join [RootDir] ''cpuinfo'') (join [RootDir] ''meminfo'') (ascii ''aarch64'') [54] 4096 = Inr p"
    using test_sysfs_probed by blast
  have "kernel_shows (test_sysfs [48, 49]) (test_index 48) 2 Unified 2048 64 [(0, 0)]"
    "kernel_shows (test_sysfs [48, 49]) (test_index 49) 2 Unified 2048 64 [(1, 1)]"
    using test_sysfs_shows [of "[48, 49]" 48] test_sysfs_shows [of "[48, 49]" 49] by simp_all
  then have "shows_private_l2 (test_sysfs [48, 49]) [RootDir] cpu 2048 \<and> unat (1000000 :: u64) \<le> 2048 * 1024"
    if "cpu \<in> set [1, 0]" for cpu
    using that unfolding shows_private_l2_def by (auto simp: test_sysfs_paths)
  moreover have "list_all (\<lambda>c. cd_bytes c \<noteq> 0) test_candidates" "distinct (map cd_key test_candidates)"
    by (simp_all add: test_candidates_def test_candidate_def)
  moreover have "[1, 0 :: u32] \<noteq> []" "distinct [1, 0 :: u32]" by simp_all
  ultimately
  obtain f plan hydra tier where "from_topology (pr_caches p) [1, 0] 1000000 = Inr f"
    "plan_hot_candidates f test_candidates = Inr plan" "from_hot_cache_plan f plan [7] [8] = Inr hydra"
    "tier_for_key hydra 9 = Inr tier"
    using probed_caches_serve_keys [OF p, of "[1, 0]" "\<lambda>_. 2048" 1000000 test_candidates "[7]" "[8]"] by blast
  then show ?thesis
    by (metis is_ok_simps(2))
qed

end
