(* ===== verification/Gate.thy ===== *)
theory Gate
  imports RustText
begin

text \<open>
  The fail-closed gate (\<open>crates/gb10x-runtime/src/validate.rs\<close>): \<open>validate_gb10\<close> accepts a platform
  snapshot only when every fact GB10X relies on has been discovered, and reports the first that is
  missing.
\<close>

section \<open>Model\<close>

datatype platform_error =
    Architecture unicode
  | GpuIdentity unicode
  | ComputeCapability u32 u32
  | Incomplete string

record gb10_validation =
  gv_compute_capability :: "u32 \<times> u32"
  gv_discovered_l2_bytes :: u64
  gv_discovered_persisting_l2_max_bytes :: u64
  gv_discovered_host_memory_bytes :: u64
  gv_online_cpu_count :: usize
  gv_cache_object_count :: usize

definition empty_cache_facts :: "cpu_cache \<Rightarrow> bool" where
  "empty_cache_facts cache \<longleftrightarrow>
     cc_size_bytes cache = 0 \<or> cc_line_bytes cache = 0 \<or> cc_shared_cpu_ids cache = []"

definition validate_gb10 :: "platform_snapshot \<Rightarrow> platform_error + gb10_validation" where
  "validate_gb10 snapshot =
     (let gpu = ps_gpu snapshot in
      if ps_arch snapshot \<noteq> ascii ''aarch64'' then Inl (Architecture (ps_arch snapshot))
      else if \<not> str_contains (to_ascii_uppercase (gpu_name gpu)) (ascii ''GB10'')
      then Inl (GpuIdentity (gpu_name gpu))
      else if (gpu_compute_major gpu, gpu_compute_minor gpu) \<noteq> (12, 1)
      then Inl (ComputeCapability (gpu_compute_major gpu) (gpu_compute_minor gpu))
      else if ps_online_cpus snapshot = [] then Inl (Incomplete ''online CPU list is empty'')
      else if ps_caches snapshot = [] then Inl (Incomplete ''CPU cache topology is empty'')
      else if list_ex empty_cache_facts (ps_caches snapshot)
      then Inl (Incomplete ''CPU cache entry contains zero/empty facts'')
      else if ps_mem_total_bytes snapshot = 0 then Inl (Incomplete ''host memory capacity is zero'')
      else if ps_page_size_bytes snapshot = 0 then Inl (Incomplete ''base page size is zero'')
      else if gpu_l2_bytes gpu = 0 then Inl (Incomplete ''GPU L2 capacity is zero'')
      else if gpu_total_memory_bytes gpu = 0
      then Inl (Incomplete ''GPU-visible memory capacity is zero'')
      else if gpu_l2_bytes gpu < gpu_persisting_l2_max_bytes gpu
      then Inl (Incomplete ''persisting-L2 limit exceeds total GPU L2 capacity'')
      else Inr
        \<lparr>gv_compute_capability = (12, 1),
         gv_discovered_l2_bytes = gpu_l2_bytes gpu,
         gv_discovered_persisting_l2_max_bytes = gpu_persisting_l2_max_bytes gpu,
         gv_discovered_host_memory_bytes = ps_mem_total_bytes snapshot,
         gv_online_cpu_count = word_of_nat (length (ps_online_cpus snapshot)),
         gv_cache_object_count = word_of_nat (length (ps_caches snapshot))\<rparr>)"

section \<open>The gate as a property of the snapshot\<close>

text \<open>A GPU name identifies a GB10 when \<open>GB10\<close> occurs in it, whatever the case of its letters.\<close>

definition same_letter :: "u32 \<Rightarrow> u32 \<Rightarrow> bool" where
  "same_letter upper c \<longleftrightarrow> c = upper \<or> 65 \<le> upper \<and> upper \<le> 90 \<and> c = upper + 32"

definition names_gb10 :: "unicode \<Rightarrow> bool" where
  "names_gb10 name \<longleftrightarrow>
     (\<exists>before found after. name = before @ found @ after \<and> list_all2 same_letter (ascii ''GB10'') found)"

lemma str_contains_iff: "str_contains s needle \<longleftrightarrow> (\<exists>before after. s = before @ needle @ after)"
proof (induction s)
  case (Cons c s)
  have "(\<exists>before after. c # s = before @ needle @ after) \<longleftrightarrow>
      prefix needle (c # s) \<or> (\<exists>before after. s = before @ needle @ after)"
    unfolding prefix_def by (auto simp: Cons_eq_append_conv)
  then show ?case using Cons.IH by simp
qed simp

lemma ascii_uppercase_letters:
  "ascii_uppercase c = 71 \<longleftrightarrow> c = 71 \<or> c = 103"
  "ascii_uppercase c = 66 \<longleftrightarrow> c = 66 \<or> c = 98"
  "ascii_uppercase c = 49 \<longleftrightarrow> c = 49"
  "ascii_uppercase c = 48 \<longleftrightarrow> c = 48"
  by (auto simp: ascii_uppercase_def word_le_nat_alt word_unat_eq_iff unat_sub)

lemma ascii_uppercase_eq_iff:
  "upper \<in> {71, 66, 49, 48} \<Longrightarrow> ascii_uppercase c = upper \<longleftrightarrow> same_letter upper c"
  by (auto simp: ascii_uppercase_letters same_letter_def)

lemma gb10_letters: "ascii ''GB10'' = [71, 66, 49, 48]"
  by (simp add: ascii_def)

lemma map_contains_iff:
  "(\<exists>before after. map f s = before @ needle @ after) \<longleftrightarrow>
     (\<exists>before found after. s = before @ found @ after \<and> map f found = needle)"
proof
  assume "\<exists>before after. map f s = before @ needle @ after"
  then obtain before after where "map f s = before @ needle @ after" by blast
  then obtain us vs where "s = us @ vs" "map f vs = needle @ after"
    by (metis map_eq_append_conv)
  moreover from this(2) obtain found rest where "vs = found @ rest" "map f found = needle"
    by (metis map_eq_append_conv)
  ultimately show "\<exists>before found after. s = before @ found @ after \<and> map f found = needle" by blast
qed (metis map_append)

lemma uppercase_names_gb10:
  "str_contains (to_ascii_uppercase name) (ascii ''GB10'') \<longleftrightarrow> names_gb10 name"
proof -
  have "map ascii_uppercase found = ascii ''GB10'' \<longleftrightarrow> list_all2 same_letter (ascii ''GB10'') found" for found
    by (auto simp: gb10_letters map_eq_Cons_conv list_all2_Cons1 ascii_uppercase_eq_iff)
  then show ?thesis
    by (simp add: str_contains_iff to_ascii_uppercase_def names_gb10_def map_contains_iff)
qed

text \<open>
  What the runtime needs: a machine of the one supported kind, and the facts a probe discovers about
  it. Each of these stands beside the words the gate reports it with, in the order of the checks.
\<close>

definition gb10_identity :: "platform_snapshot \<Rightarrow> bool" where
  "gb10_identity s \<longleftrightarrow> ps_arch s = ascii ''aarch64'' \<and> names_gb10 (gpu_name (ps_gpu s)) \<and>
     gpu_compute_major (ps_gpu s) = 12 \<and> gpu_compute_minor (ps_gpu s) = 1"

definition gb10_requirements :: "platform_snapshot \<Rightarrow> (string \<times> bool) list" where
  "gb10_requirements s =
     [(''online CPU list is empty'', ps_online_cpus s \<noteq> []),
      (''CPU cache topology is empty'', ps_caches s \<noteq> []),
      (''CPU cache entry contains zero/empty facts'',
        \<forall>c \<in> set (ps_caches s).
          0 < cc_size_bytes c \<and> 0 < cc_line_bytes c \<and> cc_shared_cpu_ids c \<noteq> []),
      (''host memory capacity is zero'', 0 < ps_mem_total_bytes s),
      (''base page size is zero'', 0 < ps_page_size_bytes s),
      (''GPU L2 capacity is zero'', 0 < gpu_l2_bytes (ps_gpu s)),
      (''GPU-visible memory capacity is zero'', 0 < gpu_total_memory_bytes (ps_gpu s)),
      (''persisting-L2 limit exceeds total GPU L2 capacity'',
        gpu_persisting_l2_max_bytes (ps_gpu s) \<le> gpu_l2_bytes (ps_gpu s))]"

definition gb10_facts :: "platform_snapshot \<Rightarrow> bool" where
  "gb10_facts s \<longleftrightarrow> gb10_identity s \<and> list_all snd (gb10_requirements s)"

lemmas gb10_defs = gb10_facts_def gb10_identity_def gb10_requirements_def

lemma empty_caches_iff:
  "list_ex empty_cache_facts caches \<longleftrightarrow>
     \<not> (\<forall>c \<in> set caches. cc_size_bytes c \<noteq> 0 \<and> cc_line_bytes c \<noteq> 0 \<and> cc_shared_cpu_ids c \<noteq> [])"
  by (auto simp: list_ex_iff empty_cache_facts_def)

lemma validate_gb10_ok_iff:
  "validate_gb10 s = Inr v \<longleftrightarrow> gb10_facts s \<and>
     v = \<lparr>gv_compute_capability = (12, 1),
       gv_discovered_l2_bytes = gpu_l2_bytes (ps_gpu s),
       gv_discovered_persisting_l2_max_bytes = gpu_persisting_l2_max_bytes (ps_gpu s),
       gv_discovered_host_memory_bytes = ps_mem_total_bytes s,
       gv_online_cpu_count = word_of_nat (length (ps_online_cpus s)),
       gv_cache_object_count = word_of_nat (length (ps_caches s))\<rparr>"
  by (auto simp: validate_gb10_def Let_def result_simps gb10_defs empty_caches_iff uppercase_names_gb10
      not_less word_gt_0)

text \<open>
  What an error says of the snapshot: the value it quotes is the wrong one, or the requirement with
  its words is false; and everything checked before it holds.
\<close>

fun refuted_by :: "platform_error \<Rightarrow> platform_snapshot \<Rightarrow> bool" where
  "refuted_by (Architecture arch) s \<longleftrightarrow> arch = ps_arch s \<and> arch \<noteq> ascii ''aarch64''"
| "refuted_by (GpuIdentity name) s \<longleftrightarrow>
     ps_arch s = ascii ''aarch64'' \<and> name = gpu_name (ps_gpu s) \<and> \<not> names_gb10 name"
| "refuted_by (ComputeCapability major minor) s \<longleftrightarrow>
     ps_arch s = ascii ''aarch64'' \<and> names_gb10 (gpu_name (ps_gpu s)) \<and>
     major = gpu_compute_major (ps_gpu s) \<and> minor = gpu_compute_minor (ps_gpu s) \<and>
     (major, minor) \<noteq> (12, 1)"
| "refuted_by (Incomplete reason) s \<longleftrightarrow> gb10_identity s \<and>
     (\<exists>before after. gb10_requirements s = before @ (reason, False) # after \<and> list_all snd before)"

lemma first_failing_iff:
  "(\<exists>before after. rs = before @ (reason, False) # after \<and> list_all snd before) \<longleftrightarrow>
     find (\<lambda>(_, holds). \<not> holds) rs = Some (reason, False)" (is "?first rs \<longleftrightarrow> _")
proof (induction rs)
  case (Cons r rs)
  have "?first (r # rs) \<longleftrightarrow> r = (reason, False) \<or> snd r \<and> ?first rs"
  proof
    assume "?first (r # rs)"
    then obtain before after where "r # rs = before @ (reason, False) # after" "list_all snd before"
      by blast
    then show "r = (reason, False) \<or> snd r \<and> ?first rs" by (cases before) auto
  next
    assume "r = (reason, False) \<or> snd r \<and> ?first rs"
    then show "?first (r # rs)"
    proof
      assume "r = (reason, False)"
      then show ?thesis by (metis append_Nil list.pred_inject(1))
    next
      assume "snd r \<and> ?first rs"
      then show ?thesis by (metis append_Cons list.pred_inject(2))
    qed
  qed
  then show ?case using Cons.IH by (cases r) auto
qed simp

lemmas incomplete_iff = refuted_by.simps(4) [unfolded first_failing_iff]

lemma validate_gb10_refused: "validate_gb10 s = Inl e \<Longrightarrow> refuted_by e s"
  by (auto simp: validate_gb10_def Let_def incomplete_iff gb10_identity_def gb10_requirements_def
      empty_caches_iff uppercase_names_gb10 not_less word_gt_0 simp del: refuted_by.simps(4)
      split: if_splits)

text \<open>
  C15. The gate is fail-closed: it accepts a snapshot exactly when the host is AArch64, the GPU is a
  GB10 of compute capability 12.1 (its name holds GB10 in letters of any case) and every other fact
  is present and consistent, and then returns the discovered facts. A refusal quotes the identity
  that is wrong or, for a machine of the right identity, is worded for the first requirement that
  is false of the snapshot, all requirements before it being true.
\<close>

theorem validate_gb10_fail_closed:
  "case validate_gb10 s of
     Inl e \<Rightarrow> refuted_by e s
   | Inr v \<Rightarrow> gb10_facts s \<and>
       v = \<lparr>gv_compute_capability = (12, 1),
         gv_discovered_l2_bytes = gpu_l2_bytes (ps_gpu s),
         gv_discovered_persisting_l2_max_bytes = gpu_persisting_l2_max_bytes (ps_gpu s),
         gv_discovered_host_memory_bytes = ps_mem_total_bytes s,
         gv_online_cpu_count = word_of_nat (length (ps_online_cpus s)),
         gv_cache_object_count = word_of_nat (length (ps_caches s))\<rparr>"
  using validate_gb10_refused validate_gb10_ok_iff by (auto split: sum.splits)

text \<open>A snapshot the gate accepts, and the fact that no error refutes an accepted one.\<close>

definition test_gpu :: gpu_snapshot where
  "test_gpu = \<lparr>gpu_name = ascii ''NVIDIA gb10 rev A'', gpu_compute_major = 12, gpu_compute_minor = 1,
     gpu_l2_bytes = 25165824, gpu_persisting_l2_max_bytes = 0, gpu_total_memory_bytes = 128000000000\<rparr>"

definition test_snapshot :: platform_snapshot where
  "test_snapshot = \<lparr>ps_arch = ascii ''aarch64'', ps_kernel_release = ascii ''6.11'', ps_cpu_model = [],
     ps_online_cpus = [0],
     ps_caches = [\<lparr>cc_level = 2, cc_type = Unified, cc_size_bytes = 2097152, cc_line_bytes = 64,
       cc_shared_cpu_ids = [0]\<rparr>],
     ps_gpu = test_gpu, ps_mem_total_bytes = 128000000000, ps_page_size_bytes = 4096\<rparr>"

lemma gb10_facts_not_refuted: "gb10_facts s \<Longrightarrow> \<not> refuted_by e s"
  by (cases e) (auto simp: gb10_facts_def gb10_identity_def)

lemma test_snapshot_accepted: "is_ok (validate_gb10 test_snapshot)"
  by (simp add: validate_gb10_def test_snapshot_def test_gpu_def empty_cache_facts_def ascii_def
      to_ascii_uppercase_def ascii_uppercase_def Let_def)

end
