(* ===== verification/ProbeTool.thy ===== *)
theory ProbeTool
  imports HostProbe
begin

text \<open>
  The command \<open>gb10x-probe\<close> (\<open>crates/gb10x-tools/src/probe.rs\<close> and \<open>src/bin/gb10x-probe.rs\<close>): it
  probes the host and prints the result as JSON. \<open>clap\<close> accepts the command line only with \<open>--json\<close>;
  the JSON printer is an argument. What the process leaves behind is the text on its standard output
  and the error its \<open>main\<close> prints, if any, before it exits with 1.
\<close>

datatype probe_tool_error = ToolProbe probe_error | ToolRender string

record probe_outcome =
  po_stdout :: unicode
  po_error :: "probe_tool_error option"
  po_exit :: nat

definition render_host_probe_json :: "(host_probe \<Rightarrow> string + unicode) \<Rightarrow> host_probe \<Rightarrow> string + unicode" where
  "render_host_probe_json to_string_pretty probe = to_string_pretty probe"

definition run_probe ::
    "(host_probe \<Rightarrow> string + unicode) \<Rightarrow> host_files \<Rightarrow> unicode \<Rightarrow> int \<Rightarrow> probe_tool_error + unicode" where
  "run_probe to_string_pretty h arch raw_page_size =
     bindE (map_err ToolProbe (probe_host h arch raw_page_size)) (\<lambda>probe.
     bindE (map_err ToolRender (render_host_probe_json to_string_pretty probe)) (\<lambda>out.
     Inr (out @ [10])))"

definition probe_main ::
    "(host_probe \<Rightarrow> string + unicode) \<Rightarrow> host_files \<Rightarrow> unicode \<Rightarrow> int \<Rightarrow> probe_outcome" where
  "probe_main to_string_pretty h arch raw_page_size =
     (case run_probe to_string_pretty h arch raw_page_size of
        Inl error \<Rightarrow> \<lparr>po_stdout = [], po_error = Some error, po_exit = 1\<rparr>
      | Inr out \<Rightarrow> \<lparr>po_stdout = out, po_error = None, po_exit = 0\<rparr>)"

lemma run_probe_ok_iff:
  "run_probe pretty h arch page = Inr out \<longleftrightarrow>
     (\<exists>p json. probe_host h arch page = Inr p \<and> pretty p = Inr json \<and> out = json @ [10])"
  by (auto simp: run_probe_def render_host_probe_json_def result_simps)

text \<open>
  Nothing reaches the standard output unless the whole host was probed: then the output is the JSON
  text of that probe and one newline, and the status is 0; otherwise an error is reported.
\<close>

theorem probe_main_prints_a_probe:
  "(po_exit (probe_main pretty h arch page) = 0 \<longleftrightarrow>
      (\<exists>p json. probe_host h arch page = Inr p \<and> pretty p = Inr json \<and>
         po_stdout (probe_main pretty h arch page) = json @ [10])) \<and>
   (po_exit (probe_main pretty h arch page) = 0 \<longleftrightarrow> po_stdout (probe_main pretty h arch page) \<noteq> []) \<and>
   (po_exit (probe_main pretty h arch page) = 0 \<longleftrightarrow> po_error (probe_main pretty h arch page) = None)"
proof (cases "run_probe pretty h arch page")
  case (Inl e)
  then have "\<not> (\<exists>p json. probe_host h arch page = Inr p \<and> pretty p = Inr json)"
    using run_probe_ok_iff [of pretty h arch page] by auto
  then show ?thesis by (auto simp: probe_main_def Inl)
next
  case (Inr out)
  then show ?thesis
    using run_probe_ok_iff [of pretty h arch page out] by (auto simp: probe_main_def)
qed

end
