(* ===== verification/Float64.thy ===== *)
theory Float64
  imports Prelude Complex_Main
begin

text \<open>
  What the program uses of Rust's \<open>f64\<close> (IEEE 754 binary64). A value is its bit pattern. The
  comparisons, the conversion from \<open>u64\<close>, the product and the rounding conversion to \<open>usize\<close> are
  written out on significands and exponents, with rounding to nearest and ties to even.
\<close>

type_synonym f64 = u64

section \<open>Floating-point bit patterns\<close>

text \<open>The exponent and mantissa fields, \<open>is_finite\<close>, \<open>is_nan\<close> and comparison with \<open>0.0\<close>.\<close>

definition f64_exponent :: "f64 \<Rightarrow> nat" where
  "f64_exponent x = unat x div 2 ^ 52 mod 2 ^ 11"

definition f64_mantissa :: "f64 \<Rightarrow> nat" where
  "f64_mantissa x = unat x mod 2 ^ 52"

definition f64_is_finite :: "f64 \<Rightarrow> bool" where
  "f64_is_finite x \<longleftrightarrow> f64_exponent x \<noteq> 2047"

definition f64_is_nan :: "f64 \<Rightarrow> bool" where
  "f64_is_nan x \<longleftrightarrow> f64_exponent x = 2047 \<and> f64_mantissa x \<noteq> 0"

definition f64_sign :: "f64 \<Rightarrow> bool" where
  "f64_sign x \<longleftrightarrow> 2 ^ 63 \<le> unat x"

definition f64_le_zero :: "f64 \<Rightarrow> bool" where
  "f64_le_zero x \<longleftrightarrow> \<not> f64_is_nan x \<and> (f64_sign x \<or> f64_exponent x = 0 \<and> f64_mantissa x = 0)"

section \<open>The number a bit pattern stands for\<close>

definition f64_value :: "f64 \<Rightarrow> real" where
  "f64_value x =
     (if f64_sign x then - 1 else 1) *
     (if f64_exponent x = 0 then real (f64_mantissa x) / 2 ^ 1074
      else real (2 ^ 52 + f64_mantissa x) * 2 ^ f64_exponent x / 2 ^ 1075)"

lemma f64_le_zero_iff:
  assumes "f64_is_finite x"
  shows "f64_le_zero x \<longleftrightarrow> f64_value x \<le> 0"
proof -
  have pos: "\<not> real (4503599627370496 + f64_mantissa x) * 2 ^ f64_exponent x \<le> 0"
    unfolding not_le by (intro mult_pos_pos) simp_all
  have "\<not> f64_is_nan x" using assms by (simp add: f64_is_nan_def f64_is_finite_def)
  moreover have "real (f64_mantissa x) / 2 ^ 1074 \<le> 0 \<longleftrightarrow> f64_mantissa x = 0"
    by (simp add: divide_le_0_iff)
  moreover have "- (real (f64_mantissa x) / 2 ^ 1074) \<le> 0" by simp
  ultimately show ?thesis
    using pos by (auto simp: f64_le_zero_def f64_value_def simp del: of_nat_add of_nat_power)
qed

section \<open>Rounding to a bit pattern\<close>

fun bit_width :: "nat \<Rightarrow> nat" where
  "bit_width n = (if n = 0 then 0 else Suc (bit_width (n div 2)))"

declare bit_width.simps [simp del]

text \<open>\<open>n / 2 ^ s\<close> rounded to the nearest integer, ties to even.\<close>

definition round_half_even :: "nat \<Rightarrow> nat \<Rightarrow> nat" where
  "round_half_even n s =
     (let q = n div 2 ^ s; r = n mod 2 ^ s
      in if 2 ^ s < 2 * r \<or> 2 ^ s = 2 * r \<and> odd q then Suc q else q)"

text \<open>
  The magnitude nearest to \<open>n * 2 powi (k - 1075)\<close>: \<open>s\<close> low bits are dropped so that 53 remain, or
  as many as the least exponent leaves; a carry moves into the exponent, and into infinity.
\<close>

definition f64_infinity_bits :: nat where
  "f64_infinity_bits = 2047 * 2 ^ 52"

definition f64_magnitude :: "nat \<Rightarrow> int \<Rightarrow> nat" where
  "f64_magnitude n k =
     (if n = 0 then 0
      else
        (let s = max (int (bit_width n) - 53) (1 - k);
             q = (if 0 \<le> s then round_half_even n (nat s) else n * 2 ^ nat (- s))
         in min f64_infinity_bits (nat (k + s - 1) * 2 ^ 52 + q)))"

definition f64_signed :: "bool \<Rightarrow> nat \<Rightarrow> f64" where
  "f64_signed negative magnitude = word_of_nat ((if negative then 2 ^ 63 else 0) + magnitude)"

text \<open>\<open>n as f64\<close> of an unsigned 64-bit integer, and of a negative one by its magnitude.\<close>

definition u64_to_f64 :: "u64 \<Rightarrow> f64" where
  "u64_to_f64 n = f64_signed False (f64_magnitude (unat n) 1075)"

definition negative_to_f64 :: "u64 \<Rightarrow> f64" where
  "negative_to_f64 n = f64_signed True (f64_magnitude (unat n) 1075)"

section \<open>Products and conversion back\<close>

definition f64_significand :: "f64 \<Rightarrow> nat" where
  "f64_significand x = (if f64_exponent x = 0 then f64_mantissa x else 2 ^ 52 + f64_mantissa x)"

definition f64_scale :: "f64 \<Rightarrow> nat" where
  "f64_scale x = (if f64_exponent x = 0 then 1 else f64_exponent x)"

definition f64_nan :: f64 where
  "f64_nan = word_of_nat (f64_infinity_bits + 2 ^ 51)"

definition f64_is_zero :: "f64 \<Rightarrow> bool" where
  "f64_is_zero x \<longleftrightarrow> f64_exponent x = 0 \<and> f64_mantissa x = 0"

definition f64_mul :: "f64 \<Rightarrow> f64 \<Rightarrow> f64" where
  "f64_mul x y =
     (let negative = (f64_sign x \<noteq> f64_sign y)
      in if f64_is_nan x \<or> f64_is_nan y \<or> (\<not> f64_is_finite x \<and> f64_is_zero y) \<or>
            (f64_is_zero x \<and> \<not> f64_is_finite y) then f64_nan
         else if \<not> f64_is_finite x \<or> \<not> f64_is_finite y then f64_signed negative f64_infinity_bits
         else f64_signed negative
           (f64_magnitude (f64_significand x * f64_significand y)
             (int (f64_scale x) + int (f64_scale y) - 1075)))"

text \<open>\<open>x.round() as usize\<close>: half away from zero, then saturating; a NaN gives zero.\<close>

definition f64_round_to_usize :: "f64 \<Rightarrow> usize" where
  "f64_round_to_usize x =
     (if f64_is_nan x \<or> f64_sign x then 0
      else if \<not> f64_is_finite x then word_max
      else
        (let n = (if 1075 \<le> f64_scale x then f64_significand x * 2 ^ (f64_scale x - 1075)
                  else (2 * f64_significand x + 2 ^ (1075 - f64_scale x)) div 2 ^ (1076 - f64_scale x))
         in if n < 2 ^ 64 then word_of_nat n else word_max))"

lemma f64_value_parts:
  "f64_value x = (if f64_sign x then - 1 else 1) * (real (f64_significand x) * 2 ^ f64_scale x / 2 ^ 1075)"
  by (simp add: f64_value_def f64_significand_def f64_scale_def)

section \<open>Conversions of exact integers\<close>

lemma bit_width_0 [simp]: "bit_width 0 = 0"
  by (simp add: bit_width.simps)

lemma bit_width_bounds: "0 < n \<Longrightarrow> n < 2 ^ bit_width n \<and> 2 ^ bit_width n \<le> 2 * n"
proof (induction n rule: bit_width.induct)
  case (1 n)
  show ?case
  proof (cases "n div 2 = 0")
    case True
    then have "n = 1" using 1 by (simp add: div_eq_0_iff)
    then show ?thesis by (simp add: bit_width.simps)
  next
    case False
    then have "n div 2 < 2 ^ bit_width (n div 2)" "2 ^ bit_width (n div 2) \<le> 2 * (n div 2)"
      using 1 by auto
    moreover have "bit_width n = Suc (bit_width (n div 2))"
      using 1 by (subst bit_width.simps) simp
    ultimately show ?thesis by auto
  qed
qed

lemma f64_signed_fields:
  assumes "e < 2048" and "m < 2 ^ 52"
  shows "f64_exponent (f64_signed False (e * 2 ^ 52 + m)) = e"
    and "f64_mantissa (f64_signed False (e * 2 ^ 52 + m)) = m"
    and "\<not> f64_sign (f64_signed False (e * 2 ^ 52 + m))"
proof -
  have "e * 2 ^ 52 \<le> 2047 * 2 ^ 52" using assms(1) by (intro mult_right_mono) auto
  then have small: "e * 2 ^ 52 + m < 2 ^ 63" using assms(2) by simp
  then have u: "unat (f64_signed False (e * 2 ^ 52 + m)) = e * 2 ^ 52 + m"
    by (simp add: f64_signed_def unat_of_nat_u64 del: of_nat_add of_nat_mult)
  show "f64_exponent (f64_signed False (e * 2 ^ 52 + m)) = e"
    unfolding f64_exponent_def u using assms by simp
  show "f64_mantissa (f64_signed False (e * 2 ^ 52 + m)) = m"
    unfolding f64_mantissa_def u using assms by simp
  show "\<not> f64_sign (f64_signed False (e * 2 ^ 52 + m))"
    unfolding f64_sign_def u using small by simp
qed

text \<open>Integers of up to 53 bits convert exactly.\<close>

lemma f64_magnitude_exact:
  assumes "0 < n" and "n < 2 ^ 53"
  defines "w \<equiv> bit_width n"
  shows "f64_magnitude n 1075 = (1022 + w) * 2 ^ 52 + (n * 2 ^ (53 - w) - 2 ^ 52)"
    and "n * 2 ^ (53 - w) - 2 ^ 52 < 2 ^ 52" and "2 ^ 52 \<le> n * 2 ^ (53 - w)" and "w \<le> 53"
proof -
  note bounds = bit_width_bounds [OF assms(1), folded w_def]
  then have "(2::nat) ^ w < 2 ^ 54" using assms(2) by simp
  then show w: "w \<le> 53" using power_less_imp_less_exp [of "2 :: nat" w 54] by simp
  have split: "(2::nat) ^ w * 2 ^ (53 - w) = 2 ^ 53"
    using w by (simp flip: power_add)
  have "n * 2 ^ (53 - w) < 2 ^ w * 2 ^ (53 - w)" using bounds by simp
  then have hi: "n * 2 ^ (53 - w) < 2 ^ 53" using split by simp
  have "2 ^ w * 2 ^ (53 - w) \<le> (2 * n) * 2 ^ (53 - w)" using bounds by simp
  then show lo: "2 ^ 52 \<le> n * 2 ^ (53 - w)" using split by simp
  show "n * 2 ^ (53 - w) - 2 ^ 52 < 2 ^ 52" using hi by simp
  have s: "max (int w - 53) (1 - 1075) = int w - 53" by simp
  have shifted: "(if 0 \<le> int w - 53 then round_half_even n (nat (int w - 53)) else n * 2 ^ nat (- (int w - 53)))
      = n * 2 ^ (53 - w)"
  proof (cases "w = 53")
    case False
    then have "nat (- (int w - 53)) = 53 - w" using w by simp
    then show ?thesis using False w by simp
  qed (simp add: round_half_even_def)
  have exponent: "nat (1075 + (int w - 53) - 1) = 1021 + w" by simp
  have "(1021 + w) * 2 ^ 52 + n * 2 ^ (53 - w) < f64_infinity_bits"
    using w hi by (simp add: f64_infinity_bits_def)
  then have "f64_magnitude n 1075 = (1021 + w) * 2 ^ 52 + n * 2 ^ (53 - w)"
    using assms(1) unfolding f64_magnitude_def w_def [symmetric] Let_def s shifted exponent by simp
  then show "f64_magnitude n 1075 = (1022 + w) * 2 ^ 52 + (n * 2 ^ (53 - w) - 2 ^ 52)"
    using lo by simp
qed

lemma u64_to_f64_exact:
  assumes "unat n < 2 ^ 53"
  shows "f64_value (u64_to_f64 n) = real (unat n) \<and> f64_is_finite (u64_to_f64 n)"
proof (cases "unat n = 0")
  case True
  then show ?thesis
    by (simp add: u64_to_f64_def f64_magnitude_def f64_signed_def f64_value_def f64_exponent_def
        f64_mantissa_def f64_is_finite_def)
next
  case False
  let ?w = "bit_width (unat n)"
  note exact = f64_magnitude_exact [of "unat n", OF _ assms]
  have w: "?w \<le> 53" and lo: "2 ^ 52 \<le> unat n * 2 ^ (53 - ?w)"
    using exact(3,4) False by simp_all
  note parts = f64_signed_fields [of "1022 + ?w", OF _ exact(2)]
  have x: "u64_to_f64 n = f64_signed False ((1022 + ?w) * 2 ^ 52 + (unat n * 2 ^ (53 - ?w) - 2 ^ 52))"
    using exact(1) False by (simp add: u64_to_f64_def)
  have "f64_value (u64_to_f64 n) = real (unat n * 2 ^ (53 - ?w)) * 2 ^ (1022 + ?w) / 2 ^ 1075"
    using parts False w lo unfolding x f64_value_def by simp
  also have "\<dots> = real (unat n) * (2 ^ (53 - ?w) * 2 ^ (1022 + ?w)) / 2 ^ 1075"
    by simp
  also have "(2 :: real) ^ (53 - ?w) * 2 ^ (1022 + ?w) = 2 ^ 1075"
    using w by (simp flip: power_add)
  finally show ?thesis
    using parts False w unfolding x by (simp add: f64_is_finite_def)
qed

end
