(* ===== verification/Telemetry.thy ===== *)
theory Telemetry
  imports Platform Bytes Float64
begin

text \<open>
  Evidence records (\<open>crates/gb10x-telemetry/src/record.rs\<close>): the record types and the validation
  that decides whether a record may serve as evidence.
\<close>

section \<open>Records\<close>

datatype execution_mode = ExactMode | ExperimentalMode unicode

datatype cache_run_state = Disabled | Cold | Warm | Reused

datatype cpu_placement =
    Unpinned unicode
  | Affinity "u32 list"
  | Isolated "u32 list" unicode

record execution_config =
  ec_command :: "unicode list"
  ec_runtime_profile :: unicode
  ec_runtime_config_digest :: unicode
  ec_cpu_placement :: cpu_placement
  ec_precision_mode :: unicode
  ec_quantization_mode :: unicode
  ec_prefix_cache_state :: cache_run_state
  ec_ple_cache_state :: cache_run_state
  ec_kv_cache_state :: cache_run_state

record hardware_state =
  hs_gpu_temperature_millicelsius :: "u32 option"
  hs_cpu_temperature_millicelsius :: "u32 option"
  hs_average_power_milliwatts :: "u64 option"
  hs_power_limit_milliwatts :: "u64 option"
  hs_gpu_clock_hz :: "u64 option"
  hs_cpu_governor :: "unicode option"

record run_identity =
  ri_git_commit :: unicode
  ri_model_id :: unicode
  ri_model_revision :: unicode
  ri_model_digest :: unicode
  ri_hardware :: unicode
  ri_mode :: execution_mode

record workload_shape =
  wl_context_tokens :: u64
  wl_prompt_tokens :: u64
  wl_output_tokens :: u64
  wl_concurrency :: u32

record stage_timings =
  st_tokenize_micros :: "u64 option"
  st_queue_micros :: "u64 option"
  st_prefill_micros :: "u64 option"
  st_decode_micros :: "u64 option"
  st_ple_hash_micros :: "u64 option"
  st_ple_lookup_micros :: "u64 option"
  st_attention_micros :: "u64 option"
  st_moe_micros :: "u64 option"
  st_speculation_verify_micros :: "u64 option"
  st_sampling_micros :: "u64 option"

record cache_counters =
  ct_ple_hot_hits :: u64
  ct_ple_cold_hits :: u64
  ct_ple_prefetched_rows :: u64
  ct_ple_prefetch_useful_rows :: u64
  ct_prefix_cache_hits :: u64
  ct_prefix_cache_misses :: u64
  ct_cold_source_bytes_read :: u64
  ct_hot_overlay_bytes_read :: u64

record performance_metrics =
  pm_prefill_tokens_per_second :: "f64 option"
  pm_decode_tokens_per_second :: "f64 option"
  pm_ttft_micros :: "u64 option"
  pm_p50_latency_micros :: "u64 option"
  pm_p95_latency_micros :: "u64 option"
  pm_unified_memory_bytes :: "u64 option"
  pm_power_watts :: "f64 option"
  pm_tokens_per_joule :: "f64 option"

record speculation_metrics =
  sm_strategy :: unicode
  sm_proposed_tokens :: u64
  sm_accepted_tokens :: u64
  sm_verified_cycles :: u64

datatype correctness_gate =
    Passed unicode u64
  | FailedGate unicode u64 unicode

record evidence_record =
  ev_identity :: run_identity
  ev_execution :: execution_config
  ev_workload :: workload_shape
  ev_stages :: stage_timings
  ev_caches :: cache_counters
  ev_performance :: performance_metrics
  ev_hardware_state :: hardware_state
  ev_speculation :: "speculation_metrics option"
  ev_correctness :: "correctness_gate option"

datatype evidence_error = Missing string | Invalid string string

section \<open>Checks of one field\<close>

definition invalid :: "string \<Rightarrow> string \<Rightarrow> evidence_error + 'a" where
  "invalid what reason = Inl (Invalid what reason)"

definition require_nonempty :: "unicode \<Rightarrow> string \<Rightarrow> evidence_error + unit" where
  "require_nonempty v what = (if trim v = [] then Inl (Missing what) else Inr ())"

definition validate_positive_f64 :: "f64 option \<Rightarrow> string \<Rightarrow> evidence_error + unit" where
  "validate_positive_f64 v what =
     (case v of
        Some x \<Rightarrow>
          if \<not> f64_is_finite x \<or> f64_le_zero x
          then invalid what ''must be finite and greater than zero'' else Inr ()
      | None \<Rightarrow> Inr ())"

definition validate_nonzero_u64 :: "u64 option \<Rightarrow> string \<Rightarrow> evidence_error + unit" where
  "validate_nonzero_u64 v what =
     (if v = Some 0 then invalid what ''must be greater than zero when present'' else Inr ())"

definition validate_cpu_list :: "u32 list \<Rightarrow> evidence_error + unit" where
  "validate_cpu_list cpus =
     (if cpus = [] then invalid ''execution.cpu_placement'' ''CPU list must be nonempty''
      else if list_ex (\<lambda>(a, b). b \<le> a) (pairs cpus)
      then invalid ''execution.cpu_placement'' ''CPU IDs must be strictly increasing and unique''
      else Inr ())"

definition has_any_measurement :: "performance_metrics \<Rightarrow> bool" where
  "has_any_measurement p \<longleftrightarrow>
     pm_prefill_tokens_per_second p \<noteq> None \<or> pm_decode_tokens_per_second p \<noteq> None \<or>
     pm_ttft_micros p \<noteq> None \<or> pm_p50_latency_micros p \<noteq> None \<or> pm_p95_latency_micros p \<noteq> None \<or>
     pm_unified_memory_bytes p \<noteq> None \<or> pm_power_watts p \<noteq> None \<or> pm_tokens_per_joule p \<noteq> None"

section \<open>The validation\<close>

definition validate_execution :: "evidence_record \<Rightarrow> evidence_error + unit" where
  "validate_execution r =
     (let x = ev_execution r in
      if ec_command x = [] then Inl (Missing ''execution.command'')
      else if list_ex (\<lambda>arg. arg = []) (ec_command x)
      then invalid ''execution.command'' ''arguments must be nonempty strings''
      else
      bindE (require_nonempty (ec_runtime_profile x) ''execution.runtime_profile'') (\<lambda>_.
      bindE (require_nonempty (ec_runtime_config_digest x) ''execution.runtime_config_digest'') (\<lambda>_.
      bindE (require_nonempty (ec_precision_mode x) ''execution.precision_mode'') (\<lambda>_.
      bindE (require_nonempty (ec_quantization_mode x) ''execution.quantization_mode'') (\<lambda>_.
      case ec_cpu_placement x of
        Unpinned reason \<Rightarrow> require_nonempty reason ''execution.cpu_placement.reason''
      | Affinity cpus \<Rightarrow> validate_cpu_list cpus
      | Isolated cpus profile \<Rightarrow>
          bindE (validate_cpu_list cpus) (\<lambda>_.
          require_nonempty profile ''execution.cpu_placement.profile''))))))"

definition validate_workload :: "evidence_record \<Rightarrow> evidence_error + unit" where
  "validate_workload r =
     (let w = ev_workload r in
      if wl_context_tokens w = 0 then invalid ''context_tokens'' ''must be nonzero''
      else if wl_prompt_tokens w = 0 then invalid ''prompt_tokens'' ''must be nonzero''
      else if wl_output_tokens w = 0 then invalid ''output_tokens'' ''must be nonzero''
      else if wl_concurrency w = 0 then invalid ''concurrency'' ''must be nonzero''
      else if wl_context_tokens w < wl_prompt_tokens w
      then invalid ''prompt_tokens'' ''cannot exceed context_tokens''
      else Inr ())"

definition validate_metrics :: "evidence_record \<Rightarrow> evidence_error + unit" where
  "validate_metrics r =
     (let p = ev_performance r in
      bindE (validate_positive_f64 (pm_prefill_tokens_per_second p) ''prefill_tokens_per_second'') (\<lambda>_.
      bindE (validate_positive_f64 (pm_decode_tokens_per_second p) ''decode_tokens_per_second'') (\<lambda>_.
      bindE (validate_positive_f64 (pm_power_watts p) ''power_watts'') (\<lambda>_.
      bindE (validate_positive_f64 (pm_tokens_per_joule p) ''tokens_per_joule'') (\<lambda>_.
      if \<not> has_any_measurement p then Inl (Missing ''performance'')
      else if (case (pm_p50_latency_micros p, pm_p95_latency_micros p) of
                 (Some p50, Some p95) \<Rightarrow> p95 < p50 | _ \<Rightarrow> False)
      then invalid ''p95_latency_micros'' ''cannot be lower than p50 latency''
      else if ct_ple_prefetched_rows (ev_caches r) < ct_ple_prefetch_useful_rows (ev_caches r)
      then invalid ''ple_prefetch_useful_rows'' ''cannot exceed prefetched row count''
      else Inr ())))))"

definition validate_hardware_state :: "evidence_record \<Rightarrow> evidence_error + unit" where
  "validate_hardware_state r =
     (let h = ev_hardware_state r in
      bindE (validate_nonzero_u64 (hs_average_power_milliwatts h)
               ''hardware_state.average_power_milliwatts'') (\<lambda>_.
      bindE (validate_nonzero_u64 (hs_power_limit_milliwatts h)
               ''hardware_state.power_limit_milliwatts'') (\<lambda>_.
      bindE (validate_nonzero_u64 (hs_gpu_clock_hz h) ''hardware_state.gpu_clock_hz'') (\<lambda>_.
      case hs_cpu_governor h of
        Some governor \<Rightarrow> require_nonempty governor ''hardware_state.cpu_governor''
      | None \<Rightarrow> Inr ()))))"

definition validate_speculation :: "evidence_record \<Rightarrow> evidence_error + unit" where
  "validate_speculation r =
     (case ev_speculation r of
        Some s \<Rightarrow>
          bindE (require_nonempty (sm_strategy s) ''speculation.strategy'') (\<lambda>_.
          if sm_proposed_tokens s = 0 then invalid ''speculation.proposed_tokens'' ''must be nonzero''
          else if sm_proposed_tokens s < sm_accepted_tokens s
          then invalid ''speculation.accepted_tokens'' ''cannot exceed proposed tokens''
          else if sm_verified_cycles s = 0
          then invalid ''speculation.verified_cycles'' ''must be nonzero''
          else Inr ())
      | None \<Rightarrow> Inr ())"

definition validate_correctness :: "evidence_record \<Rightarrow> evidence_error + unit" where
  "validate_correctness r =
     bindE (ok_or (ev_correctness r) (Missing ''correctness'')) (\<lambda>gate.
     case gate of
       Passed oracle checked_tokens \<Rightarrow>
         bindE (require_nonempty oracle ''correctness.oracle'') (\<lambda>_.
         if checked_tokens = 0 then invalid ''correctness.checked_tokens'' ''must be nonzero''
         else Inr ())
     | FailedGate oracle checked_tokens reason \<Rightarrow>
         bindE (require_nonempty oracle ''correctness.oracle'') (\<lambda>_.
         bindE (require_nonempty reason ''correctness.reason'') (\<lambda>_.
         if checked_tokens = 0 then invalid ''correctness.checked_tokens'' ''must be nonzero''
         else Inr ())))"

definition validate :: "evidence_record \<Rightarrow> evidence_error + unit" where
  "validate r =
     (let i = ev_identity r in
      bindE (require_nonempty (ri_git_commit i) ''git_commit'') (\<lambda>_.
      bindE (require_nonempty (ri_model_id i) ''model_id'') (\<lambda>_.
      bindE (require_nonempty (ri_model_revision i) ''model_revision'') (\<lambda>_.
      bindE (require_nonempty (ri_model_digest i) ''model_digest'') (\<lambda>_.
      bindE (require_nonempty (ri_hardware i) ''hardware'') (\<lambda>_.
      bindE (case ri_mode i of
               ExperimentalMode label \<Rightarrow> require_nonempty label ''experimental_mode_label''
             | ExactMode \<Rightarrow> Inr ()) (\<lambda>_.
      bindE (validate_execution r) (\<lambda>_.
      bindE (validate_workload r) (\<lambda>_.
      bindE (validate_metrics r) (\<lambda>_.
      bindE (validate_hardware_state r) (\<lambda>_.
      bindE (validate_speculation r) (\<lambda>_.
      bindE (validate_correctness r) (\<lambda>_.
      Inr ())))))))))))))"

section \<open>What is wrong with a record\<close>

text \<open>
  The fields of a record that are missing and those that are invalid, without any order among the
  checks. A text is missing when it has no character besides white space.
\<close>

definition blank :: "unicode \<Rightarrow> bool" where
  "blank s \<longleftrightarrow> list_all is_whitespace s"

definition only_if :: "bool \<Rightarrow> 'a \<Rightarrow> 'a set" where
  "only_if b x = (if b then {x} else {})"

definition blank_texts :: "(string \<times> unicode) list \<Rightarrow> string set" where
  "blank_texts texts = fst ` {(what, s) \<in> set texts. blank s}"

definition not_positive :: "f64 option \<Rightarrow> bool" where
  "not_positive v \<longleftrightarrow> (case v of None \<Rightarrow> False | Some x \<Rightarrow> \<not> (f64_is_finite x \<and> 0 < f64_value x))"

definition bad_cpu_list :: "u32 list \<Rightarrow> bool" where
  "bad_cpu_list cpus \<longleftrightarrow> \<not> (cpus \<noteq> [] \<and> sorted_wrt (<) cpus)"

definition identity_missing :: "run_identity \<Rightarrow> string set" where
  "identity_missing i = blank_texts
     ([(''git_commit'', ri_git_commit i), (''model_id'', ri_model_id i),
       (''model_revision'', ri_model_revision i), (''model_digest'', ri_model_digest i),
       (''hardware'', ri_hardware i)] @
      (case ri_mode i of ExactMode \<Rightarrow> [] | ExperimentalMode label \<Rightarrow> [(''experimental_mode_label'', label)]))"

definition execution_missing :: "execution_config \<Rightarrow> string set" where
  "execution_missing x =
     only_if (ec_command x = []) ''execution.command'' \<union>
     blank_texts
      ([(''execution.runtime_profile'', ec_runtime_profile x),
        (''execution.runtime_config_digest'', ec_runtime_config_digest x),
        (''execution.precision_mode'', ec_precision_mode x),
        (''execution.quantization_mode'', ec_quantization_mode x)] @
       (case ec_cpu_placement x of
          Unpinned reason \<Rightarrow> [(''execution.cpu_placement.reason'', reason)]
        | Affinity _ \<Rightarrow> []
        | Isolated _ profile \<Rightarrow> [(''execution.cpu_placement.profile'', profile)]))"

definition execution_invalid :: "execution_config \<Rightarrow> string set" where
  "execution_invalid x =
     only_if ([] \<in> set (ec_command x)) ''execution.command'' \<union>
     (case ec_cpu_placement x of
        Unpinned _ \<Rightarrow> {}
      | Affinity cpus \<Rightarrow> only_if (bad_cpu_list cpus) ''execution.cpu_placement''
      | Isolated cpus _ \<Rightarrow> only_if (bad_cpu_list cpus) ''execution.cpu_placement'')"

definition workload_invalid :: "workload_shape \<Rightarrow> string set" where
  "workload_invalid w =
     only_if (wl_context_tokens w = 0) ''context_tokens'' \<union>
     only_if (wl_prompt_tokens w = 0 \<or> wl_context_tokens w < wl_prompt_tokens w) ''prompt_tokens'' \<union>
     only_if (wl_output_tokens w = 0) ''output_tokens'' \<union>
     only_if (wl_concurrency w = 0) ''concurrency''"

definition latencies_swapped :: "performance_metrics \<Rightarrow> bool" where
  "latencies_swapped p \<longleftrightarrow>
     (\<exists>p50 p95. pm_p50_latency_micros p = Some p50 \<and> pm_p95_latency_micros p = Some p95 \<and> p95 < p50)"

text \<open>Every figure of the metrics, and that none was measured.\<close>

definition figures :: "performance_metrics \<Rightarrow> u64 option list" where
  "figures p =
     [pm_prefill_tokens_per_second p, pm_decode_tokens_per_second p, pm_ttft_micros p,
      pm_p50_latency_micros p, pm_p95_latency_micros p, pm_unified_memory_bytes p, pm_power_watts p,
      pm_tokens_per_joule p]"

definition unmeasured :: "performance_metrics \<Rightarrow> bool" where
  "unmeasured p \<longleftrightarrow> set (figures p) = {None}"

definition metrics_invalid :: "performance_metrics \<Rightarrow> cache_counters \<Rightarrow> string set" where
  "metrics_invalid p c =
     only_if (not_positive (pm_prefill_tokens_per_second p)) ''prefill_tokens_per_second'' \<union>
     only_if (not_positive (pm_decode_tokens_per_second p)) ''decode_tokens_per_second'' \<union>
     only_if (not_positive (pm_power_watts p)) ''power_watts'' \<union>
     only_if (not_positive (pm_tokens_per_joule p)) ''tokens_per_joule'' \<union>
     only_if (latencies_swapped p) ''p95_latency_micros'' \<union>
     only_if (ct_ple_prefetched_rows c < ct_ple_prefetch_useful_rows c) ''ple_prefetch_useful_rows''"

definition hardware_missing :: "hardware_state \<Rightarrow> string set" where
  "hardware_missing h =
     (case hs_cpu_governor h of None \<Rightarrow> {} | Some g \<Rightarrow> only_if (blank g) ''hardware_state.cpu_governor'')"

definition hardware_invalid :: "hardware_state \<Rightarrow> string set" where
  "hardware_invalid h =
     only_if (hs_average_power_milliwatts h = Some 0) ''hardware_state.average_power_milliwatts'' \<union>
     only_if (hs_power_limit_milliwatts h = Some 0) ''hardware_state.power_limit_milliwatts'' \<union>
     only_if (hs_gpu_clock_hz h = Some 0) ''hardware_state.gpu_clock_hz''"

definition speculation_missing :: "speculation_metrics option \<Rightarrow> string set" where
  "speculation_missing v =
     (case v of None \<Rightarrow> {} | Some s \<Rightarrow> only_if (blank (sm_strategy s)) ''speculation.strategy'')"

definition speculation_invalid :: "speculation_metrics option \<Rightarrow> string set" where
  "speculation_invalid v =
     (case v of
        None \<Rightarrow> {}
      | Some s \<Rightarrow>
          only_if (sm_proposed_tokens s = 0) ''speculation.proposed_tokens'' \<union>
          only_if (sm_proposed_tokens s < sm_accepted_tokens s) ''speculation.accepted_tokens'' \<union>
          only_if (sm_verified_cycles s = 0) ''speculation.verified_cycles'')"

definition correctness_missing :: "correctness_gate option \<Rightarrow> string set" where
  "correctness_missing v =
     (case v of
        None \<Rightarrow> {''correctness''}
      | Some (Passed oracle _) \<Rightarrow> only_if (blank oracle) ''correctness.oracle''
      | Some (FailedGate oracle _ reason) \<Rightarrow>
          only_if (blank oracle) ''correctness.oracle'' \<union> only_if (blank reason) ''correctness.reason'')"

definition correctness_invalid :: "correctness_gate option \<Rightarrow> string set" where
  "correctness_invalid v =
     (case v of
        None \<Rightarrow> {}
      | Some (Passed _ checked) \<Rightarrow> only_if (checked = 0) ''correctness.checked_tokens''
      | Some (FailedGate _ checked _) \<Rightarrow> only_if (checked = 0) ''correctness.checked_tokens'')"

definition missing_fields :: "evidence_record \<Rightarrow> string set" where
  "missing_fields r =
     identity_missing (ev_identity r) \<union> execution_missing (ev_execution r) \<union>
     only_if (unmeasured (ev_performance r)) ''performance'' \<union>
     hardware_missing (ev_hardware_state r) \<union> speculation_missing (ev_speculation r) \<union>
     correctness_missing (ev_correctness r)"

definition invalid_fields :: "evidence_record \<Rightarrow> string set" where
  "invalid_fields r =
     execution_invalid (ev_execution r) \<union> workload_invalid (ev_workload r) \<union>
     metrics_invalid (ev_performance r) (ev_caches r) \<union> hardware_invalid (ev_hardware_state r) \<union>
     speculation_invalid (ev_speculation r) \<union> correctness_invalid (ev_correctness r)"

section \<open>A check against what is wrong\<close>

text \<open>
  \<open>finds missing invalid res\<close>: the check fails exactly when something is missing or invalid, and
  then names one such field.
\<close>

definition finds :: "string set \<Rightarrow> string set \<Rightarrow> evidence_error + 'a \<Rightarrow> bool" where
  "finds m i res \<longleftrightarrow>
     (case res of
        Inr _ \<Rightarrow> m = {} \<and> i = {}
      | Inl (Missing what) \<Rightarrow> what \<in> m
      | Inl (Invalid what _) \<Rightarrow> what \<in> i)"

named_theorems finds_intros \<open>composition of checks\<close>

lemma only_if_empty_iff [simp]: "only_if b x = {} \<longleftrightarrow> \<not> b"
  by (simp add: only_if_def)

lemma in_only_if_iff [simp]: "y \<in> only_if b x \<longleftrightarrow> b \<and> y = x"
  by (simp add: only_if_def)

lemma finds_ok [finds_intros]: "finds {} {} (Inr x)"
  by (simp add: finds_def)

lemma finds_seq [finds_intros]:
  "finds m i r \<Longrightarrow> (\<And>x. finds m' i' (f x)) \<Longrightarrow> finds (m \<union> m') (i \<union> i') (bindE r f)"
  by (cases r) (auto simp: finds_def split: sum.splits evidence_error.splits)

lemma finds_missing [finds_intros]:
  "finds m i r \<Longrightarrow> finds (only_if b what \<union> m) i (if b then Inl (Missing what) else r)"
  by (auto simp: finds_def split: sum.splits evidence_error.splits)

lemma finds_invalid [finds_intros]:
  "finds m i r \<Longrightarrow> finds m (only_if b what \<union> i) (if b then invalid what why else r)"
  by (auto simp: finds_def invalid_def split: sum.splits evidence_error.splits)

lemma finds_nonempty [finds_intros]: "finds (only_if (blank v) what) {} (require_nonempty v what)"
  by (simp add: finds_def require_nonempty_def trim_empty_iff blank_def)

lemma finds_positive [finds_intros]: "finds {} (only_if (not_positive v) what) (validate_positive_f64 v what)"
  by (auto simp: finds_def validate_positive_f64_def not_positive_def invalid_def f64_le_zero_iff not_le
      not_less split: option.splits)

lemma finds_nonzero [finds_intros]: "finds {} (only_if (v = Some 0) what) (validate_nonzero_u64 v what)"
  by (simp add: finds_def validate_nonzero_u64_def invalid_def)

lemma finds_cpu_list [finds_intros]:
  "finds {} (only_if (bad_cpu_list cpus) ''execution.cpu_placement'') (validate_cpu_list cpus)"
  by (auto simp: finds_def validate_cpu_list_def bad_cpu_list_def invalid_def strict_sorted_iff_pairs
      list_ex_iff not_le not_less split: prod.splits)

lemma finds_cong: "finds m i r \<Longrightarrow> m = m' \<Longrightarrow> i = i' \<Longrightarrow> finds m' i' r"
  by simp

lemma blank_texts_simps [simp]:
  "blank_texts [] = {}"
  "blank_texts ((what, s) # texts) = only_if (blank s) what \<union> blank_texts texts"
  by (auto simp: blank_texts_def only_if_def) force+

text \<open>Case distinctions of the code.\<close>

lemma finds_option [finds_intros]:
  "finds m i r \<Longrightarrow> (\<And>y. finds (m' y) (i' y) (s y)) \<Longrightarrow>
   finds (case_option m m' v) (case_option i i' v) (case_option r s v)"
  by (cases v) simp_all

lemma finds_mode [finds_intros]:
  "finds m i r \<Longrightarrow> (\<And>y. finds (m' y) (i' y) (s y)) \<Longrightarrow>
   finds (case_execution_mode m m' v) (case_execution_mode i i' v) (case_execution_mode r s v)"
  by (cases v) simp_all

lemma finds_placement [finds_intros]:
  "(\<And>y. finds (m y) (i y) (r y)) \<Longrightarrow> (\<And>y. finds (m' y) (i' y) (s y)) \<Longrightarrow>
   (\<And>y z. finds (m'' y z) (i'' y z) (q y z)) \<Longrightarrow>
   finds (case_cpu_placement m m' m'' v) (case_cpu_placement i i' i'' v) (case_cpu_placement r s q v)"
  by (cases v) simp_all

lemma finds_gate [finds_intros]:
  "(\<And>y z. finds (m y z) (i y z) (r y z)) \<Longrightarrow> (\<And>y z w. finds (m' y z w) (i' y z w) (s y z w)) \<Longrightarrow>
   finds (case_correctness_gate m m' v) (case_correctness_gate i i' v) (case_correctness_gate r s v)"
  by (cases v) simp_all

lemma validate_execution_finds:
  "finds (execution_missing (ev_execution r)) (execution_invalid (ev_execution r)) (validate_execution r)"
  unfolding validate_execution_def Let_def list_ex_iff
  by (rule finds_cong, (rule finds_intros)+)
     (auto simp: execution_missing_def execution_invalid_def split: cpu_placement.split)

lemma validate_workload_finds: "finds {} (workload_invalid (ev_workload r)) (validate_workload r)"
  unfolding validate_workload_def Let_def
  by (rule finds_cong, (rule finds_intros)+) (auto simp: workload_invalid_def)

lemma no_measurement_iff: "(\<not> has_any_measurement p) = unmeasured p"
  by (auto simp: has_any_measurement_def unmeasured_def figures_def)

lemma validate_metrics_finds:
  "finds (only_if (unmeasured (ev_performance r)) ''performance'')
     (metrics_invalid (ev_performance r) (ev_caches r)) (validate_metrics r)"
proof -
  have "(case (pm_p50_latency_micros p, pm_p95_latency_micros p) of
      (Some p50, Some p95) \<Rightarrow> p95 < p50 | _ \<Rightarrow> False) \<longleftrightarrow> latencies_swapped p" for p
    by (simp add: latencies_swapped_def split: option.splits)
  then show ?thesis
    unfolding validate_metrics_def Let_def no_measurement_iff
    by (simp only:) (rule finds_cong, (rule finds_intros)+; auto simp: metrics_invalid_def)
qed

lemma validate_hardware_finds:
  "finds (hardware_missing (ev_hardware_state r)) (hardware_invalid (ev_hardware_state r))
     (validate_hardware_state r)"
  unfolding validate_hardware_state_def Let_def
  by (rule finds_cong, (rule finds_intros)+)
     (auto simp: hardware_missing_def hardware_invalid_def split: option.split)

lemma validate_speculation_finds:
  "finds (speculation_missing (ev_speculation r)) (speculation_invalid (ev_speculation r))
     (validate_speculation r)"
  unfolding validate_speculation_def
  by (rule finds_cong, (rule finds_intros)+)
     (auto simp: speculation_missing_def speculation_invalid_def split: option.split)

lemma validate_correctness_finds:
  "finds (correctness_missing (ev_correctness r)) (correctness_invalid (ev_correctness r))
     (validate_correctness r)"
proof (cases "ev_correctness r")
  case None
  then show ?thesis by (simp add: validate_correctness_def finds_def correctness_missing_def)
next
  case (Some gate)
  show ?thesis
    unfolding validate_correctness_def Some ok_or_simps bindE_simps
    by (rule finds_cong, (rule finds_intros)+)
       (auto simp: correctness_missing_def correctness_invalid_def split: correctness_gate.split)
qed

lemmas section_finds = validate_execution_finds validate_workload_finds validate_metrics_finds
  validate_hardware_finds validate_speculation_finds validate_correctness_finds

lemma validate_finds: "finds (missing_fields r) (invalid_fields r) (validate r)"
  unfolding validate_def Let_def
  by (rule finds_cong, (rule finds_intros section_finds)+)
     (auto simp: missing_fields_def invalid_fields_def identity_missing_def split: execution_mode.split)

text \<open>
  C18. Validation is exact and its errors point at the truth: it accepts a record exactly when no
  required text is blank, no required part is absent (of the eight performance figures one is enough)
  and no field breaks its invariant (counts,
  latencies, strictly ascending CPU lists, floating-point metrics that stand for a positive number),
  and otherwise the error it returns names a field that is really missing or really invalid.
\<close>

theorem validate_names_a_defect:
  "case validate r of
     Inr _ \<Rightarrow> missing_fields r = {} \<and> invalid_fields r = {}
   | Inl (Missing what) \<Rightarrow> what \<in> missing_fields r
   | Inl (Invalid what _) \<Rightarrow> what \<in> invalid_fields r"
  using validate_finds [of r] by (simp add: finds_def)

section \<open>Records that are evidence\<close>

text \<open>A valid record, and the same record with a failed but explained correctness check.\<close>

definition test_record :: evidence_record where
  "test_record =
     \<lparr>ev_identity = \<lparr>ri_git_commit = ascii ''0123'', ri_model_id = ascii ''Qwen'',
        ri_model_revision = ascii ''34567a4'', ri_model_digest = ascii ''sha256'',
        ri_hardware = ascii ''NVIDIA GB10'', ri_mode = ExactMode\<rparr>,
      ev_execution = \<lparr>ec_command = [ascii ''gb10x-serve''], ec_runtime_profile = ascii ''server'',
        ec_runtime_config_digest = ascii ''sha256'', ec_cpu_placement = Affinity [0, 1],
        ec_precision_mode = ascii ''bf16'', ec_quantization_mode = ascii ''none'',
        ec_prefix_cache_state = Cold, ec_ple_cache_state = Warm, ec_kv_cache_state = Cold\<rparr>,
      ev_workload = \<lparr>wl_context_tokens = 8192, wl_prompt_tokens = 2048, wl_output_tokens = 256,
        wl_concurrency = 1\<rparr>,
      ev_stages = \<lparr>st_tokenize_micros = None, st_queue_micros = None, st_prefill_micros = None,
        st_decode_micros = None, st_ple_hash_micros = None, st_ple_lookup_micros = None,
        st_attention_micros = None, st_moe_micros = None, st_speculation_verify_micros = None,
        st_sampling_micros = None\<rparr>,
      ev_caches = \<lparr>ct_ple_hot_hits = 0, ct_ple_cold_hits = 0, ct_ple_prefetched_rows = 0,
        ct_ple_prefetch_useful_rows = 0, ct_prefix_cache_hits = 0, ct_prefix_cache_misses = 0,
        ct_cold_source_bytes_read = 0, ct_hot_overlay_bytes_read = 0\<rparr>,
      ev_performance = \<lparr>pm_prefill_tokens_per_second = Some 0x408F400000000000,
        pm_decode_tokens_per_second = Some 0x4045000000000000, pm_ttft_micros = Some 250000,
        pm_p50_latency_micros = Some 3, pm_p95_latency_micros = Some 5,
        pm_unified_memory_bytes = Some 100000000000, pm_power_watts = None, pm_tokens_per_joule = None\<rparr>,
      ev_hardware_state = \<lparr>hs_gpu_temperature_millicelsius = None,
        hs_cpu_temperature_millicelsius = None, hs_average_power_milliwatts = Some 1,
        hs_power_limit_milliwatts = None, hs_gpu_clock_hz = None, hs_cpu_governor = None\<rparr>,
      ev_speculation = Some \<lparr>sm_strategy = ascii ''mtp'', sm_proposed_tokens = 100,
        sm_accepted_tokens = 0, sm_verified_cycles = 1\<rparr>,
      ev_correctness = Some (Passed (ascii ''target'') 256)\<rparr>"

lemma trim_nonblank: "\<not> is_whitespace c \<Longrightarrow> trim (c # s) \<noteq> []"
  by (simp add: trim_empty_iff)

lemma test_record_sections:
  "validate_execution test_record = Inr ()" "validate_workload test_record = Inr ()"
  "validate_metrics test_record = Inr ()" "validate_hardware_state test_record = Inr ()"
  "validate_speculation test_record = Inr ()"
  by (simp_all add: test_record_def validate_execution_def validate_workload_def validate_metrics_def
      validate_hardware_state_def validate_speculation_def require_nonempty_def validate_cpu_list_def
      validate_positive_f64_def validate_nonzero_u64_def has_any_measurement_def f64_is_finite_def
      f64_le_zero_def f64_is_nan_def f64_sign_def f64_exponent_def f64_mantissa_def ascii_def
      trim_empty_iff is_whitespace_def word_le_nat_alt word_less_nat_alt)

lemma test_record_accepted:
  "validate test_record = Inr ()"
  "validate (test_record\<lparr>ev_correctness := Some (FailedGate [65] 12 [66])\<rparr>) = Inr ()"
proof -
  have same: "validate_execution (test_record\<lparr>ev_correctness := v\<rparr>) = validate_execution test_record"
    "validate_workload (test_record\<lparr>ev_correctness := v\<rparr>) = validate_workload test_record"
    "validate_metrics (test_record\<lparr>ev_correctness := v\<rparr>) = validate_metrics test_record"
    "validate_hardware_state (test_record\<lparr>ev_correctness := v\<rparr>) = validate_hardware_state test_record"
    "validate_speculation (test_record\<lparr>ev_correctness := v\<rparr>) = validate_speculation test_record" for v
    by (simp_all add: validate_execution_def validate_workload_def validate_metrics_def
        validate_hardware_state_def validate_speculation_def)
  have identity: "ev_identity test_record = \<lparr>ri_git_commit = ascii ''0123'', ri_model_id = ascii ''Qwen'',
        ri_model_revision = ascii ''34567a4'', ri_model_digest = ascii ''sha256'',
        ri_hardware = ascii ''NVIDIA GB10'', ri_mode = ExactMode\<rparr>"
    "ev_correctness test_record = Some (Passed (ascii ''target'') 256)"
    by (simp_all add: test_record_def)
  show "validate test_record = Inr ()"
    "validate (test_record\<lparr>ev_correctness := Some (FailedGate [65] 12 [66])\<rparr>) = Inr ()"
    by (simp_all add: validate_def identity same test_record_sections validate_correctness_def
        require_nonempty_def ascii_def trim_empty_iff is_whitespace_def word_le_nat_alt)
qed

end
