(* ===== verification/Qwen38.thy ===== *)
theory Qwen38
  imports Platform FileIo Float64 Bytes
begin

text \<open>
  The pinned model contract (\<open>crates/gb10x-core/src/qwen38.rs\<close>): reading a configuration out of a
  JSON value, the validation of every field GB10X relies on, and the sizes derived from it.

  The JSON parser is a library and an argument of the operations that call it; its values are
  \<open>json\<close>, with the accessors of \<open>serde_json::Value\<close> that the code uses. A \<open>Contract\<close> error carries
  what the code formats into its message.
\<close>

section \<open>JSON values\<close>

text \<open>A number is a non-negative integer, a negative one (by its magnitude) or a float.\<close>

datatype json_number = PosInt u64 | NegInt u64 | Float f64

datatype json =
    JNull
  | JBool bool
  | JNumber json_number
  | JString unicode
  | JArray "json list"
  | JObject "(unicode \<times> json) list"

fun json_get :: "json \<Rightarrow> string \<Rightarrow> json option" where
  "json_get (JObject entries) name = map_of entries (ascii name)"
| "json_get _ _ = None"

fun as_u64 :: "json \<Rightarrow> u64 option" where
  "as_u64 (JNumber (PosInt n)) = Some n"
| "as_u64 _ = None"

fun as_f64 :: "json \<Rightarrow> f64 option" where
  "as_f64 (JNumber (PosInt n)) = Some (u64_to_f64 n)"
| "as_f64 (JNumber (NegInt n)) = Some (negative_to_f64 n)"
| "as_f64 (JNumber (Float x)) = Some x"
| "as_f64 _ = None"

fun as_str :: "json \<Rightarrow> unicode option" where
  "as_str (JString s) = Some s"
| "as_str _ = None"

fun as_array :: "json \<Rightarrow> json list option" where
  "as_array (JArray vs) = Some vs"
| "as_array _ = None"

section \<open>Configurations and errors\<close>

datatype qwen38_layer_type = LinearAttention | FullAttention

datatype shown = UsizeValue usize | U32Value u32 | F64Value f64 | StrValue unicode

datatype contract_message =
    Mismatch string shown shown
  | PleLayerNotOneBased
  | EosTokenTooLarge usize
  | LayerCount usize
  | LayerKind usize qwen38_layer_type qwen38_layer_type
  | PleWidthNotDivisible

datatype qwen38_config_error =
    ConfigIo path string
  | ConfigJson string
  | ConfigField string
  | Contract contract_message

record qwen38_config =
  qc_model_type :: unicode
  qc_text_model_type :: unicode
  qc_hidden_size :: usize
  qc_vocab_size :: usize
  qc_num_hidden_layers :: usize
  qc_layer_types :: "qwen38_layer_type list"
  qc_full_attention_interval :: usize
  qc_num_attention_heads :: usize
  qc_num_key_value_heads :: usize
  qc_head_dim :: usize
  qc_partial_rotary_factor :: f64
  qc_linear_num_key_heads :: usize
  qc_linear_num_value_heads :: usize
  qc_linear_key_head_dim :: usize
  qc_linear_value_head_dim :: usize
  qc_linear_conv_kernel_dim :: usize
  qc_num_experts :: usize
  qc_num_experts_per_tok :: usize
  qc_moe_intermediate_size :: usize
  qc_shared_expert_intermediate_size :: usize
  qc_hc_count :: usize
  qc_hc_lowrank :: usize
  qc_ple_layer :: usize
  qc_ple_embed_dim :: usize
  qc_ple_conv_kernel_size :: usize
  qc_ngram_size :: usize
  qc_heads_per_ngram :: usize
  qc_split_ngram_parts :: usize
  qc_ngram_vocab_size_base :: usize
  qc_make_ngram_vocab_size_divisible_by :: usize
  qc_indexer_n_heads :: usize
  qc_indexer_kv_heads :: usize
  qc_indexer_head_dim :: usize
  qc_indexer_compress_ratio :: usize
  qc_indexer_budget :: usize
  qc_max_position_embeddings :: usize
  qc_eos_token_id :: u32
  qc_output_gate_type :: unicode
  qc_rms_norm_eps :: f64
  qc_rope_theta :: f64
  qc_mtp_num_hidden_layers :: usize

section \<open>Reading a configuration\<close>

definition required_usize :: "json \<Rightarrow> string \<Rightarrow> qwen38_config_error + usize" where
  "required_usize v name = ok_or (Option.bind (json_get v name) as_u64) (ConfigField name)"

definition required_f64 :: "json \<Rightarrow> string \<Rightarrow> qwen38_config_error + f64" where
  "required_f64 v name =
     ok_or (case Option.bind (json_get v name) as_f64 of
              Some x \<Rightarrow> if f64_is_finite x then Some x else None
            | None \<Rightarrow> None) (ConfigField name)"

definition required_str :: "json \<Rightarrow> string \<Rightarrow> qwen38_config_error + unicode" where
  "required_str v name = ok_or (Option.bind (json_get v name) as_str) (ConfigField name)"

definition required_array :: "json \<Rightarrow> string \<Rightarrow> qwen38_config_error + json list" where
  "required_array v name = ok_or (Option.bind (json_get v name) as_array) (ConfigField name)"

definition value_usize :: "json \<Rightarrow> string \<Rightarrow> qwen38_config_error + usize" where
  "value_usize v name = ok_or (as_u64 v) (ConfigField name)"

definition layer_type_of :: "json \<Rightarrow> qwen38_config_error + qwen38_layer_type" where
  "layer_type_of v =
     (if as_str v = Some (ascii ''linear_attention'') then Inr LinearAttention
      else if as_str v = Some (ascii ''full_attention'') then Inr FullAttention
      else Inl (ConfigField ''text_config.layer_types''))"

fun layer_types_of :: "json list \<Rightarrow> qwen38_config_error + qwen38_layer_type list" where
  "layer_types_of [] = Inr []"
| "layer_types_of (v # vs) =
     bindE (layer_type_of v) (\<lambda>t.
     bindE (layer_types_of vs) (\<lambda>ts.
     Inr (t # ts)))"

definition read_architecture ::
    "json \<Rightarrow> unicode \<Rightarrow> unicode \<Rightarrow> qwen38_layer_type list \<Rightarrow> usize \<Rightarrow> json \<Rightarrow> u32 \<Rightarrow>
      qwen38_config_error + qwen38_config" where
  "read_architecture config model_type text_model_type layer_types ple_layer rope eos_token_id =
     bindE (required_usize config ''hidden_size'') (\<lambda>hidden_size.
     bindE (required_usize config ''vocab_size'') (\<lambda>vocab_size.
     bindE (required_usize config ''num_hidden_layers'') (\<lambda>num_hidden_layers.
     bindE (required_usize config ''full_attention_interval'') (\<lambda>full_attention_interval.
     bindE (required_usize config ''num_attention_heads'') (\<lambda>num_attention_heads.
     bindE (required_usize config ''num_key_value_heads'') (\<lambda>num_key_value_heads.
     bindE (required_usize config ''head_dim'') (\<lambda>head_dim.
     bindE (required_f64 config ''partial_rotary_factor'') (\<lambda>partial_rotary_factor.
     bindE (required_usize config ''linear_num_key_heads'') (\<lambda>linear_num_key_heads.
     bindE (required_usize config ''linear_num_value_heads'') (\<lambda>linear_num_value_heads.
     bindE (required_usize config ''linear_key_head_dim'') (\<lambda>linear_key_head_dim.
     bindE (required_usize config ''linear_value_head_dim'') (\<lambda>linear_value_head_dim.
     bindE (required_usize config ''linear_conv_kernel_dim'') (\<lambda>linear_conv_kernel_dim.
     bindE (required_usize config ''num_experts'') (\<lambda>num_experts.
     bindE (required_usize config ''num_experts_per_tok'') (\<lambda>num_experts_per_tok.
     bindE (required_usize config ''moe_intermediate_size'') (\<lambda>moe_intermediate_size.
     bindE (required_usize config ''shared_expert_intermediate_size'') (\<lambda>shared_expert_intermediate_size.
     bindE (required_usize config ''hc_count'') (\<lambda>hc_count.
     bindE (required_usize config ''hc_lowrank'') (\<lambda>hc_lowrank.
     bindE (required_usize config ''ple_embed_dim'') (\<lambda>ple_embed_dim.
     bindE (required_usize config ''ple_conv_kernel_size'') (\<lambda>ple_conv_kernel_size.
     bindE (required_usize config ''ngram_size'') (\<lambda>ngram_size.
     bindE (required_usize config ''heads_per_ngram'') (\<lambda>heads_per_ngram.
     bindE (required_usize config ''split_ngram_parts'') (\<lambda>split_ngram_parts.
     bindE (required_usize config ''ngram_vocab_size_base'') (\<lambda>ngram_vocab_size_base.
     bindE (required_usize config ''make_ngram_vocab_size_divisible_by'') (\<lambda>make_ngram_vocab_size_divisible_by.
     bindE (required_usize config ''indexer_n_heads'') (\<lambda>indexer_n_heads.
     bindE (required_usize config ''indexer_kv_heads'') (\<lambda>indexer_kv_heads.
     bindE (required_usize config ''indexer_head_dim'') (\<lambda>indexer_head_dim.
     bindE (required_usize config ''indexer_compress_ratio'') (\<lambda>indexer_compress_ratio.
     bindE (required_usize config ''indexer_budget'') (\<lambda>indexer_budget.
     bindE (required_usize config ''max_position_embeddings'') (\<lambda>max_position_embeddings.
     bindE (required_str config ''output_gate_type'') (\<lambda>output_gate_type.
     bindE (required_f64 config ''rms_norm_eps'') (\<lambda>rms_norm_eps.
     bindE (required_f64 rope ''rope_theta'') (\<lambda>rope_theta.
     bindE (required_usize config ''mtp_num_hidden_layers'') (\<lambda>mtp_num_hidden_layers.
     Inr
       \<lparr>qc_model_type = model_type, qc_text_model_type = text_model_type,
        qc_hidden_size = hidden_size, qc_vocab_size = vocab_size,
        qc_num_hidden_layers = num_hidden_layers, qc_layer_types = layer_types,
        qc_full_attention_interval = full_attention_interval,
        qc_num_attention_heads = num_attention_heads,
        qc_num_key_value_heads = num_key_value_heads, qc_head_dim = head_dim,
        qc_partial_rotary_factor = partial_rotary_factor,
        qc_linear_num_key_heads = linear_num_key_heads,
        qc_linear_num_value_heads = linear_num_value_heads,
        qc_linear_key_head_dim = linear_key_head_dim,
        qc_linear_value_head_dim = linear_value_head_dim,
        qc_linear_conv_kernel_dim = linear_conv_kernel_dim, qc_num_experts = num_experts,
        qc_num_experts_per_tok = num_experts_per_tok,
        qc_moe_intermediate_size = moe_intermediate_size,
        qc_shared_expert_intermediate_size = shared_expert_intermediate_size,
        qc_hc_count = hc_count, qc_hc_lowrank = hc_lowrank, qc_ple_layer = ple_layer,
        qc_ple_embed_dim = ple_embed_dim, qc_ple_conv_kernel_size = ple_conv_kernel_size,
        qc_ngram_size = ngram_size, qc_heads_per_ngram = heads_per_ngram,
        qc_split_ngram_parts = split_ngram_parts,
        qc_ngram_vocab_size_base = ngram_vocab_size_base,
        qc_make_ngram_vocab_size_divisible_by = make_ngram_vocab_size_divisible_by,
        qc_indexer_n_heads = indexer_n_heads, qc_indexer_kv_heads = indexer_kv_heads,
        qc_indexer_head_dim = indexer_head_dim,
        qc_indexer_compress_ratio = indexer_compress_ratio, qc_indexer_budget = indexer_budget,
        qc_max_position_embeddings = max_position_embeddings, qc_eos_token_id = eos_token_id,
        qc_output_gate_type = output_gate_type, qc_rms_norm_eps = rms_norm_eps,
        qc_rope_theta = rope_theta, qc_mtp_num_hidden_layers = mtp_num_hidden_layers\<rparr>))))))))))))))))))))))))))))))))))))"

definition from_value :: "json \<Rightarrow> qwen38_config_error + qwen38_config" where
  "from_value document =
     bindE (required_str document ''model_type'') (\<lambda>model_type.
     bindE (ok_or (json_get document ''text_config'') (ConfigField ''text_config'')) (\<lambda>config.
     bindE (required_str config ''model_type'') (\<lambda>text_model_type.
     bindE (required_array config ''layer_types'') (\<lambda>layers.
     bindE (layer_types_of layers) (\<lambda>layer_types.
     bindE (required_array config ''ple_layer_ids'') (\<lambda>ple_layers.
     case ple_layers of
       [ple_layer_id] \<Rightarrow>
         bindE (value_usize ple_layer_id ''text_config.ple_layer_ids[0]'') (\<lambda>one_based_ple.
         bindE (ok_or (checked_sub one_based_ple 1) (Contract PleLayerNotOneBased)) (\<lambda>ple_layer.
         bindE (ok_or (json_get config ''rope_parameters'') (ConfigField ''text_config.rope_parameters'')) (\<lambda>rope.
         bindE (required_usize config ''eos_token_id'') (\<lambda>eos.
         bindE (ok_or (try_narrow eos) (Contract (EosTokenTooLarge eos))) (\<lambda>eos_token_id.
         read_architecture config model_type text_model_type layer_types ple_layer rope eos_token_id)))))
     | _ \<Rightarrow> Inl (ConfigField ''text_config.ple_layer_ids'')))))))"

text \<open>\<open>serde_json::from_str\<close>, \<open>serde_json::from_slice\<close> and \<open>fs::read\<close> are arguments.\<close>

definition from_json_str ::
    "(unicode \<Rightarrow> string + json) \<Rightarrow> unicode \<Rightarrow> qwen38_config_error + qwen38_config" where
  "from_json_str from_str s = bindE (map_err ConfigJson (from_str s)) from_value"

definition load_config ::
    "(path \<Rightarrow> string + bytes) \<Rightarrow> (bytes \<Rightarrow> string + json) \<Rightarrow> path \<Rightarrow>
      qwen38_config_error + qwen38_config" where
  "load_config read_file from_slice model_dir =
     (let p = model_dir @ [Normal (map of_char ''config.json'')] in
      bindE (map_err (ConfigIo p) (read_file p)) (\<lambda>bs.
      bindE (map_err ConfigJson (from_slice bs)) from_value))"

section \<open>Derived sizes\<close>

definition rotary_dim :: "qwen38_config \<Rightarrow> usize" where
  "rotary_dim c = f64_round_to_usize (f64_mul (u64_to_f64 (qc_head_dim c)) (qc_partial_rotary_factor c))"

definition ple_rows_per_token :: "qwen38_config \<Rightarrow> usize" where
  "ple_rows_per_token c = saturating_mul (saturating_sub (qc_ngram_size c) 1) (qc_heads_per_ngram c)"

definition ple_row_width :: "qwen38_config \<Rightarrow> usize" where
  "ple_row_width c =
     (let rows = ple_rows_per_token c in if rows = 0 then 0 else qc_ple_embed_dim c div rows)"

definition ple_bf16_bytes_per_token :: "qwen38_config \<Rightarrow> usize" where
  "ple_bf16_bytes_per_token c =
     saturating_mul (saturating_mul (ple_rows_per_token c) (ple_row_width c)) 2"

definition qsa_selected_kv_bf16_bytes :: "qwen38_config \<Rightarrow> usize" where
  "qsa_selected_kv_bf16_bytes c =
     saturating_mul (saturating_mul (saturating_mul (saturating_mul
       (qc_indexer_budget c) (qc_num_key_value_heads c)) (qc_head_dim c)) 2) 2"

section \<open>The contract\<close>

definition contract_mismatch :: "string \<Rightarrow> shown \<Rightarrow> shown \<Rightarrow> qwen38_config_error" where
  "contract_mismatch name actual expected = Contract (Mismatch name actual expected)"

definition expect_usize :: "string \<Rightarrow> usize \<Rightarrow> usize \<Rightarrow> qwen38_config_error + unit" where
  "expect_usize name actual expected =
     (if actual = expected then Inr ()
      else Inl (contract_mismatch name (UsizeValue actual) (UsizeValue expected)))"

definition expect_f64 :: "string \<Rightarrow> f64 \<Rightarrow> f64 \<Rightarrow> qwen38_config_error + unit" where
  "expect_f64 name actual expected =
     (if actual = expected then Inr ()
      else Inl (contract_mismatch name (F64Value actual) (F64Value expected)))"

definition expect_str :: "string \<Rightarrow> unicode \<Rightarrow> unicode \<Rightarrow> qwen38_config_error + unit" where
  "expect_str name actual expected =
     (if actual = expected then Inr ()
      else Inl (contract_mismatch name (StrValue actual) (StrValue expected)))"

text \<open>The floats are \<open>0.25\<close>, \<open>0.000001\<close> and \<open>10000000.0\<close>.\<close>

definition expect_architecture :: "qwen38_config \<Rightarrow> qwen38_config_error + unit" where
  "expect_architecture c =
     bindE (expect_str ''model_type'' (qc_model_type c) (ascii ''qwen4_exp'')) (\<lambda>_.
     bindE (expect_str ''text model_type'' (qc_text_model_type c) (ascii ''qwen4_exp_text'')) (\<lambda>_.
     bindE (expect_usize ''hidden_size'' (qc_hidden_size c) 2560) (\<lambda>_.
     bindE (expect_usize ''vocab_size'' (qc_vocab_size c) 248320) (\<lambda>_.
     bindE (expect_usize ''num_hidden_layers'' (qc_num_hidden_layers c) 48) (\<lambda>_.
     bindE (expect_usize ''full_attention_interval'' (qc_full_attention_interval c) 4) (\<lambda>_.
     bindE (expect_usize ''num_attention_heads'' (qc_num_attention_heads c) 24) (\<lambda>_.
     bindE (expect_usize ''num_key_value_heads'' (qc_num_key_value_heads c) 2) (\<lambda>_.
     bindE (expect_usize ''head_dim'' (qc_head_dim c) 256) (\<lambda>_.
     bindE (expect_f64 ''partial_rotary_factor'' (qc_partial_rotary_factor c) 0x3FD0000000000000) (\<lambda>_.
     bindE (expect_usize ''linear_num_key_heads'' (qc_linear_num_key_heads c) 16) (\<lambda>_.
     bindE (expect_usize ''linear_num_value_heads'' (qc_linear_num_value_heads c) 48) (\<lambda>_.
     bindE (expect_usize ''linear_key_head_dim'' (qc_linear_key_head_dim c) 128) (\<lambda>_.
     bindE (expect_usize ''linear_value_head_dim'' (qc_linear_value_head_dim c) 128) (\<lambda>_.
     bindE (expect_usize ''linear_conv_kernel_dim'' (qc_linear_conv_kernel_dim c) 4) (\<lambda>_.
     bindE (expect_usize ''num_experts'' (qc_num_experts c) 512) (\<lambda>_.
     bindE (expect_usize ''num_experts_per_tok'' (qc_num_experts_per_tok c) 10) (\<lambda>_.
     bindE (expect_usize ''moe_intermediate_size'' (qc_moe_intermediate_size c) 640) (\<lambda>_.
     bindE (expect_usize ''shared_expert_intermediate_size'' (qc_shared_expert_intermediate_size c) 640) (\<lambda>_.
     bindE (expect_usize ''hc_count'' (qc_hc_count c) 4) (\<lambda>_.
     bindE (expect_usize ''hc_lowrank'' (qc_hc_lowrank c) 320) (\<lambda>_.
     bindE (expect_usize ''ple_layer'' (qc_ple_layer c) 1) (\<lambda>_.
     bindE (expect_usize ''ple_embed_dim'' (qc_ple_embed_dim c) 2560) (\<lambda>_.
     bindE (expect_usize ''ple_conv_kernel_size'' (qc_ple_conv_kernel_size c) 4) (\<lambda>_.
     bindE (expect_usize ''ngram_size'' (qc_ngram_size c) 3) (\<lambda>_.
     bindE (expect_usize ''heads_per_ngram'' (qc_heads_per_ngram c) 8) (\<lambda>_.
     bindE (expect_usize ''split_ngram_parts'' (qc_split_ngram_parts c) 128) (\<lambda>_.
     bindE (expect_usize ''ngram_vocab_size_base'' (qc_ngram_vocab_size_base c) 20000000) (\<lambda>_.
     bindE (expect_usize ''make_ngram_vocab_size_divisible_by'' (qc_make_ngram_vocab_size_divisible_by c) 128) (\<lambda>_.
     bindE (expect_usize ''indexer_n_heads'' (qc_indexer_n_heads c) 4) (\<lambda>_.
     bindE (expect_usize ''indexer_kv_heads'' (qc_indexer_kv_heads c) 1) (\<lambda>_.
     bindE (expect_usize ''indexer_head_dim'' (qc_indexer_head_dim c) 128) (\<lambda>_.
     bindE (expect_usize ''indexer_compress_ratio'' (qc_indexer_compress_ratio c) 4) (\<lambda>_.
     bindE (expect_usize ''indexer_budget'' (qc_indexer_budget c) 2048) (\<lambda>_.
     bindE (expect_usize ''max_position_embeddings'' (qc_max_position_embeddings c) 262144) (\<lambda>_.
     bindE (if qc_eos_token_id c \<noteq> 248044 then
            Inl (contract_mismatch ''eos_token_id'' (U32Value (qc_eos_token_id c)) (U32Value 248044)) else Inr ()) (\<lambda>_.
     bindE (expect_str ''output_gate_type'' (qc_output_gate_type c) (ascii ''sigmoid'')) (\<lambda>_.
     bindE (expect_f64 ''rms_norm_eps'' (qc_rms_norm_eps c) 0x3EB0C6F7A0B5ED8D) (\<lambda>_.
     bindE (expect_f64 ''rope_theta'' (qc_rope_theta c) 0x416312D000000000) (\<lambda>_.
     bindE (expect_usize ''mtp_num_hidden_layers'' (qc_mtp_num_hidden_layers c) 1) (\<lambda>_.
     Inr ()))))))))))))))))))))))))))))))))))))))))"

definition expected_layer :: "nat \<Rightarrow> qwen38_layer_type" where
  "expected_layer index = (if index mod 4 = 3 then FullAttention else LinearAttention)"

fun check_layers :: "nat \<Rightarrow> qwen38_layer_type list \<Rightarrow> qwen38_config_error + unit" where
  "check_layers index [] = Inr ()"
| "check_layers index (actual # layers) =
     (if actual \<noteq> expected_layer index
      then Inl (Contract (LayerKind (word_of_nat index) actual (expected_layer index)))
      else check_layers (Suc index) layers)"

definition validate_exact_contract :: "qwen38_config \<Rightarrow> qwen38_config_error + unit" where
  "validate_exact_contract c =
     bindE (expect_architecture c) (\<lambda>_.
     if length (qc_layer_types c) \<noteq> 48
     then Inl (Contract (LayerCount (word_of_nat (length (qc_layer_types c)))))
     else
     bindE (check_layers 0 (qc_layer_types c)) (\<lambda>_.
       (let ple_rows = ple_rows_per_token c
        in if ple_rows = 0 \<or> \<not> is_multiple_of (qc_ple_embed_dim c) ple_rows
           then Inl (Contract PleWidthNotDivisible) else Inr ())))"

section \<open>The one accepted configuration\<close>

definition released_config :: qwen38_config where
  "released_config =
       \<lparr>qc_model_type = ascii ''qwen4_exp'', qc_text_model_type = ascii ''qwen4_exp_text'',
        qc_hidden_size = 2560, qc_vocab_size = 248320, qc_num_hidden_layers = 48,
        qc_layer_types = map expected_layer [0..<48], qc_full_attention_interval = 4,
        qc_num_attention_heads = 24, qc_num_key_value_heads = 2, qc_head_dim = 256,
        qc_partial_rotary_factor = 0x3FD0000000000000, qc_linear_num_key_heads = 16,
        qc_linear_num_value_heads = 48, qc_linear_key_head_dim = 128,
        qc_linear_value_head_dim = 128, qc_linear_conv_kernel_dim = 4, qc_num_experts = 512,
        qc_num_experts_per_tok = 10, qc_moe_intermediate_size = 640,
        qc_shared_expert_intermediate_size = 640, qc_hc_count = 4, qc_hc_lowrank = 320,
        qc_ple_layer = 1, qc_ple_embed_dim = 2560, qc_ple_conv_kernel_size = 4,
        qc_ngram_size = 3, qc_heads_per_ngram = 8, qc_split_ngram_parts = 128,
        qc_ngram_vocab_size_base = 20000000, qc_make_ngram_vocab_size_divisible_by = 128,
        qc_indexer_n_heads = 4, qc_indexer_kv_heads = 1, qc_indexer_head_dim = 128,
        qc_indexer_compress_ratio = 4, qc_indexer_budget = 2048,
        qc_max_position_embeddings = 262144, qc_eos_token_id = 248044,
        qc_output_gate_type = ascii ''sigmoid'', qc_rms_norm_eps = 0x3EB0C6F7A0B5ED8D,
        qc_rope_theta = 0x416312D000000000, qc_mtp_num_hidden_layers = 1\<rparr>"

lemma expect_ok_iff [result_simps]:
  "expect_usize name x n = Inr u \<longleftrightarrow> x = n"
  "expect_f64 name x n = Inr u \<longleftrightarrow> x = n"
  "expect_str name s t = Inr u \<longleftrightarrow> s = t"
  by (simp_all add: expect_usize_def expect_f64_def expect_str_def)

lemma check_layers_ok_iff:
  "check_layers index layers = Inr u \<longleftrightarrow> layers = map expected_layer [index..<index + length layers]"
  by (induction layers arbitrary: index) (auto simp: upt_rec simp del: upt_Suc)

lemma expect_architecture_ok_iff:
  "expect_architecture c = Inr u \<and> qc_layer_types c = map expected_layer [0..<48] \<longleftrightarrow> c = released_config"
  by (cases c) (simp only: expect_architecture_def result_simps released_config_def
      qwen38_config.simps simp_thms ex_simps, auto)

lemma released_fields [simp]:
  "qc_layer_types released_config = map expected_layer [0..<48]"
  "qc_ple_embed_dim released_config = 2560" "qc_ngram_size released_config = 3"
  "qc_heads_per_ngram released_config = 8" "qc_indexer_budget released_config = 2048"
  "qc_num_key_value_heads released_config = 2" "qc_head_dim released_config = 256"
  "qc_partial_rotary_factor released_config = 0x3FD0000000000000"
  "qc_ple_layer released_config = 1" "qc_eos_token_id released_config = 248044"
  by (simp_all add: released_config_def)

lemma released_ple_rows:
  "ple_rows_per_token released_config = 16" "ple_row_width released_config = 160"
  by (simp_all add: ple_rows_per_token_def ple_row_width_def saturating_mul_def saturating_sub_def)

lemma validate_exact_contract_ok_iff: "validate_exact_contract c = Inr u \<longleftrightarrow> c = released_config"
proof -
  have "check_layers 0 (map expected_layer [0..<48]) = Inr u"
    by (simp add: check_layers_ok_iff del: upt_Suc)
  moreover have "expect_architecture released_config = Inr u"
    using expect_architecture_ok_iff [of released_config u] by blast
  ultimately have "validate_exact_contract released_config = Inr u"
    by (simp add: validate_exact_contract_def released_ple_rows is_multiple_of_def)
  moreover have "c = released_config" if "validate_exact_contract c = Inr u"
    using that expect_architecture_ok_iff [of c u]
    by (auto simp: validate_exact_contract_def result_simps check_layers_ok_iff Let_def
        simp del: upt_Suc)
  ultimately show ?thesis by blast
qed

text \<open>
  C12. The contract pins every field: validation accepts exactly one configuration, the released one,
  with the layer schedule in which every fourth layer is full attention; in particular the final
  divisibility check never fails on its own.
\<close>

theorem contract_accepts_exactly_one: "validate_exact_contract c = Inr () \<longleftrightarrow> c = released_config"
  by (rule validate_exact_contract_ok_iff)

lemma released_rotary_dim: "rotary_dim released_config = 64"
  by (simp add: rotary_dim_def u64_to_f64_def f64_signed_def f64_magnitude_def
      bit_width.simps round_half_even_def f64_infinity_bits_def f64_mul_def f64_is_nan_def
      f64_is_finite_def f64_is_zero_def f64_exponent_def f64_mantissa_def f64_sign_def
      f64_significand_def f64_scale_def f64_round_to_usize_def)

lemma released_sizes:
  "ple_bf16_bytes_per_token released_config = 5120"
  "qsa_selected_kv_bf16_bytes released_config = 4194304"
  by (simp_all add: ple_bf16_bytes_per_token_def released_ple_rows qsa_selected_kv_bf16_bytes_def
      saturating_mul_def)

section \<open>What a document describes\<close>

definition has_usize :: "json \<Rightarrow> string \<Rightarrow> usize \<Rightarrow> bool" where
  "has_usize v name n \<longleftrightarrow> Option.bind (json_get v name) as_u64 = Some n"

definition has_f64 :: "json \<Rightarrow> string \<Rightarrow> f64 \<Rightarrow> bool" where
  "has_f64 v name x \<longleftrightarrow> Option.bind (json_get v name) as_f64 = Some x \<and> f64_is_finite x"

definition has_str :: "json \<Rightarrow> string \<Rightarrow> unicode \<Rightarrow> bool" where
  "has_str v name t \<longleftrightarrow> Option.bind (json_get v name) as_str = Some t"

definition describes_architecture :: "json \<Rightarrow> qwen38_config \<Rightarrow> bool" where
  "describes_architecture config c \<longleftrightarrow>
     has_usize config ''hidden_size'' (qc_hidden_size c) \<and>
     has_usize config ''vocab_size'' (qc_vocab_size c) \<and>
     has_usize config ''num_hidden_layers'' (qc_num_hidden_layers c) \<and>
     has_usize config ''full_attention_interval'' (qc_full_attention_interval c) \<and>
     has_usize config ''num_attention_heads'' (qc_num_attention_heads c) \<and>
     has_usize config ''num_key_value_heads'' (qc_num_key_value_heads c) \<and>
     has_usize config ''head_dim'' (qc_head_dim c) \<and>
     has_f64 config ''partial_rotary_factor'' (qc_partial_rotary_factor c) \<and>
     has_usize config ''linear_num_key_heads'' (qc_linear_num_key_heads c) \<and>
     has_usize config ''linear_num_value_heads'' (qc_linear_num_value_heads c) \<and>
     has_usize config ''linear_key_head_dim'' (qc_linear_key_head_dim c) \<and>
     has_usize config ''linear_value_head_dim'' (qc_linear_value_head_dim c) \<and>
     has_usize config ''linear_conv_kernel_dim'' (qc_linear_conv_kernel_dim c) \<and>
     has_usize config ''num_experts'' (qc_num_experts c) \<and>
     has_usize config ''num_experts_per_tok'' (qc_num_experts_per_tok c) \<and>
     has_usize config ''moe_intermediate_size'' (qc_moe_intermediate_size c) \<and>
     has_usize config ''shared_expert_intermediate_size'' (qc_shared_expert_intermediate_size c) \<and>
     has_usize config ''hc_count'' (qc_hc_count c) \<and>
     has_usize config ''hc_lowrank'' (qc_hc_lowrank c) \<and>
     has_usize config ''ple_embed_dim'' (qc_ple_embed_dim c) \<and>
     has_usize config ''ple_conv_kernel_size'' (qc_ple_conv_kernel_size c) \<and>
     has_usize config ''ngram_size'' (qc_ngram_size c) \<and>
     has_usize config ''heads_per_ngram'' (qc_heads_per_ngram c) \<and>
     has_usize config ''split_ngram_parts'' (qc_split_ngram_parts c) \<and>
     has_usize config ''ngram_vocab_size_base'' (qc_ngram_vocab_size_base c) \<and>
     has_usize config ''make_ngram_vocab_size_divisible_by'' (qc_make_ngram_vocab_size_divisible_by c) \<and>
     has_usize config ''indexer_n_heads'' (qc_indexer_n_heads c) \<and>
     has_usize config ''indexer_kv_heads'' (qc_indexer_kv_heads c) \<and>
     has_usize config ''indexer_head_dim'' (qc_indexer_head_dim c) \<and>
     has_usize config ''indexer_compress_ratio'' (qc_indexer_compress_ratio c) \<and>
     has_usize config ''indexer_budget'' (qc_indexer_budget c) \<and>
     has_usize config ''max_position_embeddings'' (qc_max_position_embeddings c) \<and>
     has_str config ''output_gate_type'' (qc_output_gate_type c) \<and>
     has_f64 config ''rms_norm_eps'' (qc_rms_norm_eps c) \<and>
     has_usize config ''mtp_num_hidden_layers'' (qc_mtp_num_hidden_layers c) \<and>
     has_usize config ''eos_token_id'' (ucast (qc_eos_token_id c))"

fun layer_name :: "qwen38_layer_type \<Rightarrow> unicode" where
  "layer_name LinearAttention = ascii ''linear_attention''"
| "layer_name FullAttention = ascii ''full_attention''"

definition describes_text :: "json \<Rightarrow> qwen38_config \<Rightarrow> bool" where
  "describes_text config c \<longleftrightarrow>
     has_str config ''model_type'' (qc_text_model_type c) \<and>
     (\<exists>layers. Option.bind (json_get config ''layer_types'') as_array = Some layers \<and>
       map as_str layers = map (\<lambda>t. Some (layer_name t)) (qc_layer_types c)) \<and>
     (\<exists>v n. Option.bind (json_get config ''ple_layer_ids'') as_array = Some [v] \<and> as_u64 v = Some n \<and>
       unat n = Suc (unat (qc_ple_layer c))) \<and>
     (\<exists>rope. json_get config ''rope_parameters'' = Some rope \<and> has_f64 rope ''rope_theta'' (qc_rope_theta c)) \<and>
     describes_architecture config c"

definition describes :: "json \<Rightarrow> qwen38_config \<Rightarrow> bool" where
  "describes document c \<longleftrightarrow>
     has_str document ''model_type'' (qc_model_type c) \<and>
     (\<exists>config. json_get document ''text_config'' = Some config \<and> describes_text config c)"

lemma required_ok_iff:
  "required_usize v name = Inr n \<longleftrightarrow> has_usize v name n"
  "required_f64 v name = Inr x \<longleftrightarrow> has_f64 v name x"
  "required_str v name = Inr t \<longleftrightarrow> has_str v name t"
  by (auto simp: required_usize_def has_usize_def required_f64_def has_f64_def required_str_def
      has_str_def ok_or_Inr_iff split: option.splits)

lemma ascii_inj [simp]: "ascii a = ascii b \<longleftrightarrow> a = b"
proof -
  have "(of_char c :: u32) = of_char d \<longleftrightarrow> c = d" for c d
  proof
    assume "(of_char c :: u32) = of_char d"
    then have "unat (of_char c :: u32) = unat (of_char d :: u32)" by simp
    moreover have "unat (of_char e :: u32) = of_char e" for e
      by (cases e) simp
    ultimately have "(of_char c :: nat) = of_char d" by simp
    then show "c = d" by simp
  qed simp
  then have "inj (of_char :: char \<Rightarrow> u32)" by (simp add: inj_def)
  then show ?thesis by (simp add: ascii_def inj_map_eq_map)
qed

lemma layer_type_of_ok_iff: "layer_type_of v = Inr t \<longleftrightarrow> as_str v = Some (layer_name t)"
  by (cases t) (auto simp: layer_type_of_def)

lemma layer_types_of_ok_iff:
  "layer_types_of vs = Inr ts \<longleftrightarrow> map as_str vs = map (\<lambda>t. Some (layer_name t)) ts"
  by (induction vs arbitrary: ts) (auto simp: result_simps layer_type_of_ok_iff map_eq_Cons_conv)

lemma read_architecture_ok_iff:
  "has_usize config ''eos_token_id'' (ucast eos_token_id) \<and>
   read_architecture config model_type text_model_type layer_types ple_layer rope eos_token_id = Inr c \<longleftrightarrow>
     describes_architecture config c \<and> has_f64 rope ''rope_theta'' (qc_rope_theta c) \<and>
     qc_model_type c = model_type \<and> qc_text_model_type c = text_model_type \<and>
     qc_layer_types c = layer_types \<and> qc_ple_layer c = ple_layer \<and> qc_eos_token_id c = eos_token_id"
  by (cases c) (simp only: read_architecture_def result_simps required_ok_iff describes_architecture_def
      qwen38_config.simps qwen38_config.iffs simp_thms ex_simps, auto)

lemma checked_sub_one_iff:
  "checked_sub n 1 = Some (k :: usize) \<longleftrightarrow> unat n = Suc (unat k)"
proof
  assume "checked_sub n 1 = Some k"
  then have k: "1 \<le> unat n" "k = n - 1" by (auto simp: checked_sub_def split: if_splits)
  then show "unat n = Suc (unat k)" using unat_sub_exact [of 1 n] by simp
next
  assume n: "unat n = Suc (unat k)"
  then have "unat (n - 1) = unat k" using unat_sub_exact [of 1 n] by simp
  then have "n - 1 = k" by (simp only: word_unat_eq_iff)
  then show "checked_sub n 1 = Some k" using n by (simp add: checked_sub_def)
qed

lemma try_narrow_u32_iff: "try_narrow (n :: usize) = Some (k :: u32) \<longleftrightarrow> n = ucast k"
proof
  assume "try_narrow n = Some k"
  then have "unat n < 2 ^ 32" "k = ucast n" by (auto simp: try_narrow_Some_iff)
  then show "n = ucast k" by (simp add: word_unat_eq_iff unat_ucast_small)
next
  assume "n = ucast k"
  then show "try_narrow n = Some k" by (simp add: try_narrow_Some_iff word_unat_eq_iff unat_ucast_small)
qed

lemma single_layer_id:
  "(case vs of [v] \<Rightarrow> f v | _ \<Rightarrow> Inl e) = Inr x \<longleftrightarrow> (\<exists>v. vs = [v] \<and> f v = Inr x)"
  by (auto split: list.splits)

lemma from_value_ok_iff: "from_value document = Inr c \<longleftrightarrow> describes document c"
proof -
  have arch: "(\<exists>e. has_usize config ''eos_token_id'' (ucast e) \<and>
      read_architecture config mt tmt lts pl rope e = Inr c) \<longleftrightarrow>
     describes_architecture config c \<and> has_f64 rope ''rope_theta'' (qc_rope_theta c) \<and>
     qc_model_type c = mt \<and> qc_text_model_type c = tmt \<and>
     qc_layer_types c = lts \<and> qc_ple_layer c = pl" for config mt tmt lts pl rope
    unfolding read_architecture_ok_iff by blast
  have eos: "(\<exists>n. has_usize config ''eos_token_id'' n \<and> (\<exists>e. n = ucast (e :: u32) \<and> P e)) \<longleftrightarrow>
      (\<exists>e. has_usize config ''eos_token_id'' (ucast e) \<and> P e)" for config P
    by blast
  show ?thesis
    unfolding from_value_def describes_def describes_text_def bindE_Inr_iff ok_or_Inr_iff single_layer_id
      required_ok_iff required_array_def value_usize_def layer_types_of_ok_iff checked_sub_one_iff
      try_narrow_u32_iff eos arch
    by blast
qed

text \<open>
  C22. Reading is exact: a document gives a configuration exactly when it holds every field, each of
  its type, the strings and integers and finite floats being those of the configuration, the layer
  names those of the schedule, the single one-based PLE layer id one more than the PLE layer, and the
  end-of-sequence token a 32-bit value. Further fields and their order do not matter.
\<close>

theorem from_value_reads_exactly: "from_value document = Inr c \<longleftrightarrow> describes document c"
  by (rule from_value_ok_iff)

section \<open>A document of the released model\<close>

text \<open>Its \<open>rope_theta\<close> is an integer, as in the published file, and it has a field that is not read.\<close>

abbreviation render_usize :: "usize \<Rightarrow> json" where
  "render_usize n \<equiv> JNumber (PosInt n)"

abbreviation render_f64 :: "f64 \<Rightarrow> json" where
  "render_f64 x \<equiv> JNumber (Float x)"

definition text_entries :: "qwen38_config \<Rightarrow> (string \<times> json) list" where
  "text_entries c =
       [(''model_type'', JString (qc_text_model_type c)),
        (''hidden_act'', JString (ascii ''silu'')),
        (''hidden_size'', render_usize (qc_hidden_size c)),
        (''vocab_size'', render_usize (qc_vocab_size c)),
        (''num_hidden_layers'', render_usize (qc_num_hidden_layers c)),
        (''layer_types'', JArray (map (\<lambda>t. JString (layer_name t)) (qc_layer_types c))),
        (''full_attention_interval'', render_usize (qc_full_attention_interval c)),
        (''num_attention_heads'', render_usize (qc_num_attention_heads c)),
        (''num_key_value_heads'', render_usize (qc_num_key_value_heads c)),
        (''head_dim'', render_usize (qc_head_dim c)),
        (''partial_rotary_factor'', render_f64 (qc_partial_rotary_factor c)),
        (''linear_num_key_heads'', render_usize (qc_linear_num_key_heads c)),
        (''linear_num_value_heads'', render_usize (qc_linear_num_value_heads c)),
        (''linear_key_head_dim'', render_usize (qc_linear_key_head_dim c)),
        (''linear_value_head_dim'', render_usize (qc_linear_value_head_dim c)),
        (''linear_conv_kernel_dim'', render_usize (qc_linear_conv_kernel_dim c)),
        (''num_experts'', render_usize (qc_num_experts c)),
        (''num_experts_per_tok'', render_usize (qc_num_experts_per_tok c)),
        (''moe_intermediate_size'', render_usize (qc_moe_intermediate_size c)),
        (''shared_expert_intermediate_size'', render_usize (qc_shared_expert_intermediate_size c)),
        (''hc_count'', render_usize (qc_hc_count c)),
        (''hc_lowrank'', render_usize (qc_hc_lowrank c)),
        (''ple_layer_ids'', JArray [render_usize (qc_ple_layer c + 1)]),
        (''ple_embed_dim'', render_usize (qc_ple_embed_dim c)),
        (''ple_conv_kernel_size'', render_usize (qc_ple_conv_kernel_size c)),
        (''ngram_size'', render_usize (qc_ngram_size c)),
        (''heads_per_ngram'', render_usize (qc_heads_per_ngram c)),
        (''split_ngram_parts'', render_usize (qc_split_ngram_parts c)),
        (''ngram_vocab_size_base'', render_usize (qc_ngram_vocab_size_base c)),
        (''make_ngram_vocab_size_divisible_by'', render_usize (qc_make_ngram_vocab_size_divisible_by c)),
        (''indexer_n_heads'', render_usize (qc_indexer_n_heads c)),
        (''indexer_kv_heads'', render_usize (qc_indexer_kv_heads c)),
        (''indexer_head_dim'', render_usize (qc_indexer_head_dim c)),
        (''indexer_compress_ratio'', render_usize (qc_indexer_compress_ratio c)),
        (''indexer_budget'', render_usize (qc_indexer_budget c)),
        (''max_position_embeddings'', render_usize (qc_max_position_embeddings c)),
        (''eos_token_id'', render_usize (ucast (qc_eos_token_id c))),
        (''output_gate_type'', JString (qc_output_gate_type c)),
        (''rms_norm_eps'', render_f64 (qc_rms_norm_eps c)),
        (''rope_parameters'', JObject [(ascii ''rope_theta'', render_usize 10000000)]),
        (''mtp_num_hidden_layers'', render_usize (qc_mtp_num_hidden_layers c))]"

definition text_config_of :: "qwen38_config \<Rightarrow> json" where
  "text_config_of c = JObject (map (\<lambda>(name, v). (ascii name, v)) (text_entries c))"

definition test_document :: json where
  "test_document = JObject
     [(ascii ''model_type'', JString (ascii ''qwen4_exp'')),
      (ascii ''text_config'', text_config_of released_config)]"

lemma map_of_ascii: "map_of (map (\<lambda>(name, v). (ascii name, v)) entries) (ascii name) = map_of entries name"
  by (induction entries) auto

lemma u64_to_f64_ten_million: "u64_to_f64 10000000 = 0x416312D000000000"
  by (simp add: u64_to_f64_def f64_signed_def f64_magnitude_def bit_width.simps f64_infinity_bits_def)

lemma f64_finite_parameters:
  "f64_is_finite 0x3FD0000000000000" "f64_is_finite 0x3EB0C6F7A0B5ED8D" "f64_is_finite 0x416312D000000000"
  by (simp_all add: f64_is_finite_def f64_exponent_def)

lemma text_config_lookup: "json_get (text_config_of c) name = map_of (text_entries c) name"
  by (simp add: text_config_of_def map_of_ascii)

lemma test_text_architecture: "describes_architecture (text_config_of released_config) released_config"
  unfolding describes_architecture_def has_usize_def has_f64_def has_str_def text_config_lookup
    text_entries_def
  by (simp add: released_config_def f64_finite_parameters)

lemma test_text_described: "describes_text (text_config_of released_config) released_config"
proof -
  let ?c = "text_config_of released_config" and ?layers = "map (\<lambda>t. JString (layer_name t)) (qc_layer_types released_config)"
  have "json_get ?c ''model_type'' = Some (JString (ascii ''qwen4_exp_text''))"
    "json_get ?c ''layer_types'' = Some (JArray ?layers)"
    "json_get ?c ''ple_layer_ids'' = Some (JArray [render_usize 2])"
    "json_get ?c ''rope_parameters'' = Some (JObject [(ascii ''rope_theta'', render_usize 10000000)])"
    unfolding text_config_lookup text_entries_def by (simp_all add: released_config_def)
  moreover have "qc_text_model_type released_config = ascii ''qwen4_exp_text''"
    "qc_rope_theta released_config = 0x416312D000000000"
    by (simp_all add: released_config_def)
  ultimately show ?thesis
    using test_text_architecture
    by (simp add: describes_text_def has_str_def has_f64_def u64_to_f64_ten_million f64_finite_parameters
        comp_def del: upt_Suc)
qed

lemma test_document_described: "describes test_document released_config"
  using test_text_described by (simp add: describes_def test_document_def has_str_def)
     (simp add: released_config_def)

lemma test_document_reads: "from_value test_document = Inr released_config"
  using test_document_described by (simp add: from_value_ok_iff)

end
