(* ===== verification/Spec2Isabelle.thy ===== *)
theory Spec2Isabelle
  imports PleHash PlepackTool PleConcurrent RuntimePath Gate ProbeTool Telemetry Qwen38
begin

text \<open>
  GB10X runs one model (Qwen3.8-Flash-Next) on one machine (an NVIDIA GB10 host). This development
  models its Rust crates under \<open>crates/\<close> and proves what their parts promise and what they promise
  together.

  \<^bold>\<open>The program.\<close> The model looks up rows of a large table (PLE rows) by hashing the last tokens.
  \<^item> \<open>gb10x-core\<close>: \<open>ple_hash.rs\<close> hashes a token in its window of previous tokens to sixteen rows,
    and the window supports speculative appends; \<open>qwen38.rs\<close> reads a model configuration and checks
    it against the pinned contract; \<open>platform.rs\<close> holds the platform facts.
  \<^item> \<open>gb10x-ple\<close>: rows are read from an immutable flat file (\<open>source.rs\<close>) and, for hot rows, from a
    sidecar file. A planner (\<open>layout.rs\<close>) orders the rows of a trace, a writer (\<open>writer.rs\<close>)
    publishes the sidecar atomically, a reader (\<open>reader.rs\<close>) validates it, searches its index and
    serves reads; \<open>disk.rs\<close> and \<open>format.rs\<close> are its binary format.
  \<^item> \<open>gb10x-runtime\<close>: \<open>linux_probe.rs\<close> reads the host facts, \<open>validate.rs\<close> is the fail-closed gate
    over them, \<open>cache_fabric.rs\<close> gives every key an owning CPU and plans the hot keys of each,
    \<open>ple_hydra.rs\<close> resolves keys to storage tiers over such a plan.
  \<^item> \<open>gb10x-telemetry\<close>: \<open>record.rs\<close> validates evidence records. \<open>gb10x-tools\<close>: the command
    \<open>gb10x-plepack\<close> plans, builds and verifies sidecars, \<open>gb10x-probe\<close> prints the host facts.

  \<^bold>\<open>The theories\<close>, with the file each models. Names are those of the code, record fields carry a
  short prefix.
  \<^item> \<open>Prelude\<close>, \<open>Bytes\<close>, \<open>RustText\<close>, \<open>Float64\<close>: what the components use of Rust: words and checked
    arithmetic, results and panics, byte buffers, text, and \<open>f64\<close> on bit patterns.
  \<^item> \<open>Comparators\<close>, \<open>Ownership\<close>: two contracts the runtime relies on, as locales: a comparator given
    to a sort ranks values in a linear order, and every key has one owner among those listed.
  \<^item> \<open>PleHash\<close> (\<open>ple_hash.rs\<close>), \<open>Qwen38\<close> (\<open>qwen38.rs\<close>), \<open>Platform\<close> (\<open>platform.rs\<close>).
  \<^item> \<open>PleFormat\<close> (\<open>format.rs\<close>, \<open>disk.rs\<close>), \<open>PleLayout\<close> (\<open>layout.rs\<close>), \<open>PleSource\<close> (\<open>source.rs\<close>),
    \<open>FileIo\<close> (the calls of \<open>std::fs\<close> the writer makes), \<open>PleWriter\<close> and \<open>PleSidecar\<close>
    (\<open>writer.rs\<close>), \<open>PleDurability\<close> (the writer and loss of power), \<open>Interleaving\<close> and
    \<open>PleConcurrent\<close> (several writers at once), \<open>PleReader\<close> and \<open>PleRoundtrip\<close> (\<open>reader.rs\<close>),
    \<open>PlepackTool\<close> (the command).
  \<^item> \<open>HostProbe\<close> (\<open>linux_probe.rs\<close>), \<open>SysfsCaches\<close> (the cache topology as the kernel prints it),
    \<open>ProbeTool\<close> (the command \<open>gb10x-probe\<close>), \<open>Gate\<close> (\<open>validate.rs\<close>), \<open>CacheFabric\<close>
    (\<open>cache_fabric.rs\<close>), \<open>HotPlanQuality\<close> (its plan as a knapsack), \<open>PleHydra\<close>
    (\<open>ple_hydra.rs\<close>), \<open>RuntimePath\<close> (from the probe to the tiers), \<open>Telemetry\<close> (\<open>record.rs\<close>).

  \<^bold>\<open>How it is modelled.\<close> A struct is a record, an enum a datatype, an integer a word of its width
  (\<open>usize\<close> has 64 bits on the supported targets). \<open>Result\<close> is a sum with the error on the left;
  where the code indexes, divides, copies between slices or adds in a way that could panic, the
  error type is \<open>fault\<close> with a branch for the panic, and the absence of panics is proved. Every
  loop is a structural recursion over the list it walks, and the binary search has a termination
  proof, so nothing runs on fuel. The trait \<open>ExactPleRowSource\<close> is the locale \<open>exact_row_source\<close>:
  writer and reader are proved once against it and it is interpreted on the flat file; the contract
  of a comparator is interpreted on the two comparators of the runtime, that of key ownership on the
  CPU cache fabric, and the hierarchy uses it. The file
  system is a state; every writing call takes its outcome from a schedule in which any call may fail
  or the process may be killed in it after partial progress, and properties hold for all schedules.
  The state also says what has not reached the disk, hence what may be found after a loss of power.
  For several writers at once the same code is a program whose calls are single steps, proved to run
  like \<open>write_overlay\<close> when it is alone; the locale \<open>interference\<close> composes processes whose guarantees
  are within the relies of the others, and is interpreted on the writers of one destination.

  \<^bold>\<open>What is shown.\<close>
  \<^item> Hashing never fails on an accepted plan and equals the reference formula; a window refines a
    token history under every sequence of transactions, and a session fails exactly where and as the
    history says; a prefix commit replays the accepted tokens.
  \<^item> The planner equals a reference layout; the image of a sidecar is determined byte by byte;
    publishing is atomic under every schedule, and after a loss of power the destination holds what
    it could have held before or the complete image; a report means that the image is on the disk,
    unless a directory above it was new; writers that run at the same time under different names for
    their temporary files never damage the destination; decoding inverts encoding; opening accepts exactly the
    valid sidecars; search is lookup; verified reads are source reads, whoever wrote the sidecar.
  \<^item> \<open>build\<close> followed by \<open>verify\<close> succeeds, and reads through the built sidecar are the file's rows;
    a \<open>build\<close> over its own source replaces the rows.
  \<^item> The contract accepts one configuration, reading is exact, and what it derives fits the hash.
  \<^item> The gate and the validation of evidence accept exactly what their rules say, and their errors
    name the first false requirement and a field that is at fault; the probe's parsers read what the kernel prints, the list
    of caches does not depend on the order in which directories are listed, and a probed host satisfies its share of the gate.
  \<^item> Every key has one owner, hot plans fill their budgets greedily and exactly, do not depend on
    the order of candidates and are nearly optimal, and tiers and counters follow from them; on what
    the kernel prints for private caches all of this comes up.

  \<^bold>\<open>Not modelled.\<close> SHA-256, JSON parsing and printing, argument parsing, memory mapping and the
  answers of \<open>/sys\<close> and \<open>/proc\<close> are arguments, with the documented facts the code relies on as
  hypotheses (a digest has 32 bytes; a mapped file does not change). The file system has no links and
  no other process than writers of sidecars. The \<open>serde\<close> derives, the text of error messages and the crate roots have no
  definitions. Allocation and printing to the terminal do not fail.
\<close>

section \<open>From the model's rows to verified reads\<close>

text \<open>
  C1. The whole path of the command-line tool: when a flat file opens as a row source, the planner
  accepts the trace and the writer reports success, under any schedule of outcomes, then the file at
  the destination opens against the source, verifies with one hit per hot row, and every row read
  through it is the bytes of that row in the flat file.
\<close>

theorem built_sidecar_serves_the_file:
  assumes "length bs < 2 ^ 64" and "\<And>x. length (sha256 x) = 32"
    and "raw_source_open sha256 (stable_file bs) row_bytes = Inr s"
    and "plan_exact_layout (raw_row_count s) row_bytes block_bytes trace = Inr plan"
    and "write_overlay sha256 path pid nonce (raw_as_source s) plan fs sch = (Inr report, fs', sch')"
  shows "\<exists>img r. fs_files fs' path = Some img \<and>
    reader_open sha256 (stable_file img) (raw_as_source s) = Inr r \<and>
    verify_hot_overlay r = Inr (word_of_nat (length (lp_hot_order plan))) \<and>
    (\<forall>row dst. unat row * unat row_bytes < length bs \<longrightarrow> length dst = unat row_bytes \<longrightarrow>
       reader_read_exact_row r row dst = Inr (take (unat row_bytes) (drop (unat row * unat row_bytes) bs)))"
proof -
  have wf: "wf_raw_source s" by (rule raw_source_open_wf [OF assms(1-3)])
  have s: "row_bytes \<noteq> 0" "raw_mmap s = bs" "raw_row_bytes s = row_bytes"
    using assms(3) raw_source_open_iff [OF assms(1)] by auto
  have planned: "plan_exact_layout (raw_row_count s) (raw_row_bytes s) block_bytes trace = Inr plan"
    using assms(4) s(3) by simp
  note matches = planned_matches [OF wf planned]
  from assms(2) wf planned assms(5) obtain img r where
    img: "fs_files fs' path = Some img" and
    r: "reader_open sha256 (stable_file img) (raw_as_source s) = Inr r" "wf_reader r"
      "rd_source r = raw_as_source s" "verify_hot_overlay r = Inr (wr_hot_rows report)"
    by (rule built_sidecar_verifies)
  have hot: "wr_hot_rows report = word_of_nat (length (lp_placements plan))"
  proof -
    from assms(5) obtain parts where "prepare_sidecar sha256 (raw_as_source s) plan = Inr parts"
      "report = written_report parts" by (rule write_overlay_report)
    then show ?thesis
      using prepare_sidecar_eq [of "raw_as_source s" plan sha256, OF matches assms(2)]
      by (auto simp: written_report_def sidecar_header_def split: if_splits)
  qed
  have "reader_read_exact_row r row dst = Inr (take (unat row_bytes) (drop (unat row * unat row_bytes) bs))"
    if "unat row * unat row_bytes < length bs" "length dst = unat row_bytes" for row dst
  proof -
    have "length bs = unat (raw_row_count s) * unat row_bytes"
      using wf s by (simp add: wf_raw_source_def)
    then have "ucast row < raw_row_count s"
      using that(1) by (simp add: ucast_less_iff)
    then have "raw_read_exact_row s row dst = Inr (raw_row s row)"
      using that(2) s(3) by (simp add: raw_read_eq [OF wf])
    then show ?thesis
      using raw.verified_read_iff [OF r(2,3) wf r(4), of row dst "raw_row s row"] s(2,3)
      by (simp add: raw_as_source_def raw_row_def field_def)
  qed
  then show ?thesis
    using img r(1,4) hot length_placements [of plan] matches by (auto simp: plan_matches_def)
qed

theorem built_sidecar_serves_the_file_witness:
  "\<exists>fs' report img r. write_overlay test_sha256 test_path 7 9 (raw_as_source test_source)
      test_overlay_plan empty_fs [] = (Inr report, fs', []) \<and> fs_files fs' test_path = Some img \<and>
    reader_open test_sha256 (stable_file img) (raw_as_source test_source) = Inr r \<and>
    reader_read_exact_row r 2 [0, 0] = Inr [5, 6]"
proof -
  note matches = planned_matches [OF test_source_wf test_overlay_planned]
  obtain parts where "prepare_sidecar test_sha256 (raw_as_source test_source) test_overlay_plan = Inr parts"
    using prepare_sidecar_eq [of _ _ test_sha256, OF matches length_test_sha256]
    by (simp add: test_overlay_size)
  from write_overlay_runs [OF matches length_test_sha256 _ test_image_made(1) this test_publishable [of 7 9]]
  obtain fs' report where run: "write_overlay test_sha256 test_path 7 9 (raw_as_source test_source)
      test_overlay_plan empty_fs [] = (Inr report, fs', [])"
    by (auto simp: test_overlay_size)
  have "plan_exact_layout (raw_row_count test_source) 2 4 [[2, 0]] = Inr test_overlay_plan"
    using test_overlay_planned by (simp add: test_source_def)
  from built_sidecar_serves_the_file [OF length_test_file length_test_sha256 test_source_open this run]
  obtain img r where r: "fs_files fs' test_path = Some img"
    "reader_open test_sha256 (stable_file img) (raw_as_source test_source) = Inr r"
    "\<And>row dst. unat row * unat (2 :: u32) < length test_file \<Longrightarrow> length dst = unat (2 :: u32) \<Longrightarrow>
       reader_read_exact_row r row dst
         = Inr (take (unat (2 :: u32)) (drop (unat row * unat (2 :: u32)) test_file))"
    by blast
  have "reader_read_exact_row r 2 [0, 0] = Inr [5, 6]"
    using r(3) [of 2 "[0, 0]"] by (simp add: test_file_def)
  then show ?thesis using run r(1,2) by blast
qed

section \<open>From the probed host to the gate\<close>

text \<open>
  C16. The probe does its part of the gate: for a host that was probed, the CPU list, the cache
  topology, the CPUs of every cache and the page size never make the gate refuse, so whether the
  platform is accepted depends only on the architecture, the memory size, zero sizes among the
  caches, and the GPU.
\<close>

theorem probed_host_at_the_gate:
  assumes "probe_host_from_paths h cpu_root online cpuinfo meminfo arch release page_size = Inr p"
  shows "is_ok (validate_gb10 (into_platform_snapshot p gpu)) \<longleftrightarrow>
    arch = ascii ''aarch64'' \<and> names_gb10 (gpu_name gpu) \<and>
    gpu_compute_major gpu = 12 \<and> gpu_compute_minor gpu = 1 \<and>
    list_all (\<lambda>c. cc_size_bytes c \<noteq> 0 \<and> cc_line_bytes c \<noteq> 0) (pr_caches p) \<and>
    pr_mem_total_bytes p \<noteq> 0 \<and> gpu_l2_bytes gpu \<noteq> 0 \<and> gpu_total_memory_bytes gpu \<noteq> 0 \<and>
    gpu_persisting_l2_max_bytes gpu \<le> gpu_l2_bytes gpu"
proof -
  note probed = probe_host_from_paths_sound [OF assms]
  show ?thesis
    using probed by (auto simp: is_ok_iff validate_gb10_ok_iff gb10_defs into_platform_snapshot_def
        list_all_iff word_gt_0)
qed

theorem probed_host_at_the_gate_witness:
  "is_ok (validate_gb10 (into_platform_snapshot test_probe test_gpu))"
proof -
  have "names_gb10 (gpu_name test_gpu)"
    using test_snapshot_accepted
    by (auto simp: is_ok_iff validate_gb10_ok_iff gb10_defs test_snapshot_def)
  then show ?thesis
    using probed_host_at_the_gate [OF test_host_probed, of test_gpu]
    by (simp add: test_probe_def test_l3_def test_gpu_def)
qed

section \<open>From the model contract to the hashed rows\<close>

text \<open>
  C11. A configuration that passes the contract fixes what the runtime computes with: 64 rotary
  dimensions, rows of 160 values, 5120 bytes of PLE rows per token and 4 MiB of selected keys
  and values per sparse-attention layer; its shape is the one the hash plan and the token window
  accept, and every token hashes to exactly \<open>ple_rows_per_token\<close> distinct rows.
\<close>

theorem released_model_drives_ple:
  assumes "validate_exact_contract c = Inr ()"
    and "ple_hash_plan_new mults sizes offs (qc_heads_per_ngram c) (qc_ngram_size c) (qc_eos_token_id c) = Inr p"
  shows "rotary_dim c = 64 \<and> ple_row_width c = 160 \<and> ple_bf16_bytes_per_token c = 5120 \<and>
    qsa_selected_kv_bf16_bytes c = 4194304 \<and>
    (\<exists>w rows. token_window_new (qc_ngram_size c) (qc_eos_token_id c) = Inr w \<and>
      rows_for_token p w token = Inr (rows, push w token) \<and>
      length rows = unat (ple_rows_per_token c) \<and> distinct rows)"
proof -
  have c: "c = released_config" using assms(1) by (simp add: validate_exact_contract_ok_iff)
  have p: "wf_plan p" "plan_eos p = 248044" using assms(2) by (auto simp: c ple_hash_plan_new_ok_iff)
  obtain w where window: "token_window_new (qc_ngram_size c) (qc_eos_token_id c) = Inr w"
    "window_eos w = plan_eos p"
    using p(2) by (simp add: c token_window_new_def qwen_constants)
  from p(1) window(2) obtain rows where
    "rows_for_token p w token = Inr (rows, push w token)" "length rows = 16" "distinct rows"
    by (rule rows_in_tables)
  then show ?thesis
    using window by (simp add: c released_rotary_dim released_ple_rows released_sizes)
qed

theorem released_model_drives_ple_witness:
  "\<exists>rows. rows_for_token test_plan test_window 42 = Inr (rows, push test_window 42) \<and> length rows = 16"
proof -
  have "ple_hash_plan_new (multipliers test_plan) (vocab_sizes test_plan) (offsets test_plan)
      (qc_heads_per_ngram released_config) (qc_ngram_size released_config)
      (qc_eos_token_id released_config) = Inr test_plan"
    using test_plan_new by simp
  from released_model_drives_ple [OF _ this, of 42]
  show ?thesis
    using test_window_new by (auto simp: validate_exact_contract_ok_iff released_ple_rows)
qed

end
